(* ===== verification/Prelude.thy ===== *)
theory Prelude imports Main "HOL-Library.Word" begin

text \<open>
  Shared vocabulary of the development: Go errors as values, results, the string functions of
  Go's standard library that the source calls, decimal printing and parsing, and the named
  collections of facts the component theories extend.

  A Go \<open>error\<close> is one of three things here.  \<open>GoErr s\<close> is an error made on the spot
  (\<open>errors.New\<close>, \<open>fmt.Errorf\<close>) with text \<open>s\<close>.  \<open>Sentinel s\<close> is a package
  variable initialised once with \<open>errors.New s\<close>: Go compares errors by identity, so a
  sentinel equals only itself and never a \<open>GoErr\<close> of the same text.  \<open>StatusErr c m\<close>
  is an error of gRPC's \<open>status\<close> package.
\<close>

named_theorems go_string \<open>facts on the modelled functions of Go's package strings\<close>

section \<open>Errors and results\<close>

datatype grpc_code =
    Canceled | Unknown | NotFound | AlreadyExists | FailedPrecondition | Aborted
  | Unimplemented | Internal | Unavailable

datatype goerr = GoErr string | Sentinel string | StatusErr grpc_code string

fun code_text :: "grpc_code \<Rightarrow> string" where
  "code_text Canceled = ''Canceled''"
| "code_text Unknown = ''Unknown''"
| "code_text NotFound = ''NotFound''"
| "code_text AlreadyExists = ''AlreadyExists''"
| "code_text FailedPrecondition = ''FailedPrecondition''"
| "code_text Aborted = ''Aborted''"
| "code_text Unimplemented = ''Unimplemented''"
| "code_text Internal = ''Internal''"
| "code_text Unavailable = ''Unavailable''"

text \<open>The method \<open>Error()\<close>.\<close>

fun err_text :: "goerr \<Rightarrow> string" where
  "err_text (GoErr s) = s"
| "err_text (Sentinel s) = s"
| "err_text (StatusErr c m) = ''rpc error: code = '' @ code_text c @ '' desc = '' @ m"

text \<open>\<open>fmt.Errorf("... %s", err)\<close> for a format that ends in its only verb.\<close>

definition errorf :: "string \<Rightarrow> goerr \<Rightarrow> goerr" where
  "errorf msg e = GoErr (msg @ err_text e)"

text \<open>
  A call that may panic (a nil pointer is dereferenced, \<open>panic\<close> or \<open>log.Panic\<close> is
  reached) returns an outcome.
\<close>

datatype 'a outcome = Panic string | Ret 'a

abbreviation nil_deref :: "'a outcome" where
  "nil_deref \<equiv> Panic ''invalid memory address or nil pointer dereference''"

section \<open>Calls that may fail\<close>

text \<open>
  A call that reads and changes a state \<open>'s\<close> and returns a value or an error.  \<open>try m wrap k\<close>
  is the idiom \<open>x, err := m(); if err != nil { return wrap(err) }; k(x)\<close>.
\<close>

type_synonym ('s, 'a) call = "'s \<Rightarrow> (goerr + 'a) \<times> 's"

definition return :: "'a \<Rightarrow> ('s, 'a) call" where
  "return x s = (Inr x, s)"

definition fail :: "goerr \<Rightarrow> ('s, 'a) call" where
  "fail e s = (Inl e, s)"

definition try_call :: "('s, 'a) call \<Rightarrow> (goerr \<Rightarrow> goerr) \<Rightarrow> ('a \<Rightarrow> ('s, 'b) call) \<Rightarrow> ('s, 'b) call" where
  "try_call m wrap k s =
     (case m s of (Inl e, s1) \<Rightarrow> (Inl (wrap e), s1) | (Inr x, s1) \<Rightarrow> k x s1)"

text \<open>A computation that does not touch the state.\<close>

definition lift :: "goerr + 'a \<Rightarrow> ('s, 'a) call" where
  "lift r s = (r, s)"

named_theorems calls \<open>the call combinators, unfolded\<close>

lemma call_simps [calls, simp]:
  "return x s = (Inr x, s)" "fail e s = (Inl e, s)" "lift r s = (r, s)"
  by (simp_all add: return_def fail_def lift_def)

lemma try_call_simps [calls]:
  "m s = (Inl e, s1) \<Longrightarrow> try_call m wrap k s = (Inl (wrap e), s1)"
  "m s = (Inr x, s1) \<Longrightarrow> try_call m wrap k s = k x s1"
  by (simp_all add: try_call_def)

lemma try_call_Inr:
  "try_call m wrap k s = (Inr y, s2) \<longleftrightarrow> (\<exists>x s1. m s = (Inr x, s1) \<and> k x s1 = (Inr y, s2))"
  by (auto simp: try_call_def split: prod.splits sum.splits)

section \<open>Go's package strings\<close>

definition has_prefix :: "string \<Rightarrow> string \<Rightarrow> bool" where
  "has_prefix s p = (take (length p) s = p)"

definition has_suffix :: "string \<Rightarrow> string \<Rightarrow> bool" where
  "has_suffix s p = (length p \<le> length s \<and> drop (length s - length p) s = p)"

definition trim_prefix :: "string \<Rightarrow> string \<Rightarrow> string" where
  "trim_prefix s p = (if has_prefix s p then drop (length p) s else s)"

fun contains :: "string \<Rightarrow> string \<Rightarrow> bool" where
  "contains [] p = (p = [])"
| "contains (c # s) p = (has_prefix (c # s) p \<or> contains s p)"

text \<open>\<open>strings.Replace(s, old, new, 1)\<close> for a non-empty \<open>old\<close>.\<close>

fun replace_first :: "string \<Rightarrow> string \<Rightarrow> string \<Rightarrow> string" where
  "replace_first [] old new = []"
| "replace_first (c # s) old new =
     (if has_prefix (c # s) old then new @ drop (length old) (c # s)
      else c # replace_first s old new)"

fun join :: "string list \<Rightarrow> string \<Rightarrow> string" where
  "join [] sep = []"
| "join [x] sep = x"
| "join (x # y # xs) sep = x @ sep @ join (y # xs) sep"

lemma has_prefix_append [simp, go_string]: "has_prefix (p @ s) p"
  by (simp add: has_prefix_def)

lemma has_prefix_iff [go_string]: "has_prefix s p \<longleftrightarrow> (\<exists>t. s = p @ t)"
proof
  assume "has_prefix s p"
  then have "s = p @ drop (length p) s"
    by (metis append_take_drop_id has_prefix_def)
  then show "\<exists>t. s = p @ t" ..
qed auto

lemma trim_prefix_append [simp, go_string]: "trim_prefix (p @ s) p = s"
  by (simp add: trim_prefix_def)

lemma contains_append1: "contains t p \<Longrightarrow> contains (s @ t) p"
  by (induction s) auto

lemma contains_prefix: "contains (p @ t) p"
proof (cases "p @ t")
  case Nil
  then show ?thesis by simp
next
  case (Cons c s)
  then have "has_prefix (c # s) p" by (metis has_prefix_append)
  with Cons show ?thesis by simp
qed

lemma contains_infix [go_string]: "contains (s @ p @ t) p"
  by (rule contains_append1, rule contains_prefix)

lemma replace_first_skip [go_string]:
  assumes "a \<notin> set s"
  shows "replace_first (s @ a # t) [a] new = s @ new @ t"
  using assms by (induction s) (auto simp: has_prefix_def)

section \<open>Decimal numerals\<close>

definition digit_char :: "nat \<Rightarrow> char" where
  "digit_char d = char_of (48 + d)"

definition char_digit :: "char \<Rightarrow> nat option" where
  "char_digit c = (let n = of_char c in if 48 \<le> n \<and> n \<le> (57::nat) then Some (n - 48) else None)"

text \<open>\<open>fmt.Sprint\<close> and \<open>%d\<close> of an unsigned number.\<close>

fun nat_str :: "nat \<Rightarrow> string" where
  "nat_str n = (if n < 10 then [digit_char n] else nat_str (n div 10) @ [digit_char (n mod 10)])"

declare nat_str.simps [simp del]

fun digits_value :: "nat \<Rightarrow> string \<Rightarrow> nat option" where
  "digits_value acc [] = Some acc"
| "digits_value acc (c # s) =
     (case char_digit c of None \<Rightarrow> None | Some d \<Rightarrow> digits_value (10 * acc + d) s)"

lemma char_digit_digit_char [simp]: "d < 10 \<Longrightarrow> char_digit (digit_char d) = Some d"
  by (simp add: char_digit_def digit_char_def Let_def)

lemma digits_value_append:
  "digits_value a (s @ t) = (case digits_value a s of None \<Rightarrow> None | Some b \<Rightarrow> digits_value b t)"
  by (induction a s rule: digits_value.induct) (auto split: option.splits)

lemma nat_str_not_Nil [simp]: "nat_str n \<noteq> []"
  by (subst nat_str.simps) simp

lemma digits_value_nat_str [simp]: "digits_value 0 (nat_str n) = Some n"
proof (induction n rule: nat_str.induct)
  case (1 n)
  show ?case
  proof (cases "n < 10")
    case True
    then show ?thesis by (subst nat_str.simps) simp
  next
    case False
    with "1" have "digits_value 0 (nat_str (n div 10)) = Some (n div 10)" by simp
    with False show ?thesis
      by (subst nat_str.simps) (simp add: digits_value_append)
  qed
qed

lemma nat_str_inject [simp]: "nat_str m = nat_str n \<longleftrightarrow> m = n"
  by (metis digits_value_nat_str option.inject)

section \<open>Generic facts\<close>

lemma filter_map_of_distinct:
  assumes "distinct (map f xs)" and "x \<in> set xs"
  shows "filter (\<lambda>y. f y = f x) xs = [x]"
  using assms by (induction xs) (auto simp: filter_empty_conv image_iff)

lemma map_of_find:
  assumes "distinct (map f xs)" and "x \<in> set xs"
  shows "find (\<lambda>y. f y = f x) xs = Some x"
  using assms by (induction xs) (auto simp: image_iff)

lemma find_None_iff': "find P xs = None \<longleftrightarrow> (\<forall>x\<in>set xs. \<not> P x)"
  by (induction xs) auto

lemma find_SomeD: "find P xs = Some x \<Longrightarrow> x \<in> set xs \<and> P x"
  by (induction xs) (auto split: if_splits)

section \<open>Forward simulation\<close>

text \<open>
  The contract between a component and what it promises: in related states every admissible
  operation returns, and the abstract machine can take a step with the same outcome to a related
  state.
\<close>

locale forward_simulation =
  fixes rel :: "'s \<Rightarrow> 'a \<Rightarrow> bool"
    and admissible :: "'op \<Rightarrow> bool"
    and exec :: "'op \<Rightarrow> 's \<Rightarrow> (goerr option \<times> 's) option"
    and spec :: "'op \<Rightarrow> bool \<Rightarrow> 'a \<Rightarrow> 'a \<Rightarrow> bool"
  assumes sim_step: "rel s a \<Longrightarrow> admissible oper \<Longrightarrow>
    \<exists>e s' a'. exec oper s = Some (e, s') \<and> spec oper (e = None) a a' \<and> rel s' a'"
begin

fun exec_all :: "'op list \<Rightarrow> 's \<Rightarrow> (goerr option list \<times> 's) option" where
  "exec_all [] s = Some ([], s)"
| "exec_all (oper # ops) s =
     (case exec oper s of
        None \<Rightarrow> None
      | Some (e, s1) \<Rightarrow> map_option (\<lambda>(es, s2). (e # es, s2)) (exec_all ops s1))"

fun spec_all :: "'op list \<Rightarrow> bool list \<Rightarrow> 'a \<Rightarrow> 'a \<Rightarrow> bool" where
  "spec_all [] [] a a' = (a = a')"
| "spec_all (oper # ops) (b # bs) a a' = (\<exists>a1. spec oper b a a1 \<and> spec_all ops bs a1 a')"
| "spec_all _ _ _ _ = False"

lemma sim_all:
  assumes "rel s a" and "list_all admissible ops"
  shows "\<exists>es s' a'. exec_all ops s = Some (es, s') \<and> spec_all ops (map (\<lambda>e. e = None) es) a a' \<and> rel s' a'"
  using assms
proof (induction ops arbitrary: s a)
  case (Cons oper ops)
  then obtain e s1 a1 where step: "exec oper s = Some (e, s1)" "spec oper (e = None) a a1" "rel s1 a1"
    using sim_step [of s a oper] by auto
  with Cons.IH [of s1 a1] Cons.prems obtain es s' a' where
    "exec_all ops s1 = Some (es, s')" "spec_all ops (map (\<lambda>e. e = None) es) a1 a'" "rel s' a'" by auto
  with step show ?case by (intro exI [of _ "e # es"]) auto
qed auto

end

end
