(* ===== verification/PortRange.thy ===== *)
theory PortRange imports Prelude begin

text \<open>
  The node port allocator of the ingestion operator
  (\<open>operators/ingestion-operator/pkg/portrange/portrange.go\<close>).  Ports are 16-bit words, as
  \<open>type Port uint16\<close> is; the map \<open>busyPortRange\<close> is a partial function.  The loop of
  \<open>GetPort\<close> counts a \<open>uint16\<close> up to \<open>portMax\<close> and so need not end for every
  \<open>portMax\<close>: it is a \<open>partial_function (option)\<close>, \<open>None\<close> meaning that it
  does not return, and is proved total for the ranges \<open>NewPortRange\<close> admits.  The mutex makes
  each operation atomic, so operations are functions of the state.

  The locale \<open>port_pool\<close> is the contract the ingest system relies on; it is interpreted at
  the end on the definitions of this theory.
\<close>

section \<open>The contract of a port allocator\<close>

locale port_pool =
  fixes inv :: "'s \<Rightarrow> bool"
    and used :: "'s \<Rightarrow> 'p set"
    and cap :: "'s \<Rightarrow> 'p set"
    and take_port :: "'s \<Rightarrow> ('p option \<times> 's) option"
    and give_port :: "'s \<Rightarrow> 'p \<Rightarrow> goerr option \<times> 's"
  assumes take_returns: "inv s \<Longrightarrow> \<exists>r. take_port s = Some r"
    and take_Some: "inv s \<Longrightarrow> take_port s = Some (Some p, s') \<Longrightarrow>
      inv s' \<and> p \<in> cap s \<and> p \<notin> used s \<and> used s' = insert p (used s) \<and> cap s' = cap s"
    and take_None: "inv s \<Longrightarrow> take_port s = Some (None, s') \<Longrightarrow> s' = s \<and> cap s \<subseteq> used s"
    and give_used: "inv s \<Longrightarrow> p \<in> used s \<Longrightarrow>
      \<exists>s'. give_port s p = (None, s') \<and> inv s' \<and> used s' = used s - {p} \<and> cap s' = cap s"
    and give_unused: "inv s \<Longrightarrow> p \<notin> used s \<Longrightarrow> \<exists>e. give_port s p = (Some e, s)"
begin

text \<open>\<open>hold s ps\<close>: the ports \<open>ps\<close> a client keeps account of are exactly those in use.\<close>

definition hold :: "'s \<Rightarrow> 'p list \<Rightarrow> bool" where
  "hold s ps \<longleftrightarrow> inv s \<and> distinct ps \<and> set ps = used s"

lemma hold_take:
  assumes "hold s ps" and "take_port s = Some (Some p, s')"
  shows "p \<notin> set ps \<and> hold s' (p # ps)"
  using assms take_Some [of s p s'] by (auto simp: hold_def)

lemma hold_take_full:
  assumes "hold s ps" and "take_port s = Some (None, s')"
  shows "s' = s \<and> cap s \<subseteq> set ps"
  using assms take_None [of s s'] by (auto simp: hold_def)

lemma hold_give:
  assumes "hold s (ps @ p # qs)"
  shows "\<exists>s'. give_port s p = (None, s') \<and> hold s' (ps @ qs)"
proof -
  from assms have "inv s" and used: "p \<in> used s" "used s - {p} = set (ps @ qs)"
    by (auto simp: hold_def)
  with give_used obtain s' where "give_port s p = (None, s') \<and> inv s' \<and> used s' = used s - {p}"
    by blast
  with assms used show ?thesis by (auto simp: hold_def)
qed

lemma give_twice:
  assumes "inv s" and "p \<in> used s" and "give_port s p = (None, s')"
  shows "\<exists>e. give_port s' p = (Some e, s')"
  using assms give_used [of s p] give_unused [of s' p] by auto

lemma take_give_used:
  assumes "inv s" and "take_port s = Some (Some p, s')" and "give_port s' p = (e, s'')"
  shows "e = None \<and> inv s'' \<and> used s'' = used s"
  using take_Some [OF assms(1,2)] give_used [of s' p] assms(3) by auto

end

section \<open>The model\<close>

type_synonym port = "16 word"

record port_state =
  ps_port :: port
  ps_Identifier :: string

record port_range =
  portMin :: port
  portMax :: port
  busyPortRange :: "port \<Rightarrow> port_state option"

definition Port :: "port_state \<Rightarrow> port" where
  "Port s = ps_port s"

definition MinPortBorder :: port where "MinPortBorder = 20000"
definition MaxPortBorder :: port where "MaxPortBorder = 24999"

text \<open>The loop of \<open>GetPort\<close>: \<open>for i := r.portMin; i <= r.portMax; i++\<close>.\<close>

partial_function (option) get_port_loop ::
  "(port \<Rightarrow> port_state option) \<Rightarrow> port \<Rightarrow> port \<Rightarrow> port option option" where
  "get_port_loop busy hi i =
     (if i \<le> hi then
        (if busy i = None then Some (Some i) else get_port_loop busy hi (i + 1))
      else Some None)"

definition GetPort :: "port_range \<Rightarrow> (port_state option \<times> port_range) option" where
  "GetPort r =
     (case get_port_loop (busyPortRange r) (portMax r) (portMin r) of
        None \<Rightarrow> None
      | Some None \<Rightarrow> Some (None, r)
      | Some (Some i) \<Rightarrow>
          (let st = \<lparr>ps_port = i, ps_Identifier = ''''\<rparr>
           in Some (Some st, r\<lparr>busyPortRange := (busyPortRange r)(i \<mapsto> st)\<rparr>)))"

definition validatePort :: "port \<Rightarrow> goerr option" where
  "validatePort port =
     (if port = 0 then Some (GoErr ''Port range is 0'')
      else if port > MaxPortBorder then
        Some (GoErr (''Port '' @ nat_str (unat port) @ '' must be less than '' @ nat_str (unat MaxPortBorder)))
      else if port < MinPortBorder then
        Some (GoErr (''Port '' @ nat_str (unat port) @ '' must be larger than '' @ nat_str (unat MinPortBorder)))
      else None)"

definition PortBack :: "port_range \<Rightarrow> port \<Rightarrow> goerr option \<times> port_range" where
  "PortBack r port =
     (case validatePort port of
        Some err \<Rightarrow> (Some err, r)
      | None \<Rightarrow>
          (case busyPortRange r port of
             Some portState \<Rightarrow>
               (if ps_port portState \<noteq> port then
                  (Some (GoErr (''different ports found when port back it. portState.port: ''
                     @ nat_str (unat (ps_port portState)) @ ''. port: '' @ nat_str (unat port))), r)
                else (None, r\<lparr>busyPortRange := (busyPortRange r)(port := None)\<rparr>))
           | None \<Rightarrow>
               (Some (GoErr (''unable delete port. Port: '' @ nat_str (unat port)
                  @ ''. portState: 0x0'')), r)))"

definition NewPortRange :: "port \<Rightarrow> port \<Rightarrow> goerr + port_range" where
  "NewPortRange lo hi =
     (if lo = 0 \<and> hi = 0 then Inl (GoErr ''Port range is 0'')
      else if hi - lo = 0 then Inl (GoErr ''Port range is 0'')
      else if hi > MaxPortBorder \<or> hi < MinPortBorder then
        Inl (GoErr (''Max port must be less then '' @ nat_str (unat MaxPortBorder) @ '' and large then ''
          @ nat_str (unat MinPortBorder) @ ''. portMax is '' @ nat_str (unat hi)))
      else if hi > MaxPortBorder \<or> hi < MinPortBorder then
        Inl (GoErr (''Max port must be less then '' @ nat_str (unat MaxPortBorder) @ '' and large then ''
          @ nat_str (unat MinPortBorder) @ ''. portMax is '' @ nat_str (unat hi)))
      else if lo > MaxPortBorder \<or> lo < MinPortBorder then
        Inl (GoErr (''Max port must be less then '' @ nat_str (unat MaxPortBorder) @ '' and large then ''
          @ nat_str (unat MinPortBorder) @ ''. portMin is '' @ nat_str (unat lo)))
      else if lo > hi then Inl (GoErr ''portMin must be less then portMax'')
      else Inr \<lparr>portMin = lo, portMax = hi, busyPortRange = Map.empty\<rparr>)"

section \<open>Well-formed allocators\<close>

definition port_range_wf :: "port_range \<Rightarrow> bool" where
  "port_range_wf r \<longleftrightarrow>
     MinPortBorder \<le> portMin r \<and> portMin r < portMax r \<and> portMax r \<le> MaxPortBorder
     \<and> dom (busyPortRange r) \<subseteq> {portMin r..portMax r}
     \<and> (\<forall>p st. busyPortRange r p = Some st \<longrightarrow> ps_port st = p)"

lemma port_border_simps [simp]:
  "MinPortBorder = 20000" "MaxPortBorder = 24999"
  by (simp_all add: MinPortBorder_def MaxPortBorder_def)

lemma get_port_loop_spec:
  assumes "hi < 65535"
  shows "\<exists>r. get_port_loop busy hi i = Some r \<and>
    (case r of
       None \<Rightarrow> \<forall>q. i \<le> q \<and> q \<le> hi \<longrightarrow> busy q \<noteq> None
     | Some p \<Rightarrow> i \<le> p \<and> p \<le> hi \<and> busy p = None \<and> (\<forall>q. i \<le> q \<and> q < p \<longrightarrow> busy q \<noteq> None))"
proof (induction "unat hi + 1 - unat i" arbitrary: i rule: less_induct)
  case less
  show ?case
  proof (cases "i \<le> hi \<and> busy i \<noteq> None")
    case False
    then show ?thesis by (subst get_port_loop.simps) auto
  next
    case True
    have "unat i < 65535"
      using True assms by (simp add: word_le_nat_alt word_less_nat_alt)
    then have step: "unat (i + 1) = unat i + 1"
      by (simp add: unat_word_ariths)
    then have next_iff: "\<And>q. i \<le> q \<longleftrightarrow> q = i \<or> i + 1 \<le> q"
      by (auto simp: word_le_nat_alt word_unat_eq_iff)
    have "unat hi + 1 - unat (i + 1) < unat hi + 1 - unat i"
      using True step by (simp add: word_le_nat_alt Suc_diff_le)
    from less [OF this] obtain r where "get_port_loop busy hi (i + 1) = Some r" and
      "case r of
         None \<Rightarrow> \<forall>q. i + 1 \<le> q \<and> q \<le> hi \<longrightarrow> busy q \<noteq> None
       | Some p \<Rightarrow> i + 1 \<le> p \<and> p \<le> hi \<and> busy p = None \<and> (\<forall>q. i + 1 \<le> q \<and> q < p \<longrightarrow> busy q \<noteq> None)"
      by blast
    with True next_iff show ?thesis
      by (subst get_port_loop.simps) (cases r; auto)
  qed
qed

lemma get_port_loop_in_wf:
  assumes "port_range_wf r"
  shows "\<exists>x. get_port_loop (busyPortRange r) (portMax r) (portMin r) = Some x \<and>
    (case x of
       None \<Rightarrow> {portMin r..portMax r} \<subseteq> dom (busyPortRange r)
     | Some p \<Rightarrow> p \<in> {portMin r..portMax r} \<and> busyPortRange r p = None
         \<and> (\<forall>q. portMin r \<le> q \<and> q < p \<longrightarrow> busyPortRange r q \<noteq> None))"
proof -
  from assms have "portMax r < 65535"
    by (auto simp: port_range_wf_def intro: le_less_trans)
  from get_port_loop_spec [OF this, of "busyPortRange r" "portMin r"]
  obtain x where "get_port_loop (busyPortRange r) (portMax r) (portMin r) = Some x" and
    "case x of
       None \<Rightarrow> \<forall>q. portMin r \<le> q \<and> q \<le> portMax r \<longrightarrow> busyPortRange r q \<noteq> None
     | Some p \<Rightarrow> portMin r \<le> p \<and> p \<le> portMax r \<and> busyPortRange r p = None
         \<and> (\<forall>q. portMin r \<le> q \<and> q < p \<longrightarrow> busyPortRange r q \<noteq> None)"
    by blast
  then show ?thesis by (cases x) auto
qed

lemma NewPortRange_ok_iff:
  "(\<exists>r. NewPortRange lo hi = Inr r) \<longleftrightarrow> 20000 \<le> lo \<and> lo < hi \<and> hi \<le> 24999"
  by (auto simp: NewPortRange_def not_less)

lemma NewPortRange_wf: "NewPortRange lo hi = Inr r \<Longrightarrow>
  port_range_wf r \<and> portMin r = lo \<and> portMax r = hi \<and> busyPortRange r = Map.empty"
  by (auto simp: NewPortRange_def port_range_wf_def not_less split: if_splits)

text \<open>What a call of \<open>GetPort\<close> does to a well-formed allocator.\<close>

lemma GetPort_cases:
  assumes "port_range_wf r"
  obtains (full) "GetPort r = Some (None, r)" "{portMin r..portMax r} \<subseteq> dom (busyPortRange r)"
  | (free) p st r' where "GetPort r = Some (Some st, r')" "ps_port st = p"
      "p \<in> {portMin r..portMax r}" "p \<notin> dom (busyPortRange r)"
      "\<forall>q. portMin r \<le> q \<and> q < p \<longrightarrow> q \<in> dom (busyPortRange r)"
      "r' = r\<lparr>busyPortRange := (busyPortRange r)(p \<mapsto> st)\<rparr>" "port_range_wf r'"
proof -
  from get_port_loop_in_wf [OF assms] obtain x where
    x: "get_port_loop (busyPortRange r) (portMax r) (portMin r) = Some x" and
    spec: "case x of
       None \<Rightarrow> {portMin r..portMax r} \<subseteq> dom (busyPortRange r)
     | Some p \<Rightarrow> p \<in> {portMin r..portMax r} \<and> busyPortRange r p = None
         \<and> (\<forall>q. portMin r \<le> q \<and> q < p \<longrightarrow> busyPortRange r q \<noteq> None)" by blast
  show thesis
  proof (cases x)
    case None
    with x spec show thesis by (intro full) (simp_all add: GetPort_def)
  next
    case (Some p)
    let ?st = "\<lparr>ps_port = p, ps_Identifier = ''''\<rparr>"
    show thesis
    proof (rule free [of ?st "r\<lparr>busyPortRange := (busyPortRange r)(p \<mapsto> ?st)\<rparr>" p])
      show "GetPort r = Some (Some ?st, r\<lparr>busyPortRange := (busyPortRange r)(p \<mapsto> ?st)\<rparr>)"
        using x Some by (simp add: GetPort_def Let_def)
      show "port_range_wf (r\<lparr>busyPortRange := (busyPortRange r)(p \<mapsto> ?st)\<rparr>)"
        using assms spec Some by (auto simp: port_range_wf_def)
    qed (use spec Some in auto)
  qed
qed

lemma validatePort_in_border:
  "validatePort p = None \<longleftrightarrow> 20000 \<le> p \<and> p \<le> 24999"
  by (auto simp: validatePort_def not_less)

lemma PortBack_busy:
  assumes "port_range_wf r" and "p \<in> dom (busyPortRange r)"
  shows "PortBack r p = (None, r\<lparr>busyPortRange := (busyPortRange r)(p := None)\<rparr>)"
proof -
  from assms have "validatePort p = None"
    by (auto simp: port_range_wf_def validatePort_in_border subset_iff intro: order_trans)
  with assms show ?thesis by (auto simp: PortBack_def port_range_wf_def)
qed

lemma PortBack_free:
  assumes "p \<notin> dom (busyPortRange r)"
  shows "\<exists>e. PortBack r p = (Some e, r)"
  using assms by (auto simp: PortBack_def dom_def split: option.splits)

lemma GetPort_Some:
  assumes wf: "port_range_wf r" and get: "GetPort r = Some (Some st, r')"
  shows "ps_port st \<in> {portMin r..portMax r} - dom (busyPortRange r)" and "port_range_wf r'"
    and "r' = r\<lparr>busyPortRange := (busyPortRange r)(ps_port st \<mapsto> st)\<rparr>"
    and "PortBack r' (ps_port st) = (None, r)"
    and "\<forall>q. portMin r \<le> q \<and> q < ps_port st \<longrightarrow> q \<in> dom (busyPortRange r)"
proof -
  have facts: "ps_port st \<in> {portMin r..portMax r} - dom (busyPortRange r) \<and> port_range_wf r'
      \<and> r' = r\<lparr>busyPortRange := (busyPortRange r)(ps_port st \<mapsto> st)\<rparr>
      \<and> (\<forall>q. portMin r \<le> q \<and> q < ps_port st \<longrightarrow> q \<in> dom (busyPortRange r))"
    using wf by (cases rule: GetPort_cases) (use get in auto)
  then show "ps_port st \<in> {portMin r..portMax r} - dom (busyPortRange r)" "port_range_wf r'"
    "r' = r\<lparr>busyPortRange := (busyPortRange r)(ps_port st \<mapsto> st)\<rparr>"
    "\<forall>q. portMin r \<le> q \<and> q < ps_port st \<longrightarrow> q \<in> dom (busyPortRange r)" by blast+
  from facts have "busyPortRange r (ps_port st) = None" by (simp add: domIff)
  with facts PortBack_busy [of r' "ps_port st"] show "PortBack r' (ps_port st) = (None, r)"
    by (auto simp: fun_upd_idem)
qed

lemma PortBack_wf:
  assumes "port_range_wf r"
  shows "port_range_wf (snd (PortBack r p))"
proof (cases "p \<in> dom (busyPortRange r)")
  case True
  with assms show ?thesis
    by (auto simp: PortBack_busy) (auto simp: port_range_wf_def)
next
  case False
  with assms PortBack_free [of p r] show ?thesis by auto
qed

lemma GetPort_wf:
  assumes "port_range_wf r" and "GetPort r = Some (x, r')"
  shows "port_range_wf r'"
  using assms(1) by (rule GetPort_cases) (use assms in auto)

section \<open>The allocator keeps the contract\<close>

definition alloc_port :: "port_range \<Rightarrow> (port option \<times> port_range) option" where
  "alloc_port r = map_option (\<lambda>(st, r'). (map_option Port st, r')) (GetPort r)"

interpretation pp: port_pool port_range_wf "\<lambda>r. dom (busyPortRange r)"
  "\<lambda>r. {portMin r..portMax r}" alloc_port PortBack
proof unfold_locales
  fix s assume "port_range_wf s"
  then show "\<exists>r. alloc_port s = Some r"
    by (rule GetPort_cases) (simp_all add: alloc_port_def)
next
  fix s p s' assume wf: "port_range_wf s" and some: "alloc_port s = Some (Some p, s')"
  from wf show "port_range_wf s' \<and> p \<in> {portMin s..portMax s} \<and> p \<notin> dom (busyPortRange s)
    \<and> dom (busyPortRange s') = insert p (dom (busyPortRange s))
    \<and> {portMin s'..portMax s'} = {portMin s..portMax s}"
    by (rule GetPort_cases) (use some in \<open>auto simp: alloc_port_def Port_def\<close>)
next
  fix s s' assume wf: "port_range_wf s" and none: "alloc_port s = Some (None, s')"
  from wf show "s' = s \<and> {portMin s..portMax s} \<subseteq> dom (busyPortRange s)"
    by (rule GetPort_cases) (use none in \<open>auto simp: alloc_port_def\<close>)
next
  fix s p assume wf: "port_range_wf s" and used: "p \<in> dom (busyPortRange s)"
  show "\<exists>s'. PortBack s p = (None, s') \<and> port_range_wf s'
    \<and> dom (busyPortRange s') = dom (busyPortRange s) - {p}
    \<and> {portMin s'..portMax s'} = {portMin s..portMax s}"
    using PortBack_busy [OF wf used] PortBack_wf [OF wf, of p] by auto
next
  fix s :: port_range and p assume "p \<notin> dom (busyPortRange s)"
  then show "\<exists>e. PortBack s p = (Some e, s)" by (rule PortBack_free)
qed

section \<open>Allocators the operator can reach\<close>

inductive port_range_reach :: "port_range \<Rightarrow> bool" where
  reach_new: "NewPortRange lo hi = Inr r \<Longrightarrow> port_range_reach r"
| reach_get: "port_range_reach r \<Longrightarrow> GetPort r = Some (x, r') \<Longrightarrow> port_range_reach r'"
| reach_back: "port_range_reach r \<Longrightarrow> PortBack r p = (e, r') \<Longrightarrow> port_range_reach r'"

lemma port_range_reach_wf: "port_range_reach r \<Longrightarrow> port_range_wf r"
proof (induction rule: port_range_reach.induct)
  case (reach_new lo hi r)
  then show ?case using NewPortRange_wf by blast
next
  case (reach_get r x r')
  then show ?case using GetPort_wf by blast
next
  case (reach_back r p e r')
  then show ?case using PortBack_wf [of r p] by simp
qed

text \<open>Successive calls of \<open>GetPort\<close>, as the tests make them.\<close>

fun get_ports :: "nat \<Rightarrow> port_range \<Rightarrow> (port option list \<times> port_range) option" where
  "get_ports 0 r = Some ([], r)"
| "get_ports (Suc n) r =
     (case get_ports n r of
        None \<Rightarrow> None
      | Some (ps, r1) \<Rightarrow> map_option (\<lambda>(p, r2). (ps @ [p], r2)) (alloc_port r1))"

lemma word_between_iff:
  fixes lo q :: port
  assumes "unat lo + k < 2 ^ 16"
  shows "lo \<le> q \<and> q < lo + of_nat k \<longleftrightarrow> unat lo \<le> unat q \<and> unat q < unat lo + k"
proof -
  from assms have "unat (lo + of_nat k :: port) = unat lo + k"
    by (simp add: unat_word_ariths unat_of_nat)
  then show ?thesis by (simp add: word_le_nat_alt word_less_nat_alt)
qed

lemma get_ports_fresh:
  assumes "NewPortRange lo hi = Inr r" and "n \<le> unat hi - unat lo + 1"
  shows "\<exists>r'. get_ports n r = Some (map (\<lambda>k. Some (lo + of_nat k)) [0..<n], r')
     \<and> port_range_wf r' \<and> portMin r' = lo \<and> portMax r' = hi
     \<and> (\<forall>q. q \<in> dom (busyPortRange r') \<longleftrightarrow> unat lo \<le> unat q \<and> unat q < unat lo + n)"
  using assms(2)
proof (induction n)
  case 0
  from NewPortRange_wf [OF assms(1)] show ?case by auto
next
  case (Suc n)
  then obtain r1 where r1: "get_ports n r = Some (map (\<lambda>k. Some (lo + of_nat k)) [0..<n], r1)"
      "port_range_wf r1" "portMin r1 = lo" "portMax r1 = hi"
      "\<And>q. q \<in> dom (busyPortRange r1) \<longleftrightarrow> unat lo \<le> unat q \<and> unat q < unat lo + n"
    by auto
  have bounds: "20000 \<le> lo" "lo < hi" "hi \<le> 24999"
    using r1(2-4) by (auto simp: port_range_wf_def)
  then have lohi: "unat lo + n \<le> unat hi" "unat hi \<le> 24999"
    using Suc.prems by (auto simp: word_le_nat_alt word_less_nat_alt)
  then have next_p: "unat (lo + of_nat n :: port) = unat lo + n"
    by (simp add: unat_word_ariths unat_of_nat)
  from r1(2) show ?case
  proof (rule GetPort_cases)
    assume "{portMin r1..portMax r1} \<subseteq> dom (busyPortRange r1)"
    moreover have "lo + of_nat n \<in> {portMin r1..portMax r1}"
      using r1(3,4) next_p lohi by (simp add: word_le_nat_alt)
    ultimately have "lo + of_nat n \<in> dom (busyPortRange r1)" by (rule subsetD)
    then show ?thesis using r1(5) next_p by simp
  next
    fix p st r2
    assume st: "GetPort r1 = Some (Some st, r2)" "ps_port st = p"
      and p: "p \<in> {portMin r1..portMax r1}" "p \<notin> dom (busyPortRange r1)"
        "\<forall>q. portMin r1 \<le> q \<and> q < p \<longrightarrow> q \<in> dom (busyPortRange r1)"
      and r2: "r2 = r1\<lparr>busyPortRange := (busyPortRange r1)(p \<mapsto> st)\<rparr>" "port_range_wf r2"
    have "unat lo + n \<le> unat p"
      using p(1,2) r1(3,5) by (auto simp: word_le_nat_alt not_less)
    moreover have "\<not> unat lo + n < unat p"
    proof
      assume "unat lo + n < unat p"
      then have "lo + of_nat n \<in> dom (busyPortRange r1)"
        using p(3) r1(3) next_p by (simp add: word_le_nat_alt word_less_nat_alt)
      then show False using r1(5) next_p by simp
    qed
    ultimately have p_eq: "unat p = unat lo + n" by simp
    then have "p = lo + of_nat n" by (simp add: word_unat_eq_iff next_p)
    moreover have "q \<in> dom (busyPortRange r2) \<longleftrightarrow> unat lo \<le> unat q \<and> unat q < unat lo + Suc n" for q
      using r2(1) r1(5) [of q] p_eq by (auto simp: word_unat_eq_iff split: if_splits)
    ultimately show ?thesis
      using st r1 r2 by (simp add: alloc_port_def Port_def)
  qed
qed

lemma get_port_loop_max_word:
  assumes "get_port_loop busy hi i = Some x" and "hi = 65535"
  shows "\<exists>p. x = Some p \<and> busy p = None"
proof (rule get_port_loop.raw_induct
    [where P = "\<lambda>busy hi i x. hi = 65535 \<longrightarrow> (\<exists>p. x = Some p \<and> busy p = None)", OF _ assms(1), THEN mp, OF _ assms(2)])
  fix f :: "(port \<Rightarrow> port_state option) \<Rightarrow> port \<Rightarrow> port \<Rightarrow> port option option"
    and busy hi i x
  assume IH: "\<And>busy hi i x. f busy hi i = Some x \<Longrightarrow> hi = 65535 \<longrightarrow> (\<exists>p. x = Some p \<and> busy p = None)"
    and eq: "(if i \<le> hi then if busy i = None then Some (Some i) else f busy hi (i + 1) else Some None) = Some x"
  have "i \<le> 65535" for i :: port
  proof -
    have "unat i < 2 ^ LENGTH(16)" by (rule unsigned_less)
    then show ?thesis by (simp add: word_le_nat_alt)
  qed
  with IH eq show "hi = 65535 \<longrightarrow> (\<exists>p. x = Some p \<and> busy p = None)"
    by (auto split: if_splits)
qed

section \<open>Properties\<close>

text \<open>C7: whatever sequence of \<open>NewPortRange\<close>, \<open>GetPort\<close> and \<open>PortBack\<close> led to
  the allocator, \<open>GetPort\<close> returns; it answers nil exactly when every port of the range is in
  use and changes nothing then, and otherwise it hands out the least free port of the range,
  which becomes busy, all other ports keeping their state.\<close>

theorem GetPort_least_free:
  assumes "port_range_reach r"
  shows "if {portMin r..portMax r} \<subseteq> dom (busyPortRange r) then GetPort r = Some (None, r)
    else \<exists>st. GetPort r = Some (Some st, r\<lparr>busyPortRange := (busyPortRange r)(Port st \<mapsto> st)\<rparr>)
      \<and> Port st \<in> {portMin r..portMax r} - dom (busyPortRange r)
      \<and> (\<forall>q \<in> {portMin r..portMax r} - dom (busyPortRange r). Port st \<le> q)"
  using port_range_reach_wf [OF assms]
proof (rule GetPort_cases)
  fix p st r'
  assume *: "GetPort r = Some (Some st, r')" "ps_port st = p" "p \<in> {portMin r..portMax r}"
    "p \<notin> dom (busyPortRange r)" "\<forall>q. portMin r \<le> q \<and> q < p \<longrightarrow> q \<in> dom (busyPortRange r)"
    "r' = r\<lparr>busyPortRange := (busyPortRange r)(p \<mapsto> st)\<rparr>"
  have "\<forall>q \<in> {portMin r..portMax r} - dom (busyPortRange r). p \<le> q"
    using *(5) by (auto simp: not_less [symmetric])
  moreover have "\<not> {portMin r..portMax r} \<subseteq> dom (busyPortRange r)"
    using *(3,4) by blast
  ultimately show ?thesis using * by (simp add: Port_def)
qed simp

definition small_range :: port_range where
  "small_range = \<lparr>portMin = 20000, portMax = 20001, busyPortRange = Map.empty\<rparr>"

lemma small_range_new: "NewPortRange 20000 20001 = Inr small_range"
  by (simp add: NewPortRange_def small_range_def)

theorem GetPort_least_free_witness:
  "port_range_reach small_range \<and>
   (\<exists>st. GetPort small_range = Some (Some st, small_range\<lparr>busyPortRange := [Port st \<mapsto> st]\<rparr>))"
proof -
  have reach: "port_range_reach small_range"
    using small_range_new by (rule port_range_reach.reach_new)
  have "\<not> {portMin small_range..portMax small_range} \<subseteq> dom (busyPortRange small_range)"
    by (simp add: small_range_def)
  with reach GetPort_least_free [OF reach] show ?thesis
    by (auto simp: small_range_def)
qed

text \<open>A range that \<open>NewPortRange\<close> accepts hands out \<open>portMin\<close>, \<open>portMin + 1\<close>, ...
  in order on successive calls, up to \<open>portMax\<close> itself, and the next call answers nil:
  its capacity is exactly \<open>portMax - portMin + 1\<close>.\<close>

theorem fresh_range_capacity:
  assumes "NewPortRange lo hi = Inr r"
  shows "\<exists>r'. get_ports (unat hi - unat lo + 1) r
            = Some (map (\<lambda>k. Some (lo + of_nat k)) [0..<unat hi - unat lo + 1], r')
          \<and> dom (busyPortRange r') = {lo..hi} \<and> GetPort r' = Some (None, r')"
proof -
  let ?n = "unat hi - unat lo + 1"
  from get_ports_fresh [OF assms, of ?n] obtain r' where
    r': "get_ports ?n r = Some (map (\<lambda>k. Some (lo + of_nat k)) [0..<?n], r')"
      "port_range_wf r'" "portMin r' = lo" "portMax r' = hi"
      "\<And>q. q \<in> dom (busyPortRange r') \<longleftrightarrow> unat lo \<le> unat q \<and> unat q < unat lo + ?n"
    by auto
  then have "unat lo \<le> unat hi"
    by (auto simp: port_range_wf_def word_less_nat_alt)
  then have "\<And>q. q \<in> dom (busyPortRange r') \<longleftrightarrow> q \<in> {lo..hi}"
    unfolding r'(5) by (auto simp: word_le_nat_alt)
  then have "dom (busyPortRange r') = {lo..hi}" by blast
  moreover from r'(2) have "GetPort r' = Some (None, r')"
    by (rule GetPort_cases) (use calculation r'(3,4) in auto)
  ultimately show ?thesis using r'(1) by blast
qed

theorem fresh_range_capacity_witness:
  "\<exists>r'. get_ports 2 small_range = Some ([Some 20000, Some 20001], r')
     \<and> dom (busyPortRange r') = {20000..20001} \<and> GetPort r' = Some (None, r')"
proof -
  have two: "unat (20001::port) - unat (20000::port) + 1 = 2" by simp
  have "map (\<lambda>k. Some ((20000::port) + of_nat k)) [0..<2] = [Some 20000, Some 20001]"
    by (simp add: upt_rec)
  with fresh_range_capacity [OF small_range_new, unfolded two] show ?thesis by metis
qed

text \<open>Returning the port that \<open>GetPort\<close> just handed out succeeds and restores the
  allocator exactly; returning it a second time is refused and changes nothing.\<close>

theorem PortBack_undoes_GetPort:
  assumes "port_range_reach r" and "GetPort r = Some (Some st, r')"
  shows "PortBack r' (Port st) = (None, r) \<and> (\<exists>e. PortBack r (Port st) = (Some e, r))"
  using port_range_reach_wf [OF assms(1)]
proof (rule GetPort_cases)
  fix p st' r''
  assume *: "GetPort r = Some (Some st', r'')" "ps_port st' = p" "p \<notin> dom (busyPortRange r)"
    "r'' = r\<lparr>busyPortRange := (busyPortRange r)(p \<mapsto> st')\<rparr>" "port_range_wf r''"
  from *(1) assms(2) have [simp]: "st' = st" "r'' = r'" by simp_all
  have "(busyPortRange r)(p := None) = busyPortRange r"
    using *(3) by (auto simp: fun_eq_iff)
  moreover have "p \<in> dom (busyPortRange r')" using *(4) by simp
  ultimately have "PortBack r' p = (None, r)"
    using PortBack_busy [of r' p] * by simp
  with *(2) PortBack_free [OF *(3)] show ?thesis by (simp add: Port_def)
qed (use assms(2) in simp)

theorem PortBack_undoes_GetPort_witness:
  "\<exists>st r'. GetPort small_range = Some (Some st, r') \<and> PortBack r' (Port st) = (None, small_range)"
proof -
  have reach: "port_range_reach small_range"
    using small_range_new by (rule port_range_reach.reach_new)
  have "GetPort small_range = Some (Some \<lparr>ps_port = 20000, ps_Identifier = ''''\<rparr>,
      small_range\<lparr>busyPortRange := [20000 \<mapsto> \<lparr>ps_port = 20000, ps_Identifier = ''''\<rparr>]\<rparr>)"
    by (simp add: GetPort_def get_port_loop.simps small_range_def Let_def)
  with PortBack_undoes_GetPort [OF reach this] show ?thesis by blast
qed

text \<open>The border check of \<open>NewPortRange\<close> is what makes \<open>GetPort\<close> safe.  With
  \<open>portMax = 65535\<close> the loop guard \<open>i <= portMax\<close> on a \<open>uint16\<close> is always true: the
  loop never answers nil, and with every port busy it does not return at all; \<open>NewPortRange\<close>
  rejects that bound.\<close>

theorem port_loop_diverges_at_max_word:
  "get_port_loop (\<lambda>p. Some (st p)) 65535 i = None \<and> get_port_loop busy 65535 i \<noteq> Some None
   \<and> (\<exists>e. NewPortRange lo 65535 = Inl e)"
proof -
  have "get_port_loop (\<lambda>p. Some (st p)) 65535 i = None"
    using get_port_loop_max_word [of "\<lambda>p. Some (st p)" 65535 i]
    by (cases "get_port_loop (\<lambda>p. Some (st p)) 65535 i") auto
  moreover have "get_port_loop busy 65535 i \<noteq> Some None"
    using get_port_loop_max_word [of busy 65535 i None] by auto
  moreover have "\<exists>e. NewPortRange lo 65535 = Inl e"
    by (auto simp: NewPortRange_def)
  ultimately show ?thesis by simp
qed

end
