(* ===== verification/EnvConfig.thy ===== *)
theory EnvConfig imports Prelude PortRange begin

text \<open>
  Configuration read from the environment: \<open>pkg/envutils/envutils.go\<close>, the names and
  defaults of \<open>pkg/variables\<close>, and the \<open>New...Config\<close> constructors of the services
  (\<open>services/ingest/pkg/service\<close>, \<open>services/stream/pkg/service\<close>,
  \<open>services/stream/main.go\<close>, \<open>services/identity/main.go\<close>,
  \<open>operators/ingestion-operator/cmd/main.go\<close>).  The process environment is a map from
  names to values, \<open>os.Getenv\<close> giving the empty string for an unset name; log lines are left
  out.  A constructor that dereferences a nil pointer or panics has an \<open>outcome\<close>.
\<close>

named_theorems env_const \<open>the names and default values of pkg/variables\<close>

type_synonym environ = "string \<Rightarrow> string option"

section \<open>Names and defaults (pkg/variables)\<close>

definition INGEST_BROADCASTER_ID :: string where [env_const]: "INGEST_BROADCASTER_ID = ''INGEST_BROADCASTER_ID''"
definition INGEST_USERNAME :: string where [env_const]: "INGEST_USERNAME = ''INGEST_USERNAME''"
definition INGEST_NAT_PUBLIC_IP :: string where [env_const]: "INGEST_NAT_PUBLIC_IP = ''INGEST_NAT_PUBLIC_IP''"
definition INGEST_UDP_PORT :: string where [env_const]: "INGEST_UDP_PORT = ''INGEST_UDP_PORT''"
definition INGEST_TCP_PORT :: string where [env_const]: "INGEST_TCP_PORT = ''INGEST_TCP_PORT''"
definition INGEST_PORT_MIN :: string where [env_const]: "INGEST_PORT_MIN = ''INGEST_PORT_MIN''"
definition INGEST_PORT_MAX :: string where [env_const]: "INGEST_PORT_MAX = ''INGEST_PORT_MAX''"
definition INGEST_FAIL_FAST :: string where [env_const]: "INGEST_FAIL_FAST = ''INGEST_FAIL_FAST''"
definition INGEST_HTTP_HOST :: string where [env_const]: "INGEST_HTTP_HOST = ''INGEST_HTTP_HOST''"
definition INGEST_HTTP_PORT :: string where [env_const]: "INGEST_HTTP_PORT = ''INGEST_HTTP_PORT''"
definition NATS_HOST :: string where [env_const]: "NATS_HOST = ''NATS_HOST''"
definition NATS_PORT :: string where [env_const]: "NATS_PORT = ''NATS_PORT''"
definition TURN_ENABLE :: string where [env_const]: "TURN_ENABLE = ''TURN_ENABLE''"
definition TURN_URL :: string where [env_const]: "TURN_URL = ''TURN_URL''"
definition TURN_USERNAME :: string where [env_const]: "TURN_USERNAME = ''TURN_USER''"
definition TURN_PASSWORD :: string where [env_const]: "TURN_PASSWORD = ''TURN_PASSWORD''"
definition INGEST_USERNAME_DEFAULT :: string where [env_const]: "INGEST_USERNAME_DEFAULT = ''admin''"
definition INGEST_NAT_PUBLIC_IP_DEFAULT :: string where [env_const]: "INGEST_NAT_PUBLIC_IP_DEFAULT = ''''"
definition INGEST_UDP_PORT_DEFAULT :: string where [env_const]: "INGEST_UDP_PORT_DEFAULT = ''3478''"
definition INGEST_TCP_PORT_DEFAULT :: string where [env_const]: "INGEST_TCP_PORT_DEFAULT = ''3478''"
definition INGEST_PORT_MIN_DEFAULT :: string where [env_const]: "INGEST_PORT_MIN_DEFAULT = ''20000''"
definition INGEST_PORT_MAX_DEFAULT :: string where [env_const]: "INGEST_PORT_MAX_DEFAULT = ''20099''"
definition INGEST_FAIL_FAST_DEFAULT :: string where [env_const]: "INGEST_FAIL_FAST_DEFAULT = ''false''"
definition INGEST_HTTP_HOST_DEFAULT :: string where [env_const]: "INGEST_HTTP_HOST_DEFAULT = ''0.0.0.0''"
definition INGEST_HTTP_PORT_DEFAULT :: string where [env_const]: "INGEST_HTTP_PORT_DEFAULT = ''8089''"
definition NATS_HOST_DEFAULT :: string where [env_const]: "NATS_HOST_DEFAULT = ''0.0.0.0''"
definition NATS_HOST_HEADLESS :: string where [env_const]: "NATS_HOST_HEADLESS = ''nats-release-headless.nats-system.svc.cluster.local''"
definition NATS_PORT_DEFAULT :: string where [env_const]: "NATS_PORT_DEFAULT = ''4222''"
definition TURN_ENABLE_DEFAULT :: string where [env_const]: "TURN_ENABLE_DEFAULT = ''false''"
definition TURN_URL_DEFAULT :: string where [env_const]: "TURN_URL_DEFAULT = ''turn:udp-gateway.default.svc.cluster.local:3478''"
definition TURN_USERNAME_DEFAULT :: string where [env_const]: "TURN_USERNAME_DEFAULT = ''user-1''"
definition TURN_PASSWORD_DEFAULT :: string where [env_const]: "TURN_PASSWORD_DEFAULT = ''pass-1''"
definition STREAM_HTTP_HOST :: string where [env_const]: "STREAM_HTTP_HOST = ''STREAM_HTTP_HOST''"
definition STREAM_HTTP_PORT :: string where [env_const]: "STREAM_HTTP_PORT = ''STREAM_HTTP_PORT''"
definition STREAM_INGEST_TEMPLATE :: string where [env_const]: "STREAM_INGEST_TEMPLATE = ''STREAM_INGEST_TEMPLATE''"
definition STREAM_STANDALONE :: string where [env_const]: "STREAM_STANDALONE = ''STREAN_STANDALONE''"
definition STREAM_STANDALONE_INGEST_URI :: string where [env_const]: "STREAM_STANDALONE_INGEST_URI = ''STREAM_STANDALONE_INGEST_URI''"
definition STREAM_STANDALONE_INGEST_DEPLOYMENT :: string where [env_const]: "STREAM_STANDALONE_INGEST_DEPLOYMENT = ''STREAM_STANDALONE_INGEST_DEPLOYMENT''"
definition STREAM_STANDALONE_INGEST_NAMESPACE :: string where [env_const]: "STREAM_STANDALONE_INGEST_NAMESPACE = ''STREAM_STANDALONE_INGEST_NAMESPACE''"
definition STREAM_STANDALONE_INGEST_EGRESS_WEBRTC :: string where [env_const]: "STREAM_STANDALONE_INGEST_EGRESS_WEBRTC = ''STREAM_STANDALONE_INGEST_EGRESS_WEBRTC''"
definition STREAM_STANDALONE_INGEST_EGRESS_HLS :: string where [env_const]: "STREAM_STANDALONE_INGEST_EGRESS_HLS = ''STREAM_STANDALONE_INGEST_EGRESS_HLS''"
definition STREAM_IDENTITY_GRPC_PUBLIC_KEY_PORT :: string where [env_const]: "STREAM_IDENTITY_GRPC_PUBLIC_KEY_PORT = ''STREAM_IDENTITY_GRPC_PUBLIC_KEY_PORT''"
definition STREAM_IDENTITY_GRPC_PUBLIC_KEY_HOST :: string where [env_const]: "STREAM_IDENTITY_GRPC_PUBLIC_KEY_HOST = ''STREAM_IDENTITY_GRPC_PUBLIC_KEY_HOST''"
definition STREAM_HTTP_HOST_DEFAULT :: string where [env_const]: "STREAM_HTTP_HOST_DEFAULT = ''0.0.0.0''"
definition STREAM_HTTP_PORT_DEFAULT :: string where [env_const]: "STREAM_HTTP_PORT_DEFAULT = ''8082''"
definition STREAM_INGEST_TEMPLATE_DEFAULT :: string where [env_const]: "STREAM_INGEST_TEMPLATE_DEFAULT = ''golang-ingest-template''"
definition STREAM_STANDALONE_DEFAULT :: string where [env_const]: "STREAM_STANDALONE_DEFAULT = ''true''"
definition STREAM_STANDALONE_INGEST_URI_DEFAULT :: string where [env_const]: "STREAM_STANDALONE_INGEST_URI_DEFAULT = ''http://localhost:8089''"
definition STREAM_STANDALONE_INGEST_DEPLOYMENT_DEFAULT :: string where [env_const]: "STREAM_STANDALONE_INGEST_DEPLOYMENT_DEFAULT = ''admin''"
definition STREAM_STANDALONE_INGEST_NAMESPACE_DEFAULT :: string where [env_const]: "STREAM_STANDALONE_INGEST_NAMESPACE_DEFAULT = ''default''"
definition STREAM_STANDALONE_INGEST_EGRESS_WEBRTC_DEFAULT :: string where [env_const]: "STREAM_STANDALONE_INGEST_EGRESS_WEBRTC_DEFAULT = ''/api/egress/whep''"
definition STREAM_STANDALONE_INGEST_EGRESS_HLS_DEFAULT :: string where [env_const]: "STREAM_STANDALONE_INGEST_EGRESS_HLS_DEFAULT = ''/api/egress/hls''"
definition STREAM_IDENTITY_GRPC_PUBLIC_KEY_HOST_DEFAULT :: string where [env_const]: "STREAM_IDENTITY_GRPC_PUBLIC_KEY_HOST_DEFAULT = ''0.0.0.0''"
definition STREAM_IDENTITY_GRPC_PUBLIC_KEY_PORT_DEFAULT :: string where [env_const]: "STREAM_IDENTITY_GRPC_PUBLIC_KEY_PORT_DEFAULT = ''9093''"
definition INGEST_BROADCASTER_ID_DEFAULT :: string where [env_const]: "INGEST_BROADCASTER_ID_DEFAULT = ''00000000-0000-0000-0000-000000000000''"

section \<open>pkg/envutils\<close>

definition Getenv :: "environ \<Rightarrow> string \<Rightarrow> string" where
  "Getenv env name = (case env name of None \<Rightarrow> '''' | Some v \<Rightarrow> v)"

definition Env :: "environ \<Rightarrow> string \<Rightarrow> string \<Rightarrow> string" where
  "Env env variableName defaultValue =
     (let variable = Getenv env variableName
      in if variable \<noteq> '''' then variable else defaultValue)"

text \<open>
  \<open>strconv.ParseUint(value, 10, 16)\<close>: digit by digit; the first character that is no digit is
  a syntax error, the first digit that takes the value past \<open>65535\<close> a range error.
\<close>

datatype num_error = ErrSyntax | ErrRange

fun parse_uint_loop :: "nat \<Rightarrow> string \<Rightarrow> num_error + nat" where
  "parse_uint_loop n [] = Inr n"
| "parse_uint_loop n (c # s) =
     (case char_digit c of
        None \<Rightarrow> Inl ErrSyntax
      | Some d \<Rightarrow> if 10 * n + d > 65535 then Inl ErrRange else parse_uint_loop (10 * n + d) s)"

definition num_error_text :: "string \<Rightarrow> string \<Rightarrow> num_error \<Rightarrow> string" where
  "num_error_text fn s e = ''strconv.'' @ fn @ '': parsing '' @ [CHR 0x22] @ s @ [CHR 0x22] @ '': ''
     @ (case e of ErrSyntax \<Rightarrow> ''invalid syntax'' | ErrRange \<Rightarrow> ''value out of range'')"

definition ParseUint16 :: "string \<Rightarrow> goerr + 16 word" where
  "ParseUint16 value =
     (case (if value = [] then Inl ErrSyntax else parse_uint_loop 0 value) of
        Inl e \<Rightarrow> Inl (GoErr (num_error_text ''ParseUint'' value e))
      | Inr n \<Rightarrow> Inr (of_nat n))"

definition ParseBool :: "string \<Rightarrow> goerr + bool" where
  "ParseBool value =
     (if value \<in> {''1'', ''t'', ''T'', ''true'', ''TRUE'', ''True''} then Inr True
      else if value \<in> {''0'', ''f'', ''F'', ''false'', ''FALSE'', ''False''} then Inr False
      else Inl (GoErr (num_error_text ''ParseBool'' value ErrSyntax)))"

text \<open>\<open>net.JoinHostPort\<close>.\<close>

definition join_host_port :: "string \<Rightarrow> string \<Rightarrow> string" where
  "join_host_port host port =
     (if CHR '':'' \<in> set host then ''['' @ host @ '']:'' @ port else host @ '':'' @ port)"

section \<open>Ingest service\<close>

record ingest_webrtc_config =
  NATPublicIP :: string
  UDPPort :: "16 word"
  TCPPort :: "16 word"

text \<open>
  A pointer to a parsed port is \<open>None\<close> when nil.  The fallback for the TCP port parses the
  variable's name, \<open>variables.INGEST_TCP_PORT\<close>, where the one for the UDP port parses the default.
\<close>

definition ptr_of :: "goerr + 'a \<Rightarrow> 'a option" where
  "ptr_of r = (case r of Inl _ \<Rightarrow> None | Inr x \<Rightarrow> Some x)"

definition NewIngestWebrtcConfig :: "environ \<Rightarrow> ingest_webrtc_config outcome" where
  "NewIngestWebrtcConfig env =
     (let udpPort = (case ParseUint16 (Env env INGEST_UDP_PORT INGEST_UDP_PORT_DEFAULT) of
            Inl _ \<Rightarrow> ptr_of (ParseUint16 INGEST_UDP_PORT_DEFAULT)
          | Inr p \<Rightarrow> Some p);
          tcpPort = (case ParseUint16 (Env env INGEST_TCP_PORT INGEST_TCP_PORT_DEFAULT) of
            Inl _ \<Rightarrow> ptr_of (ParseUint16 INGEST_TCP_PORT)
          | Inr p \<Rightarrow> Some p)
      in case (udpPort, tcpPort) of
           (Some udp, Some tcp) \<Rightarrow>
             Ret \<lparr>NATPublicIP = Env env INGEST_NAT_PUBLIC_IP INGEST_NAT_PUBLIC_IP_DEFAULT,
                  UDPPort = udp, TCPPort = tcp\<rparr>
         | _ \<Rightarrow> nil_deref)"

record http_config =
  hc_Host :: string
  hc_Port :: string

definition GetAddr :: "http_config \<Rightarrow> string" where
  "GetAddr s = join_host_port (hc_Host s) (hc_Port s)"

definition NewIngestHttpConfig :: "environ \<Rightarrow> http_config" where
  "NewIngestHttpConfig env =
     \<lparr>hc_Host = Env env INGEST_HTTP_HOST INGEST_HTTP_HOST_DEFAULT,
      hc_Port = Env env INGEST_HTTP_PORT INGEST_HTTP_PORT_DEFAULT\<rparr>"

record ingest_system_config =
  FailFast :: bool
  isc_BroadcasterID :: string
  isc_Username :: string

definition NewIngestSystemConfig :: "environ \<Rightarrow> ingest_system_config outcome" where
  "NewIngestSystemConfig env =
     (let failFast = (case ParseBool (Env env INGEST_FAIL_FAST INGEST_FAIL_FAST_DEFAULT) of
            Inl _ \<Rightarrow> ptr_of (ParseBool INGEST_FAIL_FAST_DEFAULT)
          | Inr b \<Rightarrow> Some b)
      in case failFast of
           None \<Rightarrow> nil_deref
         | Some b \<Rightarrow>
             Ret \<lparr>FailFast = b,
                  isc_BroadcasterID = Env env INGEST_BROADCASTER_ID INGEST_BROADCASTER_ID_DEFAULT,
                  isc_Username = Env env INGEST_USERNAME INGEST_USERNAME_DEFAULT\<rparr>)"

record nats_config =
  nc_Port :: string
  nc_Host :: string

definition GetUrl :: "nats_config \<Rightarrow> string" where
  "GetUrl c = ''nats://'' @ nc_Host c @ '':'' @ nc_Port c"

definition NewNatsConfig :: "environ \<Rightarrow> nats_config" where
  "NewNatsConfig env =
     \<lparr>nc_Port = Env env NATS_PORT NATS_PORT_DEFAULT, nc_Host = Env env NATS_HOST NATS_HOST_DEFAULT\<rparr>"

section \<open>Stream service\<close>

record ingest_standalone_config =
  isa_Deployment :: string
  isa_Namespace :: string
  IngestUri :: string
  isa_IngestTemplate :: string
  IngestWebrtcRoute :: string
  IngestHLSRoute :: string

record stream_system_config =
  Standalone :: bool
  IngestStandalone :: ingest_standalone_config

definition NewStreamSystemConfig :: "environ \<Rightarrow> stream_system_config outcome" where
  "NewStreamSystemConfig env =
     (let standalone = (case ParseBool (Env env STREAM_STANDALONE STREAM_STANDALONE_DEFAULT) of
            Inl _ \<Rightarrow> ptr_of (ParseBool STREAM_STANDALONE_DEFAULT)
          | Inr b \<Rightarrow> Some b)
      in case standalone of
           None \<Rightarrow> nil_deref
         | Some b \<Rightarrow>
             Ret \<lparr>Standalone = b, IngestStandalone =
               \<lparr>isa_Deployment = Env env STREAM_STANDALONE_INGEST_DEPLOYMENT STREAM_STANDALONE_INGEST_DEPLOYMENT_DEFAULT,
                isa_Namespace = Env env STREAM_STANDALONE_INGEST_NAMESPACE STREAM_STANDALONE_INGEST_NAMESPACE_DEFAULT,
                IngestUri = Env env STREAM_STANDALONE_INGEST_URI STREAM_STANDALONE_INGEST_URI_DEFAULT,
                isa_IngestTemplate = Env env STREAM_INGEST_TEMPLATE STREAM_INGEST_TEMPLATE_DEFAULT,
                IngestWebrtcRoute = Env env STREAM_STANDALONE_INGEST_EGRESS_WEBRTC STREAM_STANDALONE_INGEST_EGRESS_WEBRTC_DEFAULT,
                IngestHLSRoute = Env env STREAM_STANDALONE_INGEST_EGRESS_HLS STREAM_STANDALONE_INGEST_EGRESS_HLS_DEFAULT\<rparr>\<rparr>)"

definition NewStreamHttpConfig :: "environ \<Rightarrow> http_config" where
  "NewStreamHttpConfig env =
     \<lparr>hc_Host = Env env STREAM_HTTP_HOST STREAM_HTTP_HOST_DEFAULT,
      hc_Port = Env env STREAM_HTTP_PORT STREAM_HTTP_PORT_DEFAULT\<rparr>"

definition NewPublicKeyClientConfig :: "environ \<Rightarrow> http_config" where
  "NewPublicKeyClientConfig env =
     \<lparr>hc_Host = Env env STREAM_IDENTITY_GRPC_PUBLIC_KEY_HOST STREAM_IDENTITY_GRPC_PUBLIC_KEY_HOST_DEFAULT,
      hc_Port = Env env STREAM_IDENTITY_GRPC_PUBLIC_KEY_PORT STREAM_IDENTITY_GRPC_PUBLIC_KEY_PORT_DEFAULT\<rparr>"

record database_config =
  dc_Username :: string
  dc_Password :: string
  dc_Database :: string
  dc_Host :: string
  dc_Port :: string
  dc_Driver :: string

definition GetURI :: "database_config \<Rightarrow> string" where
  "GetURI dconf = dc_Driver dconf @ ''://'' @ dc_Username dconf @ '':'' @ dc_Password dconf
     @ ''@'' @ dc_Host dconf @ '':'' @ dc_Port dconf @ ''/'' @ dc_Database dconf"

text \<open>The two services have the same constructor with different default ports.\<close>

definition stream_NewDatabaseConfig :: "environ \<Rightarrow> database_config" where
  "stream_NewDatabaseConfig env =
     \<lparr>dc_Username = Env env ''DATABASE_USERNAME'' ''user'', dc_Password = Env env ''DATABASE_PASSWORD'' ''password'',
      dc_Database = Env env ''DATABASE_NAME'' ''postgres'', dc_Host = Env env ''DATABASE_HOST'' ''0.0.0.0'',
      dc_Port = Env env ''DATABASE_PORT'' ''5432'', dc_Driver = ''postgres''\<rparr>"

definition identity_NewDatabaseConfig :: "environ \<Rightarrow> database_config" where
  "identity_NewDatabaseConfig env =
     \<lparr>dc_Username = Env env ''DATABASE_USERNAME'' ''user'', dc_Password = Env env ''DATABASE_PASSWORD'' ''password'',
      dc_Database = Env env ''DATABASE_NAME'' ''postgres'', dc_Host = Env env ''DATABASE_HOST'' ''0.0.0.0'',
      dc_Port = Env env ''DATABASE_PORT'' ''5433'', dc_Driver = ''postgres''\<rparr>"

definition stream_NewIngestOperatorConfig :: "environ \<Rightarrow> http_config" where
  "stream_NewIngestOperatorConfig env =
     \<lparr>hc_Host = Env env ''INGEST_OPERATOR_HOST'' ''0.0.0.0'', hc_Port = Env env ''INGEST_OPERATOR_PORT'' ''9191''\<rparr>"

definition identity_NewHTTPConfig :: "environ \<Rightarrow> http_config" where
  "identity_NewHTTPConfig env =
     \<lparr>hc_Host = Env env ''HTTP_HOST'' ''0.0.0.0'', hc_Port = Env env ''HTTP_PORT'' ''8083''\<rparr>"

definition identity_NewGRPConfig :: "environ \<Rightarrow> http_config" where
  "identity_NewGRPConfig env =
     \<lparr>hc_Host = Env env ''GRPC_HOST'' ''0.0.0.0'', hc_Port = Env env ''GRPC_PORT'' ''9093''\<rparr>"

section \<open>Ingestion operator\<close>

record ingest_operator_config =
  MinPort :: "16 word"
  MaxPort :: "16 word"

definition NewIngestOperatorConfig :: "environ \<Rightarrow> ingest_operator_config outcome" where
  "NewIngestOperatorConfig env =
     (case ParseUint16 (Env env INGEST_PORT_MIN INGEST_PORT_MIN_DEFAULT) of
        Inl err \<Rightarrow> Panic (''Min port must be in uint16 type. Err: '' @ err_text err)
      | Inr minPort \<Rightarrow>
          (case ParseUint16 (Env env INGEST_PORT_MAX INGEST_PORT_MAX_DEFAULT) of
             Inl err \<Rightarrow> Panic (''Max port must be in uint16 type. Err: '' @ err_text err)
           | Inr maxPort \<Rightarrow> Ret \<lparr>MinPort = minPort, MaxPort = maxPort\<rparr>))"

definition operator_NewPortRange :: "ingest_operator_config \<Rightarrow> port_range outcome" where
  "operator_NewPortRange conf =
     (case NewPortRange (MinPort conf) (MaxPort conf) of
        Inl err \<Rightarrow> Panic (err_text err)
      | Inr prange \<Rightarrow> Ret prange)"

section \<open>Lemmas\<close>

lemma Env_unset [simp]: "env v = None \<Longrightarrow> Env env v d = d"
  by (simp add: Env_def Getenv_def)

lemma Env_set [simp]: "env v = Some x \<Longrightarrow> x \<noteq> '''' \<Longrightarrow> Env env v d = x"
  by (simp add: Env_def Getenv_def)

lemma parse_uint_loop_digits_value:
  "digits_value n s = Some m \<Longrightarrow> n \<le> 65535 \<Longrightarrow>
   parse_uint_loop n s = (if m \<le> 65535 then Inr m else Inl ErrRange)"
proof (induction n s rule: digits_value.induct)
  case (2 acc c s)
  from "2.prems"(1) obtain d where d: "char_digit c = Some d" "digits_value (10 * acc + d) s = Some m"
    by (auto split: option.splits)
  have mono: "digits_value a t = Some k \<Longrightarrow> a \<le> k" for a t k
    by (induction a t rule: digits_value.induct) (auto split: option.splits)
  show ?case
  proof (cases "10 * acc + d \<le> 65535")
    case True
    with d "2.IH" show ?thesis by simp
  next
    case False
    moreover from d(2) have "10 * acc + d \<le> m" by (rule mono)
    ultimately show ?thesis using d(1) by simp
  qed
qed simp

lemma ParseUint16_nat_str:
  "ParseUint16 (nat_str n) =
     (if n \<le> 65535 then Inr (of_nat n) else Inl (GoErr (num_error_text ''ParseUint'' (nat_str n) ErrRange)))"
  using parse_uint_loop_digits_value [of 0 "nat_str n" n] by (simp add: ParseUint16_def)

lemma parse_uint_loop_bound: "parse_uint_loop n s = Inr m \<Longrightarrow> n \<le> 65535 \<Longrightarrow> m \<le> 65535"
  by (induction n s rule: parse_uint_loop.induct) (auto split: option.splits if_splits)

lemma ParseUint16_consts [simp]:
  "ParseUint16 INGEST_UDP_PORT_DEFAULT = Inr 3478"
  "ParseUint16 INGEST_TCP_PORT_DEFAULT = Inr 3478"
  "ParseUint16 INGEST_PORT_MIN_DEFAULT = Inr 20000"
  "ParseUint16 INGEST_PORT_MAX_DEFAULT = Inr 20099"
  "\<exists>e. ParseUint16 INGEST_TCP_PORT = Inl e"
  by (simp_all add: ParseUint16_def env_const char_digit_def Let_def)

lemma ParseBool_consts [simp]:
  "ParseBool INGEST_FAIL_FAST_DEFAULT = Inr False"
  "ParseBool STREAM_STANDALONE_DEFAULT = Inr True"
  by (simp_all add: ParseBool_def env_const)

section \<open>Properties\<close>

text \<open>Printing a port in decimal and parsing it back with \<open>ParseUint16\<close> gives the port (this
  is how the operator hands a node port to the ingest container, through \<open>INGEST_UDP_PORT\<close> and
  \<open>INGEST_TCP_PORT\<close>), and the decimal of a number above 65535 is refused, never truncated.\<close>

theorem ParseUint16_roundtrip:
  "ParseUint16 (nat_str (unat w)) = Inr w
   \<and> (ParseUint16 (nat_str (65536 + n)) =
        Inl (GoErr (num_error_text ''ParseUint'' (nat_str (65536 + n)) ErrRange)))"
proof -
  have "unat w < 2 ^ LENGTH(16)" by (rule unsigned_less)
  then show ?thesis by (simp add: ParseUint16_nat_str)
qed

text \<open>A malformed \<open>INGEST_TCP_PORT\<close> crashes the ingest service, although the constructor
  means to fall back: its fallback parses the variable's name instead of the default, so the
  pointer stays nil.  A malformed \<open>INGEST_UDP_PORT\<close> falls back to 3478.\<close>

theorem NewIngestWebrtcConfig_panics_iff:
  "(\<exists>m. NewIngestWebrtcConfig env = Panic m)
     = (\<exists>e. ParseUint16 (Env env INGEST_TCP_PORT INGEST_TCP_PORT_DEFAULT) = Inl e)
   \<and> (\<forall>c. NewIngestWebrtcConfig env = Ret c \<longrightarrow>
        UDPPort c = (case ParseUint16 (Env env INGEST_UDP_PORT INGEST_UDP_PORT_DEFAULT) of
                       Inl _ \<Rightarrow> 3478 | Inr p \<Rightarrow> p))"
proof -
  obtain e where "ParseUint16 INGEST_TCP_PORT = Inl e"
    using ParseUint16_consts(5) by blast
  then show ?thesis
    by (auto simp: NewIngestWebrtcConfig_def ptr_of_def Let_def split: sum.splits)
qed

definition bad_tcp_env :: environ where
  "bad_tcp_env = [''INGEST_TCP_PORT'' \<mapsto> ''none'']"

theorem NewIngestWebrtcConfig_panics_witness:
  "\<exists>m. NewIngestWebrtcConfig bad_tcp_env = Panic m"
proof -
  have "Env bad_tcp_env INGEST_TCP_PORT INGEST_TCP_PORT_DEFAULT = ''none''"
    by (simp add: bad_tcp_env_def env_const)
  moreover have "\<exists>e. ParseUint16 ''none'' = Inl e"
    by (simp add: ParseUint16_def char_digit_def Let_def)
  ultimately show ?thesis
    using NewIngestWebrtcConfig_panics_iff [of bad_tcp_env] by simp
qed

text \<open>The operator starts with a port allocator exactly when both bounds parse as 16-bit
  numbers with \<open>20000 <= min < max <= 24999\<close>, and panics otherwise; without configuration the
  allocator serves the ports 20000 to 20099.\<close>

theorem operator_port_range_boot:
  "(\<exists>conf r. NewIngestOperatorConfig env = Ret conf \<and> operator_NewPortRange conf = Ret r)
     = (\<exists>lo hi. ParseUint16 (Env env INGEST_PORT_MIN INGEST_PORT_MIN_DEFAULT) = Inr lo
          \<and> ParseUint16 (Env env INGEST_PORT_MAX INGEST_PORT_MAX_DEFAULT) = Inr hi
          \<and> 20000 \<le> lo \<and> lo < hi \<and> hi \<le> 24999)
   \<and> (\<exists>conf r. NewIngestOperatorConfig Map.empty = Ret conf \<and> operator_NewPortRange conf = Ret r
        \<and> portMin r = 20000 \<and> portMax r = 20099)"
proof
  show "(\<exists>conf r. NewIngestOperatorConfig env = Ret conf \<and> operator_NewPortRange conf = Ret r)
     = (\<exists>lo hi. ParseUint16 (Env env INGEST_PORT_MIN INGEST_PORT_MIN_DEFAULT) = Inr lo
          \<and> ParseUint16 (Env env INGEST_PORT_MAX INGEST_PORT_MAX_DEFAULT) = Inr hi
          \<and> 20000 \<le> lo \<and> lo < hi \<and> hi \<le> 24999)"
    unfolding NewPortRange_ok_iff [symmetric]
    by (auto simp: NewIngestOperatorConfig_def operator_NewPortRange_def split: sum.splits)
  show "\<exists>conf r. NewIngestOperatorConfig Map.empty = Ret conf \<and> operator_NewPortRange conf = Ret r
        \<and> portMin r = 20000 \<and> portMax r = 20099"
    by (simp add: NewIngestOperatorConfig_def operator_NewPortRange_def NewPortRange_def)
qed

end
