(* ===== verification/HttpModel.thy ===== *)
theory HttpModel imports Prelude begin

text \<open>
  Go's \<open>http.ResponseWriter\<close> as explicit state, and the response helpers of
  \<open>pkg/httputils\<close>.  The status line and the headers are sent once: the first
  \<open>WriteHeader\<close> (or the first write to the body, which sends 200) fixes the status and the
  headers set so far; a later \<open>WriteHeader\<close> is ignored and headers set later are not sent.
\<close>

named_theorems http_model \<open>the response writer, unfolded by the handlers' proofs\<close>

section \<open>The response writer\<close>

datatype json =
  JNull | JBool bool | JNum int | JStr string | JArr "json list" | JObj "(string \<times> json) list"

datatype chunk = Json json | Raw string

record cookie =
  ck_Name :: string
  ck_Value :: string
  ck_Path :: string
  ck_MaxAge :: int
  ck_Expires :: "int option"
  ck_HttpOnly :: bool

record http_header =
  hdr :: "string \<Rightarrow> string option"
  set_cookies :: "cookie list"

record response_writer =
  w_header :: http_header
  w_sent :: "(nat \<times> http_header) option"
  w_body :: "chunk list"

definition empty_header :: http_header where
  "empty_header = \<lparr>hdr = Map.empty, set_cookies = []\<rparr>"

definition new_writer :: response_writer where
  "new_writer = \<lparr>w_header = empty_header, w_sent = None, w_body = []\<rparr>"

definition header_set :: "string \<Rightarrow> string \<Rightarrow> response_writer \<Rightarrow> response_writer" where
  "header_set k v w = w\<lparr>w_header := (w_header w)\<lparr>hdr := (hdr (w_header w))(k \<mapsto> v)\<rparr>\<rparr>"

definition set_cookie :: "cookie \<Rightarrow> response_writer \<Rightarrow> response_writer" where
  "set_cookie c w = w\<lparr>w_header := (w_header w)\<lparr>set_cookies := set_cookies (w_header w) @ [c]\<rparr>\<rparr>"

definition write_header :: "nat \<Rightarrow> response_writer \<Rightarrow> response_writer" where
  "write_header code w = (case w_sent w of None \<Rightarrow> w\<lparr>w_sent := Some (code, w_header w)\<rparr> | Some _ \<Rightarrow> w)"

definition write_chunk :: "chunk \<Rightarrow> response_writer \<Rightarrow> response_writer" where
  "write_chunk c w = (let w1 = write_header 200 w in w1\<lparr>w_body := w_body w1 @ [c]\<rparr>)"

text \<open>What the client receives when the handler has returned.\<close>

definition response :: "response_writer \<Rightarrow> nat \<times> http_header \<times> chunk list" where
  "response w = (let (code, h) = (case w_sent w of None \<Rightarrow> (200, w_header w) | Some s \<Rightarrow> s)
                 in (code, h, w_body w))"

definition resp_status :: "response_writer \<Rightarrow> nat" where
  "resp_status w = fst (response w)"

definition resp_cookies :: "response_writer \<Rightarrow> cookie list" where
  "resp_cookies w = set_cookies (fst (snd (response w)))"

definition resp_body :: "response_writer \<Rightarrow> chunk list" where
  "resp_body w = snd (snd (response w))"

definition resp_hdr :: "response_writer \<Rightarrow> string \<Rightarrow> string option" where
  "resp_hdr w = hdr (fst (snd (response w)))"

section \<open>pkg/httputils\<close>

definition error_body :: "string \<Rightarrow> chunk" where
  "error_body msg = Json (JObj [(''message'', JStr msg)])"

definition WriteErrorResponse :: "response_writer \<Rightarrow> nat \<Rightarrow> string list \<Rightarrow> response_writer" where
  "WriteErrorResponse w statusCode errorMessage =
     write_chunk (error_body (join errorMessage '' ''))
       (write_header statusCode (header_set ''Content-Type'' ''application/json'' w))"

definition JsonMiddleware :: "('r \<Rightarrow> response_writer \<Rightarrow> 'x) \<Rightarrow> 'r \<Rightarrow> response_writer \<Rightarrow> 'x" where
  "JsonMiddleware next_handler r w = next_handler r (header_set ''Content-Type'' ''application/json'' w)"

lemmas writer_defs [http_model] =
  header_set_def set_cookie_def write_header_def write_chunk_def response_def resp_status_def
  resp_cookies_def resp_body_def resp_hdr_def new_writer_def empty_header_def Let_def

lemma write_header_once [simp]:
  "write_header b (write_header a w) = write_header a w"
  by (simp add: write_header_def split: option.splits)

lemma resp_WriteErrorResponse:
  assumes "w_sent w = None"
  shows "resp_status (WriteErrorResponse w code ms) = code"
    "resp_body (WriteErrorResponse w code ms) = w_body w @ [error_body (join ms '' '')]"
    "resp_hdr (WriteErrorResponse w code ms) ''Content-Type'' = Some ''application/json''"
    "resp_cookies (WriteErrorResponse w code ms) = set_cookies (w_header w)"
  using assms by (simp_all add: WriteErrorResponse_def http_model)

end
