(* ===== verification/Subjects.thy ===== *)
theory Subjects imports Prelude begin

text \<open>
  Message subjects and publishing: \<open>pkg/subject\<close>, and the messages of
  \<open>protobuf/subject/v1alpha\<close>.  Protobuf encoding and the NATS client are not part of the
  source: encoding, decoding and the two publish calls are parameters (fields of \<open>bus\<close>), the
  state behind them a type variable.
\<close>

section \<open>Messages\<close>

record broadcaster_meta =
  BroadcasterId :: string
  Username :: string

text \<open>
  A proto3 enum is open: any 32-bit number may arrive.  \<open>IngestEgressType_name\<close> is a Go map,
  which yields the empty string for a missing key.
\<close>

definition STREAM_TYPE_UNSPECIFIED :: int where "STREAM_TYPE_UNSPECIFIED = 0"
definition STREAM_TYPE_HLS :: int where "STREAM_TYPE_HLS = 1"
definition STREAM_TYPE_WEBRTC :: int where "STREAM_TYPE_WEBRTC = 2"

definition IngestEgressType_name :: "int \<Rightarrow> string" where
  "IngestEgressType_name n =
     (if n = STREAM_TYPE_UNSPECIFIED then ''STREAM_TYPE_UNSPECIFIED''
      else if n = STREAM_TYPE_HLS then ''STREAM_TYPE_HLS''
      else if n = STREAM_TYPE_WEBRTC then ''STREAM_TYPE_WEBRTC''
      else '''')"

record ingest_deployed =
  Deployed :: bool
  Deployed_Meta :: "broadcaster_meta option"
  Egresses :: "int list"

record ingest_destroyed =
  Destroyed :: bool
  Destroyed_Meta :: "broadcaster_meta option"

datatype message = MDeployed ingest_deployed | MDestroyed ingest_destroyed

section \<open>Subject names\<close>

definition IngestAnyUserDeployed :: string where
  "IngestAnyUserDeployed = ''ingest.*.deployed''"

definition NewIngestDeployed :: "string \<Rightarrow> string" where
  "NewIngestDeployed broadcasterID = replace_first IngestAnyUserDeployed ''*'' broadcasterID"

definition IngestAnyUserDestroyed :: string where
  "IngestAnyUserDestroyed = ''public.ingest.in.*.destroyed.protobuf''"

definition NewIngestDestroyed :: "string \<Rightarrow> string" where
  "NewIngestDestroyed broadcasterID = replace_first IngestAnyUserDestroyed ''*'' broadcasterID"

definition StreamDestroyedNotification :: string where
  "StreamDestroyedNotification = ''private.stream.destroyed.notification.*.empty''"

definition NewStreamDestroyedNotification :: "string \<Rightarrow> string" where
  "NewStreamDestroyedNotification broadcasterID = replace_first StreamDestroyedNotification ''*'' broadcasterID"

section \<open>Publishing\<close>

record ('w) bus =
  pb_Marshal :: "message \<Rightarrow> goerr + string"
  pb_Unmarshal_deployed :: "string \<Rightarrow> goerr + ingest_deployed"
  pb_Unmarshal_destroyed :: "string \<Rightarrow> goerr + ingest_destroyed"
  nats_Publish :: "string \<Rightarrow> string \<Rightarrow> 'w \<Rightarrow> goerr option \<times> 'w"
  js_PublishMsg :: "string \<Rightarrow> string \<Rightarrow> 'w \<Rightarrow> goerr option \<times> 'w"

definition PublishProtobuf :: "'w bus \<Rightarrow> string \<Rightarrow> message \<Rightarrow> 'w \<Rightarrow> goerr option \<times> 'w" where
  "PublishProtobuf b subject msg w =
     (case pb_Marshal b msg of
        Inl err \<Rightarrow> (Some (errorf ''unable serialize message: Err: '' err), w)
      | Inr bytes \<Rightarrow> nats_Publish b subject bytes w)"

text \<open>The message id is not sent (the header line is commented out in the source).\<close>

definition JsPublishProtobufWithID ::
  "'w bus \<Rightarrow> string \<Rightarrow> string \<Rightarrow> message \<Rightarrow> 'w \<Rightarrow> goerr option \<times> 'w" where
  "JsPublishProtobufWithID b subject msg_id msg w =
     (case pb_Marshal b msg of
        Inl err \<Rightarrow> (Some (errorf ''unable serialize message: Err: '' err), w)
      | Inr bytes \<Rightarrow> js_PublishMsg b subject bytes w)"

definition DeserializeProtobufMsg_deployed :: "'w bus \<Rightarrow> string \<Rightarrow> goerr + ingest_deployed" where
  "DeserializeProtobufMsg_deployed b data =
     (case pb_Unmarshal_deployed b data of
        Inl err \<Rightarrow> Inl (errorf ''unable deserialize message. Err: '' err)
      | Inr obj \<Rightarrow> Inr obj)"

definition DeserializeProtobufMsg_destroyed :: "'w bus \<Rightarrow> string \<Rightarrow> goerr + ingest_destroyed" where
  "DeserializeProtobufMsg_destroyed b data =
     (case pb_Unmarshal_destroyed b data of
        Inl err \<Rightarrow> Inl (errorf ''unable deserialize message. Err: '' err)
      | Inr obj \<Rightarrow> Inr obj)"

text \<open>
  What the code relies on of protobuf: decoding what was encoded gives the message back.
\<close>

definition pb_laws :: "'w bus \<Rightarrow> bool" where
  "pb_laws b \<longleftrightarrow>
     (\<forall>m bytes. pb_Marshal b (MDeployed m) = Inr bytes \<longrightarrow> pb_Unmarshal_deployed b bytes = Inr m)
   \<and> (\<forall>m bytes. pb_Marshal b (MDestroyed m) = Inr bytes \<longrightarrow> pb_Unmarshal_destroyed b bytes = Inr m)"

section \<open>Lemmas\<close>

lemma NewIngestDeployed_eq: "NewIngestDeployed i = ''ingest.'' @ i @ ''.deployed''"
  using replace_first_skip [of "CHR ''*''" "''ingest.''" "''.deployed''" i]
  by (simp add: NewIngestDeployed_def IngestAnyUserDeployed_def)

lemma NewIngestDestroyed_eq: "NewIngestDestroyed i = ''public.ingest.in.'' @ i @ ''.destroyed.protobuf''"
  using replace_first_skip [of "CHR ''*''" "''public.ingest.in.''" "''.destroyed.protobuf''" i]
  by (simp add: NewIngestDestroyed_def IngestAnyUserDestroyed_def)

lemma NewStreamDestroyedNotification_eq:
  "NewStreamDestroyedNotification i = ''private.stream.destroyed.notification.'' @ i @ ''.empty''"
  using replace_first_skip [of "CHR ''*''" "''private.stream.destroyed.notification.''" "''.empty''" i]
  by (simp add: NewStreamDestroyedNotification_def StreamDestroyedNotification_def)

lemma subjects_inject [simp]:
  "NewIngestDeployed i = NewIngestDeployed j \<longleftrightarrow> i = j"
  "NewIngestDestroyed i = NewIngestDestroyed j \<longleftrightarrow> i = j"
  "NewStreamDestroyedNotification i = NewStreamDestroyedNotification j \<longleftrightarrow> i = j"
  by (auto simp: NewIngestDeployed_eq NewIngestDestroyed_eq NewStreamDestroyedNotification_eq)

lemma subjects_disjoint:
  "NewIngestDeployed i \<noteq> NewIngestDestroyed j"
  "NewIngestDeployed i \<noteq> NewStreamDestroyedNotification j"
  "NewIngestDestroyed i \<noteq> NewStreamDestroyedNotification j"
  by (auto simp: NewIngestDeployed_eq NewIngestDestroyed_eq NewStreamDestroyedNotification_eq)

end
