(* ===== verification/K8sResources.thy ===== *)
theory K8sResources imports EnvConfig begin

text \<open>
  The Kubernetes objects of the ingestion operator: the builders of
  \<open>resource/ingestresource/ingest_resource_manager.go\<close> and
  \<open>resource/istioresource/istio_resource_manager.go\<close>, the types of \<open>api/\<close>, and the
  getters that check ownership.  Of an object the model holds the fields the operator sets or
  reads.  The API server is not part of the source: its calls are the fields of a record
  \<open>k8s_client\<close> over a state type \<open>'w\<close>, and what a healthy server documents of them is the
  predicate \<open>k8s_laws\<close>, a hypothesis of the theorems that need it.
\<close>

section \<open>Objects\<close>

type_synonym i32 = "32 word"
type_synonym labels = "string \<Rightarrow> string option"

record container_port =
  cp_Name :: string
  cp_ContainerPort :: i32
  cp_Protocol :: string

record ingest_template =
  it_Name :: string
  it_Image :: string
  it_Ports :: "container_port list"

record env_var =
  ev_Name :: string
  ev_Value :: string

record container =
  c_Name :: string
  c_Image :: string
  c_Ports :: "container_port list"
  c_Env :: "env_var list"

record object_meta =
  om_Name :: string
  om_Namespace :: string
  om_Labels :: labels

record pod_affinity_term =
  pat_MatchLabels :: labels
  pat_TopologyKey :: string

record deployment =
  d_Meta :: object_meta
  d_Replicas :: i32
  d_Selector :: labels
  d_PodLabels :: labels
  d_AntiAffinity :: "pod_affinity_term list"
  d_Containers :: "container list"

record service_port =
  sp_Name :: string
  sp_Port :: i32
  sp_Protocol :: string

record service =
  s_Meta :: object_meta
  s_Type :: string
  s_ClusterIP :: string
  s_Ports :: "service_port list"
  s_Selector :: labels

record gateway_server =
  gs_Number :: i32
  gs_Name :: string
  gs_Protocol :: string
  gs_Hosts :: "string list"

record gateway =
  g_Kind :: string
  g_Meta :: object_meta
  g_Selector :: labels
  g_Servers :: "gateway_server list"

record destination =
  dst_Host :: string
  dst_Port :: i32

record http_route =
  hr_Route :: "destination list"

record virtual_service =
  v_Kind :: string
  v_Meta :: object_meta
  v_Hosts :: "string list"
  v_Gateways :: "string list"
  v_Http :: "http_route list"

record namespace_obj =
  n_Name :: string
  n_Labels :: labels

datatype kind = KDeployment | KService | KGateway | KVirtualService

datatype k8s_object =
    ODeployment deployment | OService service | OGateway gateway | OVirtualService virtual_service

type_synonym obj_key = "kind \<times> string \<times> string"

fun obj_meta :: "k8s_object \<Rightarrow> object_meta" where
  "obj_meta (ODeployment d) = d_Meta d"
| "obj_meta (OService s) = s_Meta s"
| "obj_meta (OGateway g) = g_Meta g"
| "obj_meta (OVirtualService v) = v_Meta v"

fun obj_kind :: "k8s_object \<Rightarrow> kind" where
  "obj_kind (ODeployment d) = KDeployment"
| "obj_kind (OService s) = KService"
| "obj_kind (OGateway g) = KGateway"
| "obj_kind (OVirtualService v) = KVirtualService"

definition key_of :: "k8s_object \<Rightarrow> obj_key" where
  "key_of x = (obj_kind x, om_Namespace (obj_meta x), om_Name (obj_meta x))"

section \<open>Builders\<close>

definition OWNED_BY :: string where "OWNED_BY = ''app.kubernetes.io/owned-by''"
definition CREATED_BY :: string where "CREATED_BY = ''app.kubernetes.io/created-by''"
definition BROADCASTER_ID :: string where "BROADCASTER_ID = ''romashorodok.github.io/ingest.broadcaster-id''"
definition ISTIO_SIDECAR_LABEL :: string where "ISTIO_SIDECAR_LABEL = ''sidecar.istio.io/inject''"
definition ISTIO_SIDECAR_VALUE :: string where "ISTIO_SIDECAR_VALUE = ''true''"
definition DEFAULT_WEBRTC_UDP_PORT_NAME :: string where "DEFAULT_WEBRTC_UDP_PORT_NAME = ''webrtc-udp''"
definition DEFAULT_WEBRTC_TCP_PORT_NAME :: string where "DEFAULT_WEBRTC_TCP_PORT_NAME = ''webrtc-tcp''"

lemmas label_defs = OWNED_BY_def CREATED_BY_def BROADCASTER_ID_def ISTIO_SIDECAR_LABEL_def
  ISTIO_SIDECAR_VALUE_def

lemmas port_name_defs = DEFAULT_WEBRTC_UDP_PORT_NAME_def DEFAULT_WEBRTC_TCP_PORT_NAME_def

record ingest_deployment_params =
  idp_Template :: ingest_template
  idp_AppName :: string
  idp_Namespace :: string
  idp_Replicas :: i32
  idp_Owner :: string
  idp_WebrtcPort :: "16 word"
  idp_BroadcasterID :: string
  idp_Username :: string

definition IngestDeploymentByTemplate :: "ingest_deployment_params \<Rightarrow> deployment" where
  "IngestDeploymentByTemplate params =
     (let deploymentLabels = [OWNED_BY \<mapsto> idp_Owner params, CREATED_BY \<mapsto> it_Name (idp_Template params),
            BROADCASTER_ID \<mapsto> idp_BroadcasterID params];
          appLabels = [''app'' \<mapsto> idp_AppName params, ISTIO_SIDECAR_LABEL \<mapsto> ISTIO_SIDECAR_VALUE];
          ports = it_Ports (idp_Template params) @
            [\<lparr>cp_Name = DEFAULT_WEBRTC_TCP_PORT_NAME, cp_ContainerPort = ucast (idp_WebrtcPort params),
              cp_Protocol = ''TCP''\<rparr>,
             \<lparr>cp_Name = DEFAULT_WEBRTC_UDP_PORT_NAME, cp_ContainerPort = ucast (idp_WebrtcPort params),
              cp_Protocol = ''UDP''\<rparr>];
          ingestContainer = \<lparr>c_Name = idp_AppName params, c_Image = it_Image (idp_Template params),
            c_Ports = ports,
            c_Env =
              [\<lparr>ev_Name = INGEST_BROADCASTER_ID, ev_Value = idp_BroadcasterID params\<rparr>,
               \<lparr>ev_Name = INGEST_USERNAME, ev_Value = idp_Username params\<rparr>,
               \<lparr>ev_Name = INGEST_UDP_PORT, ev_Value = nat_str (unat (idp_WebrtcPort params))\<rparr>,
               \<lparr>ev_Name = INGEST_TCP_PORT, ev_Value = nat_str (unat (idp_WebrtcPort params))\<rparr>,
               \<lparr>ev_Name = INGEST_NAT_PUBLIC_IP, ev_Value = INGEST_NAT_PUBLIC_IP_DEFAULT\<rparr>,
               \<lparr>ev_Name = NATS_HOST, ev_Value = NATS_HOST_HEADLESS\<rparr>,
               \<lparr>ev_Name = NATS_PORT, ev_Value = NATS_PORT_DEFAULT\<rparr>,
               \<lparr>ev_Name = TURN_ENABLE, ev_Value = ''false''\<rparr>,
               \<lparr>ev_Name = TURN_URL, ev_Value = TURN_URL_DEFAULT\<rparr>,
               \<lparr>ev_Name = TURN_USERNAME, ev_Value = TURN_USERNAME_DEFAULT\<rparr>,
               \<lparr>ev_Name = TURN_PASSWORD, ev_Value = TURN_PASSWORD_DEFAULT\<rparr>]\<rparr>
      in \<lparr>d_Meta = \<lparr>om_Name = idp_AppName params, om_Namespace = idp_Namespace params,
            om_Labels = deploymentLabels\<rparr>,
          d_Replicas = idp_Replicas params,
          d_Selector = appLabels,
          d_PodLabels = appLabels,
          d_AntiAffinity = [\<lparr>pat_MatchLabels = appLabels, pat_TopologyKey = ''kubernetes.io/hostname''\<rparr>],
          d_Containers = [ingestContainer]\<rparr>)"

record ingest_service_params =
  isp_Template :: ingest_template
  isp_ServiceName :: string
  isp_AppName :: string
  isp_Namespace :: string
  isp_Owner :: string
  isp_WebrtcPort :: "16 word"

definition IngestHeadlessService :: "ingest_service_params \<Rightarrow> service" where
  "IngestHeadlessService params =
     \<lparr>s_Meta = \<lparr>om_Name = isp_ServiceName params, om_Namespace = isp_Namespace params,
        om_Labels = [''app'' \<mapsto> isp_ServiceName params, CREATED_BY \<mapsto> it_Name (isp_Template params),
          OWNED_BY \<mapsto> isp_Owner params]\<rparr>,
      s_Type = '''',
      s_ClusterIP = ''None'',
      s_Ports = map (\<lambda>port. \<lparr>sp_Name = cp_Name port, sp_Port = cp_ContainerPort port,
          sp_Protocol = cp_Protocol port\<rparr>) (it_Ports (isp_Template params)),
      s_Selector = [''app'' \<mapsto> isp_AppName params]\<rparr>"

definition IngestWebrtcGatewayService :: "ingest_service_params \<Rightarrow> string \<Rightarrow> string \<Rightarrow> service" where
  "IngestWebrtcGatewayService params protocol portName =
     \<lparr>s_Meta = \<lparr>om_Name = isp_ServiceName params, om_Namespace = isp_Namespace params,
        om_Labels = [''app'' \<mapsto> isp_ServiceName params, CREATED_BY \<mapsto> it_Name (isp_Template params),
          OWNED_BY \<mapsto> isp_Owner params]\<rparr>,
      s_Type = ''LoadBalancer'',
      s_ClusterIP = '''',
      s_Ports = [\<lparr>sp_Name = portName, sp_Port = ucast (isp_WebrtcPort params), sp_Protocol = protocol\<rparr>],
      s_Selector = [''app'' \<mapsto> isp_AppName params]\<rparr>"

definition IngestNamespace :: "string \<Rightarrow> string \<Rightarrow> namespace_obj" where
  "IngestNamespace ns owner = \<lparr>n_Name = ns, n_Labels = [OWNED_BY \<mapsto> owner]\<rparr>"

record istio_gateway_params =
  igp_Number :: i32
  igp_Protocol :: string
  igp_Selector :: string
  igp_AppName :: string
  igp_HostName :: string
  igp_Namespace :: string
  igp_Owner :: string

definition IstioGateway :: "istio_gateway_params \<Rightarrow> gateway" where
  "IstioGateway params =
     \<lparr>g_Kind = ''Gateway'',
      g_Meta = \<lparr>om_Name = igp_AppName params, om_Namespace = igp_Namespace params,
        om_Labels = [OWNED_BY \<mapsto> igp_Owner params]\<rparr>,
      g_Selector = [''istio'' \<mapsto> igp_Selector params],
      g_Servers = [\<lparr>gs_Number = igp_Number params, gs_Name = igp_Protocol params,
        gs_Protocol = igp_Protocol params, gs_Hosts = [igp_HostName params]\<rparr>]\<rparr>"

record istio_virtual_service_params =
  ivp_HostName :: string
  ivp_ServiceNameHost :: string
  ivp_Ports :: "container_port list"
  ivp_VirtualServiceAppName :: string
  ivp_GatewayAppName :: string
  ivp_Namespace :: string
  ivp_Owner :: string

text \<open>The loop skips (\<open>continue\<close>) a port that is not TCP.\<close>

fun http_routes :: "string \<Rightarrow> container_port list \<Rightarrow> http_route list" where
  "http_routes host [] = []"
| "http_routes host (port # ps) =
     (if cp_Protocol port \<noteq> ''TCP'' then http_routes host ps
      else \<lparr>hr_Route = [\<lparr>dst_Host = host, dst_Port = cp_ContainerPort port\<rparr>]\<rparr> # http_routes host ps)"

definition IstioVirtualService :: "istio_virtual_service_params \<Rightarrow> virtual_service" where
  "IstioVirtualService params =
     \<lparr>v_Kind = ''VirtualService'',
      v_Meta = \<lparr>om_Name = ivp_VirtualServiceAppName params, om_Namespace = ivp_Namespace params,
        om_Labels = [OWNED_BY \<mapsto> ivp_Owner params]\<rparr>,
      v_Hosts = [ivp_HostName params],
      v_Gateways = [ivp_GatewayAppName params],
      v_Http = http_routes (ivp_ServiceNameHost params) (ivp_Ports params)\<rparr>"

section \<open>The API server\<close>

record 'w k8s_client =
  kc_Create :: "k8s_object \<Rightarrow> 'w \<Rightarrow> goerr option \<times> 'w"
  kc_Delete :: "k8s_object \<Rightarrow> 'w \<Rightarrow> goerr option \<times> 'w"
  kc_GetDeployment :: "string \<Rightarrow> string \<Rightarrow> 'w \<Rightarrow> goerr + deployment"
  kc_GetService :: "string \<Rightarrow> string \<Rightarrow> 'w \<Rightarrow> goerr + service"
  kc_GetGateway :: "string \<Rightarrow> string \<Rightarrow> 'w \<Rightarrow> goerr + gateway"
  kc_GetVirtualService :: "string \<Rightarrow> string \<Rightarrow> 'w \<Rightarrow> goerr + virtual_service"
  kc_GetNamespace :: "string \<Rightarrow> string \<Rightarrow> 'w \<Rightarrow> goerr + namespace_obj"
  kc_ListDeployments :: "string \<Rightarrow> string \<Rightarrow> 'w \<Rightarrow> goerr + deployment list"

text \<open>
  A healthy API server, \<open>cl w\<close> being the objects it holds in state \<open>w\<close>: an object is stored
  under its kind, namespace and name; \<open>Create\<close> fails exactly when the key is taken,
  \<open>Delete\<close> exactly when it is not, \<open>Get\<close> reads.
\<close>

definition k8s_laws :: "'w k8s_client \<Rightarrow> ('w \<Rightarrow> obj_key \<Rightarrow> k8s_object option) \<Rightarrow> bool" where
  "k8s_laws k cl \<longleftrightarrow>
     (\<forall>w key x. cl w key = Some x \<longrightarrow> key_of x = key)
   \<and> (\<forall>w x. cl w (key_of x) = None \<longrightarrow> (\<exists>w'. kc_Create k x w = (None, w') \<and> cl w' = (cl w)(key_of x \<mapsto> x)))
   \<and> (\<forall>w x. cl w (key_of x) \<noteq> None \<longrightarrow> (\<exists>e. kc_Create k x w = (Some e, w)))
   \<and> (\<forall>w x. cl w (key_of x) \<noteq> None \<longrightarrow> (\<exists>w'. kc_Delete k x w = (None, w') \<and> cl w' = (cl w)(key_of x := None)))
   \<and> (\<forall>w x. cl w (key_of x) = None \<longrightarrow> (\<exists>e. kc_Delete k x w = (Some e, w)))
   \<and> (\<forall>w ns n d. kc_GetDeployment k ns n w = Inr d \<longleftrightarrow> cl w (KDeployment, ns, n) = Some (ODeployment d))
   \<and> (\<forall>w ns n s. kc_GetService k ns n w = Inr s \<longleftrightarrow> cl w (KService, ns, n) = Some (OService s))
   \<and> (\<forall>w ns n g. kc_GetGateway k ns n w = Inr g \<longleftrightarrow> cl w (KGateway, ns, n) = Some (OGateway g))
   \<and> (\<forall>w ns n v. kc_GetVirtualService k ns n w = Inr v
        \<longleftrightarrow> cl w (KVirtualService, ns, n) = Some (OVirtualService v))"

lemma k8s_key: "k8s_laws k cl \<Longrightarrow> cl w key = Some x \<Longrightarrow> key_of x = key"
  unfolding k8s_laws_def by (drule conjunct1) blast

lemma k8s_create: "k8s_laws k cl \<Longrightarrow> cl w (key_of x) = None \<Longrightarrow> \<exists>w'. kc_Create k x w = (None, w') \<and> cl w' = (cl w)(key_of x \<mapsto> x)"
  by (simp add: k8s_laws_def)

lemma k8s_create_taken: "k8s_laws k cl \<Longrightarrow> cl w (key_of x) \<noteq> None \<Longrightarrow> \<exists>e. kc_Create k x w = (Some e, w)"
  by (simp add: k8s_laws_def)

lemma k8s_delete: "k8s_laws k cl \<Longrightarrow> cl w (key_of x) \<noteq> None \<Longrightarrow>
    \<exists>w'. kc_Delete k x w = (None, w') \<and> cl w' = (cl w)(key_of x := None)"
  by (simp add: k8s_laws_def)

lemma k8s_delete_absent: "k8s_laws k cl \<Longrightarrow> cl w (key_of x) = None \<Longrightarrow> \<exists>e. kc_Delete k x w = (Some e, w)"
  by (simp add: k8s_laws_def)

lemma k8s_get_deployment:
  "k8s_laws k cl \<Longrightarrow> kc_GetDeployment k ns n w = Inr d \<longleftrightarrow> cl w (KDeployment, ns, n) = Some (ODeployment d)"
  by (simp add: k8s_laws_def)

lemma k8s_get_service:
  "k8s_laws k cl \<Longrightarrow> kc_GetService k ns n w = Inr s \<longleftrightarrow> cl w (KService, ns, n) = Some (OService s)"
  by (simp add: k8s_laws_def)

lemma k8s_get_gateway:
  "k8s_laws k cl \<Longrightarrow> kc_GetGateway k ns n w = Inr g \<longleftrightarrow> cl w (KGateway, ns, n) = Some (OGateway g)"
  by (simp add: k8s_laws_def)

lemma k8s_get_virtual_service:
  "k8s_laws k cl \<Longrightarrow> kc_GetVirtualService k ns n w = Inr v
    \<longleftrightarrow> cl w (KVirtualService, ns, n) = Some (OVirtualService v)"
  by (simp add: k8s_laws_def)

lemmas k8s_gets = k8s_get_deployment k8s_get_service k8s_get_gateway k8s_get_virtual_service

section \<open>Getters that check the owner\<close>

definition check_owner :: "labels \<Rightarrow> string \<Rightarrow> 'a \<Rightarrow> goerr + 'a" where
  "check_owner lbls want x =
     (case lbls OWNED_BY of
        None \<Rightarrow> Inl (GoErr ''trying to get non-owner resource access'')
      | Some owner \<Rightarrow>
          if owner \<noteq> want then Inl (GoErr ''trying to get non-owner resource access'') else Inr x)"

definition GetIngestByAppName :: "'w k8s_client \<Rightarrow> string \<Rightarrow> string \<Rightarrow> 'w \<Rightarrow> goerr + deployment" where
  "GetIngestByAppName k ns appName w =
     (case kc_GetDeployment k ns appName w of
        Inl err \<Rightarrow> Inl err
      | Inr d \<Rightarrow> check_owner (om_Labels (d_Meta d)) appName d)"

definition GetIngestServiceByAppName ::
  "'w k8s_client \<Rightarrow> string \<Rightarrow> string \<Rightarrow> string \<Rightarrow> 'w \<Rightarrow> goerr + service" where
  "GetIngestServiceByAppName k ns serviceName owner w =
     (case kc_GetService k ns serviceName w of
        Inl err \<Rightarrow> Inl err
      | Inr s \<Rightarrow> check_owner (om_Labels (s_Meta s)) owner s)"

definition GetIngestNamespaceByAppName :: "'w k8s_client \<Rightarrow> string \<Rightarrow> 'w \<Rightarrow> goerr + namespace_obj" where
  "GetIngestNamespaceByAppName k appName w =
     (case kc_GetNamespace k appName appName w of
        Inl err \<Rightarrow> Inl err
      | Inr n \<Rightarrow> check_owner (n_Labels n) appName n)"

definition GetIstioGatewayByAppName ::
  "'w k8s_client \<Rightarrow> string \<Rightarrow> string \<Rightarrow> string \<Rightarrow> 'w \<Rightarrow> goerr + gateway" where
  "GetIstioGatewayByAppName k ns gatewayAppName owner w =
     (case kc_GetGateway k ns gatewayAppName w of
        Inl err \<Rightarrow> Inl err
      | Inr g \<Rightarrow> check_owner (om_Labels (g_Meta g)) owner g)"

definition GetIstioVirtualServiceByAppName ::
  "'w k8s_client \<Rightarrow> string \<Rightarrow> string \<Rightarrow> string \<Rightarrow> 'w \<Rightarrow> goerr + virtual_service" where
  "GetIstioVirtualServiceByAppName k ns virtualServiceAppName owner w =
     (case kc_GetVirtualService k ns virtualServiceAppName w of
        Inl err \<Rightarrow> Inl err
      | Inr v \<Rightarrow> check_owner (om_Labels (v_Meta v)) owner v)"

lemma check_owner_Inr [simp]:
  "check_owner l o1 x = Inr y \<longleftrightarrow> l OWNED_BY = Some o1 \<and> y = x"
  by (auto simp: check_owner_def split: option.splits)

lemma http_routes_tcp:
  "http_routes host ps = map (\<lambda>p. \<lparr>hr_Route = [\<lparr>dst_Host = host, dst_Port = cp_ContainerPort p\<rparr>]\<rparr>)
     (filter (\<lambda>p. cp_Protocol p = ''TCP'') ps)"
  by (induction ps) auto

section \<open>A server in memory\<close>

text \<open>
  An API server that keeps its objects in a list, with the log of published messages: the instance
  at which the theorems about an arbitrary server are applied.
\<close>

record mem_world =
  mw_objects :: "k8s_object list"
  mw_published :: "(string \<times> string) list"

definition mem_cl :: "mem_world \<Rightarrow> obj_key \<Rightarrow> k8s_object option" where
  "mem_cl w key = find (\<lambda>x. key_of x = key) (mw_objects w)"

definition mem_k8s :: "mem_world k8s_client" where
  "mem_k8s =
     \<lparr>kc_Create = (\<lambda>x w. if mem_cl w (key_of x) = None
          then (None, w\<lparr>mw_objects := x # mw_objects w\<rparr>)
          else (Some (GoErr ''already exists''), w)),
      kc_Delete = (\<lambda>x w. if mem_cl w (key_of x) = None then (Some (GoErr ''not found''), w)
          else (None, w\<lparr>mw_objects := filter (\<lambda>y. key_of y \<noteq> key_of x) (mw_objects w)\<rparr>)),
      kc_GetDeployment = (\<lambda>ns n w. case mem_cl w (KDeployment, ns, n) of
          Some (ODeployment d) \<Rightarrow> Inr d | _ \<Rightarrow> Inl (GoErr ''not found'')),
      kc_GetService = (\<lambda>ns n w. case mem_cl w (KService, ns, n) of
          Some (OService d) \<Rightarrow> Inr d | _ \<Rightarrow> Inl (GoErr ''not found'')),
      kc_GetGateway = (\<lambda>ns n w. case mem_cl w (KGateway, ns, n) of
          Some (OGateway d) \<Rightarrow> Inr d | _ \<Rightarrow> Inl (GoErr ''not found'')),
      kc_GetVirtualService = (\<lambda>ns n w. case mem_cl w (KVirtualService, ns, n) of
          Some (OVirtualService d) \<Rightarrow> Inr d | _ \<Rightarrow> Inl (GoErr ''not found'')),
      kc_GetNamespace = (\<lambda>ns n w. Inl (GoErr ''not found'')),
      kc_ListDeployments = (\<lambda>lbl v w. Inr (List.map_filter (\<lambda>key. case mem_cl w key of
          Some (ODeployment d) \<Rightarrow> if om_Labels (d_Meta d) lbl = Some v then Some d else None | _ \<Rightarrow> None)
          (remdups (map key_of (mw_objects w)))))\<rparr>"

lemma find_filter_key:
  "find (\<lambda>x. f x = k) (filter (\<lambda>y. f y \<noteq> j) xs) = (if k = j then None else find (\<lambda>x. f x = k) xs)"
  by (induction xs) auto

lemma mem_k8s_laws: "k8s_laws mem_k8s mem_cl"
proof -
  have "mem_cl (w\<lparr>mw_objects := x # mw_objects w\<rparr>) = (mem_cl w)(key_of x \<mapsto> x)" for w x
    by (auto simp: mem_cl_def)
  moreover have "mem_cl (w\<lparr>mw_objects := filter (\<lambda>y. key_of y \<noteq> key_of x) (mw_objects w)\<rparr>)
      = (mem_cl w)(key_of x := None)" for w x
    by (auto simp: mem_cl_def find_filter_key)
  moreover have "mem_cl w key = Some x \<Longrightarrow> key_of x = key" for w key x
    by (auto simp: mem_cl_def dest: find_SomeD)
  ultimately show ?thesis
    by (auto simp: k8s_laws_def mem_k8s_def split: option.splits k8s_object.splits)
qed

end
