(* ===== verification/IngestSystem.thy ===== *)
theory IngestSystem imports K8sResources Subjects PortRange "HOL-Library.Multiset" begin

text \<open>
  Starting and stopping a broadcaster's ingest system
  (\<open>operators/ingestion-operator/resource/ingestresource/ingest_system.go\<close>).  The state is the
  port allocator and a world \<open>'w\<close> that holds the API server and the message bus.  The goroutines
  of an \<open>errgroup\<close> run one after another in an order given by a schedule (a list of task
  numbers): each touches only its own object, so the order in which they take effect is all that
  their interleaving can change.  What \<open>errgroup.Wait\<close> returns for the tasks' results is the
  parameter \<open>oe_Wait\<close>; the race between the two searches for the node port is the argument
  \<open>dep_first\<close>.
\<close>

section \<open>The environment\<close>

record 'w operator_env =
  oe_k8s :: "'w k8s_client"
  oe_bus :: "'w bus"
  oe_Wait :: "goerr option list \<Rightarrow> goerr option"
  oe_Addr :: string

text \<open>
  \<open>errgroup\<close>: nil when every task returned nil, otherwise the error of one of them.
  Publishing a message leaves the API server alone.
\<close>

definition operator_laws :: "'w operator_env \<Rightarrow> ('w \<Rightarrow> obj_key \<Rightarrow> k8s_object option) \<Rightarrow> bool" where
  "operator_laws env cl \<longleftrightarrow>
     k8s_laws (oe_k8s env) cl
   \<and> (\<forall>rs. oe_Wait env rs = None \<longleftrightarrow> (\<forall>r\<in>set rs. r = None))
   \<and> (\<forall>s m w. cl (snd (js_PublishMsg (oe_bus env) s m w)) = cl w)"

section \<open>Starting\<close>

definition FullNodePortAssignedError :: goerr where
  "FullNodePortAssignedError = Sentinel ''Unable find empty node port to assign the ingest''"

record start_params =
  stp_AppName :: string
  stp_Namespace :: string
  stp_Template :: ingest_template
  stp_Username :: string
  stp_BroadcasterID :: string

definition start_objects :: "start_params \<Rightarrow> 16 word \<Rightarrow> k8s_object list" where
  "start_objects params webrtcPort =
     (let ingressGatewayAppName = stp_AppName params @ ''-gateway'';
          virtualServiceAppName = stp_AppName params @ ''-virtual-service'';
          ingestHostName = stp_AppName params @ ''.'' @ ''localhost'';
          ingestServiceName = stp_AppName params;
          ingestWebrtcUDPGatewayServiceName = stp_AppName params @ ''-webrtc-udp-gateway'';
          ingestWebrtcTCPGatewayServiceName = stp_AppName params @ ''-webrtc-tcp-gateway'';
          owner = stp_AppName params;
          service_params = (\<lambda>name. \<lparr>isp_Template = stp_Template params, isp_ServiceName = name,
            isp_AppName = stp_AppName params, isp_Namespace = stp_Namespace params,
            isp_Owner = owner, isp_WebrtcPort = webrtcPort\<rparr>)
      in [ODeployment (IngestDeploymentByTemplate
            \<lparr>idp_Template = stp_Template params, idp_AppName = stp_AppName params,
             idp_Namespace = stp_Namespace params, idp_Replicas = 1, idp_Owner = owner,
             idp_WebrtcPort = webrtcPort, idp_BroadcasterID = stp_BroadcasterID params,
             idp_Username = stp_Username params\<rparr>),
          OService (IngestHeadlessService (service_params ingestServiceName)),
          OService (IngestWebrtcGatewayService (service_params ingestWebrtcUDPGatewayServiceName)
            ''UDP'' DEFAULT_WEBRTC_UDP_PORT_NAME),
          OService (IngestWebrtcGatewayService (service_params ingestWebrtcTCPGatewayServiceName)
            ''TCP'' DEFAULT_WEBRTC_TCP_PORT_NAME),
          OGateway (IstioGateway
            \<lparr>igp_Number = 80, igp_Protocol = ''HTTP'', igp_Selector = ''gateway'',
             igp_AppName = ingressGatewayAppName, igp_HostName = ingestHostName,
             igp_Namespace = stp_Namespace params, igp_Owner = owner\<rparr>),
          OVirtualService (IstioVirtualService
            \<lparr>ivp_HostName = ingestHostName, ivp_ServiceNameHost = ingestServiceName,
             ivp_Ports = it_Ports (stp_Template params),
             ivp_VirtualServiceAppName = virtualServiceAppName,
             ivp_GatewayAppName = ingressGatewayAppName,
             ivp_Namespace = stp_Namespace params, ivp_Owner = owner\<rparr>)])"

fun run_creates :: "'w k8s_client \<Rightarrow> k8s_object list \<Rightarrow> 'w \<Rightarrow> goerr option list \<times> 'w" where
  "run_creates k [] w = ([], w)"
| "run_creates k (x # xs) w =
     (let (r, w1) = kc_Create k x w; (rs, w2) = run_creates k xs w1 in (r # rs, w2))"

definition StartIngestSystem ::
  "'w operator_env \<Rightarrow> nat list \<Rightarrow> start_params \<Rightarrow> port_range \<times> 'w
    \<Rightarrow> (goerr option \<times> port_range \<times> 'w) option" where
  "StartIngestSystem env sched params s =
     (let (ports, w) = s in
      case GetPort ports of
        None \<Rightarrow> None
      | Some (None, ports1) \<Rightarrow> Some (Some FullNodePortAssignedError, ports1, w)
      | Some (Some webrtcNodePort, ports1) \<Rightarrow>
          (let webrtcPort = Port webrtcNodePort;
               (rs, w1) = run_creates (oe_k8s env)
                 (map (\<lambda>i. start_objects params webrtcPort ! i) sched) w
           in case oe_Wait env rs of
                Some err \<Rightarrow>
                  Some (Some (errorf ''unable deploy ingest system. Error: '' err),
                    snd (PortBack ports1 (Port webrtcNodePort)), w1)
              | None \<Rightarrow> Some (None, ports1, w1)))"

section \<open>Finding the node port again\<close>

fun webrtc_container_port :: "container_port list \<Rightarrow> i32 option" where
  "webrtc_container_port [] = None"
| "webrtc_container_port (port # ps) =
     (if cp_Name port = DEFAULT_WEBRTC_TCP_PORT_NAME \<or> cp_Name port = DEFAULT_WEBRTC_UDP_PORT_NAME
      then Some (cp_ContainerPort port) else webrtc_container_port ps)"

fun webrtc_port_of_containers :: "container list \<Rightarrow> i32 option" where
  "webrtc_port_of_containers [] = None"
| "webrtc_port_of_containers (c # cs) =
     (case webrtc_container_port (c_Ports c) of
        Some p \<Rightarrow> Some p
      | None \<Rightarrow> webrtc_port_of_containers cs)"

definition findDeploymentIngestWebrtcPort :: "deployment option \<Rightarrow> i32 option" where
  "findDeploymentIngestWebrtcPort ingest =
     (case ingest of None \<Rightarrow> None | Some d \<Rightarrow> webrtc_port_of_containers (d_Containers d))"

fun webrtc_service_port :: "service_port list \<Rightarrow> i32 option" where
  "webrtc_service_port [] = None"
| "webrtc_service_port (port # ps) =
     (if sp_Name port = DEFAULT_WEBRTC_TCP_PORT_NAME \<or> sp_Name port = DEFAULT_WEBRTC_UDP_PORT_NAME
      then Some (sp_Port port) else webrtc_service_port ps)"

definition findServiceIngestWebrtcPort :: "service option \<Rightarrow> i32 option" where
  "findServiceIngestWebrtcPort ingestService =
     (case ingestService of None \<Rightarrow> None | Some s \<Rightarrow> webrtc_service_port (s_Ports s))"

text \<open>
  The channel has room for two values and the nil is sent after both searches are done, so nil is
  received only when neither found a port; when both did, the first to send wins.
\<close>

definition findFirstWebrtcPortInDeploymentOrService ::
  "bool \<Rightarrow> deployment option \<Rightarrow> service option \<Rightarrow> i32 option" where
  "findFirstWebrtcPortInDeploymentOrService dep_first ingest svc =
     (case (findDeploymentIngestWebrtcPort ingest, findServiceIngestWebrtcPort svc) of
        (Some p, Some q) \<Rightarrow> Some (if dep_first then p else q)
      | (Some p, None) \<Rightarrow> Some p
      | (None, Some q) \<Rightarrow> Some q
      | (None, None) \<Rightarrow> None)"

section \<open>Stopping\<close>

record stop_vars =
  sv_broadcasterID :: string
  sv_ingestDeployment :: "deployment option"
  sv_ingestWebrtcGatewayService :: "service option"

definition map_get :: "labels \<Rightarrow> string \<Rightarrow> string" where
  "map_get m k = (case m k of None \<Rightarrow> '''' | Some v \<Rightarrow> v)"

definition unable_find :: "string \<Rightarrow> string \<Rightarrow> string \<Rightarrow> goerr \<Rightarrow> goerr" where
  "unable_find what ns name err =
     errorf (''unable find '' @ what @ '' for '' @ ns @ ''/'' @ name @ ''. Error: '') err"

text \<open>The six tasks in the order of the source; the second one of the three services keeps what it found.\<close>

definition stop_tasks ::
  "'w k8s_client \<Rightarrow> string \<Rightarrow> string \<Rightarrow> (stop_vars \<times> 'w \<Rightarrow> goerr option \<times> stop_vars \<times> 'w) list" where
  "stop_tasks k appName ns =
     (let ingressGatewayAppName = appName @ ''-gateway'';
          virtualServiceAppName = appName @ ''-virtual-service'';
          ingestServiceName = appName;
          ingestWebrtcUDPGatewayServiceName = appName @ ''-webrtc-udp-gateway'';
          ingestWebrtcTCPGatewayServiceName = appName @ ''-webrtc-tcp-gateway'';
          owner = appName
      in [\<lambda>(v, w). case GetIngestByAppName k ns appName w of
              Inl err \<Rightarrow> (Some (unable_find ''ingest deployment'' ns appName err), v, w)
            | Inr ingest \<Rightarrow>
                (let (r, w1) = kc_Delete k (ODeployment ingest) w
                 in (r, v\<lparr>sv_ingestDeployment := Some ingest,
                         sv_broadcasterID := map_get (om_Labels (d_Meta ingest)) BROADCASTER_ID\<rparr>, w1)),
          \<lambda>(v, w). case GetIngestServiceByAppName k ns ingestServiceName owner w of
              Inl err \<Rightarrow> (Some (unable_find ''ingest service'' ns ingestServiceName err), v, w)
            | Inr service \<Rightarrow> (let (r, w1) = kc_Delete k (OService service) w in (r, v, w1)),
          \<lambda>(v, w). case GetIngestServiceByAppName k ns ingestWebrtcUDPGatewayServiceName owner w of
              Inl err \<Rightarrow> (Some (unable_find ''ingest webrtc service'' ns ingestWebrtcUDPGatewayServiceName err), v, w)
            | Inr service \<Rightarrow>
                (let (r, w1) = kc_Delete k (OService service) w
                 in (r, v\<lparr>sv_ingestWebrtcGatewayService := Some service\<rparr>, w1)),
          \<lambda>(v, w). case GetIngestServiceByAppName k ns ingestWebrtcTCPGatewayServiceName owner w of
              Inl err \<Rightarrow> (Some (unable_find ''ingest webrtc service'' ns ingestWebrtcTCPGatewayServiceName err), v, w)
            | Inr service \<Rightarrow> (let (r, w1) = kc_Delete k (OService service) w in (r, v, w1)),
          \<lambda>(v, w). case GetIstioGatewayByAppName k ns ingressGatewayAppName owner w of
              Inl err \<Rightarrow> (Some (unable_find ''gateway'' ns appName err), v, w)
            | Inr gateway \<Rightarrow> (let (r, w1) = kc_Delete k (OGateway gateway) w in (r, v, w1)),
          \<lambda>(v, w). case GetIstioVirtualServiceByAppName k ns virtualServiceAppName owner w of
              Inl err \<Rightarrow> (Some (unable_find ''virtual service'' ns appName err), v, w)
            | Inr virtualService \<Rightarrow>
                (let (r, w1) = kc_Delete k (OVirtualService virtualService) w in (r, v, w1))])"

fun run_tasks :: "('s \<Rightarrow> goerr option \<times> 's) list \<Rightarrow> 's \<Rightarrow> goerr option list \<times> 's" where
  "run_tasks [] s = ([], s)"
| "run_tasks (t # ts) s = (let (r, s1) = t s; (rs, s2) = run_tasks ts s1 in (r # rs, s2))"

definition sendDestroyNotification :: "'w operator_env \<Rightarrow> string \<Rightarrow> string \<Rightarrow> 'w \<Rightarrow> goerr option \<times> 'w" where
  "sendDestroyNotification env broadcasterID appName w =
     JsPublishProtobufWithID (oe_bus env) (NewIngestDestroyed broadcasterID) broadcasterID
       (MDestroyed \<lparr>Destroyed = True,
          Destroyed_Meta = Some \<lparr>BroadcasterId = broadcasterID, Username = appName\<rparr>\<rparr>) w"

definition StopIngestSystem ::
  "'w operator_env \<Rightarrow> nat list \<Rightarrow> bool \<Rightarrow> string \<Rightarrow> string \<Rightarrow> port_range \<times> 'w
    \<Rightarrow> goerr option \<times> port_range \<times> 'w" where
  "StopIngestSystem env sched dep_first appName ns s =
     (let (ports, w) = s;
          v0 = \<lparr>sv_broadcasterID = '''', sv_ingestDeployment = None, sv_ingestWebrtcGatewayService = None\<rparr>;
          (rs, v, w1) = run_tasks (map (\<lambda>i. stop_tasks (oe_k8s env) appName ns ! i) sched) (v0, w);
          found = findFirstWebrtcPortInDeploymentOrService dep_first (sv_ingestDeployment v)
            (sv_ingestWebrtcGatewayService v)
      in case oe_Wait env rs of
           Some err \<Rightarrow>
             (Some (errorf ''unable stop ingest system. Error: '' err),
              (case found of None \<Rightarrow> ports | Some p \<Rightarrow> snd (PortBack ports (ucast p))), w1)
         | None \<Rightarrow>
             (let (back, ports1) = (case found of None \<Rightarrow> (None, ports) | Some p \<Rightarrow> PortBack ports (ucast p))
              in case back of
                   Some err \<Rightarrow>
                     (Some (errorf (''unable webrtc port back of '' @ oe_Addr env @ ''. Err: '') err), ports1, w1)
                 | None \<Rightarrow>
                     if sv_broadcasterID v = '''' then
                       (Some (GoErr (''not found broadcasterID for '' @ ns @ ''/'' @ appName)), ports1, w1)
                     else (None, ports1, snd (sendDestroyNotification env (sv_broadcasterID v) appName w1))))"

section \<open>The six objects of an ingest\<close>

text \<open>
  The keys under which an ingest's objects are stored, in the order of the goroutines, and what a
  schedule of the six is.
\<close>

definition ingest_keys :: "string \<Rightarrow> string \<Rightarrow> obj_key list" where
  "ingest_keys ns app =
     [(KDeployment, ns, app), (KService, ns, app), (KService, ns, app @ ''-webrtc-udp-gateway''),
      (KService, ns, app @ ''-webrtc-tcp-gateway''), (KGateway, ns, app @ ''-gateway''),
      (KVirtualService, ns, app @ ''-virtual-service'')]"

definition schedule :: "nat list \<Rightarrow> bool" where
  "schedule sched \<longleftrightarrow> distinct sched \<and> set sched = {0..<6}"

definition objs_map :: "k8s_object list \<Rightarrow> obj_key \<Rightarrow> k8s_object option" where
  "objs_map os = map_of (map (\<lambda>x. (key_of x, x)) os)"

lemma length_ingest_keys [simp]: "length (ingest_keys ns app) = 6"
  by (simp add: ingest_keys_def)

lemma distinct_ingest_keys [simp]: "distinct (ingest_keys ns app)"
  by (simp add: ingest_keys_def)

lemma keys_start_objects [simp]:
  "map key_of (start_objects params p) = ingest_keys (stp_Namespace params) (stp_AppName params)"
  by (simp add: start_objects_def ingest_keys_def key_of_def IngestDeploymentByTemplate_def Let_def
      IngestHeadlessService_def IngestWebrtcGatewayService_def IstioGateway_def IstioVirtualService_def)

lemma set_start_objects:
  "key_of ` set (start_objects params p) = set (ingest_keys (stp_Namespace params) (stp_AppName params))"
  by (simp flip: set_map)

lemma length_start_objects [simp]: "length (start_objects params p) = 6"
  by (simp add: start_objects_def Let_def)

lemma owner_start_objects:
  "x \<in> set (start_objects params p) \<Longrightarrow> om_Labels (obj_meta x) OWNED_BY = Some (stp_AppName params)"
  by (auto simp: start_objects_def IngestDeploymentByTemplate_def Let_def label_defs
      IngestHeadlessService_def IngestWebrtcGatewayService_def IstioGateway_def IstioVirtualService_def)

lemma dom_objs_map: "dom (objs_map os) = key_of ` set os"
  by (simp add: objs_map_def dom_map_of_conv_image_fst image_image)

lemma dom_objs_map_start [simp]:
  "dom (objs_map (start_objects params p)) = set (ingest_keys (stp_Namespace params) (stp_AppName params))"
  by (simp add: dom_objs_map flip: set_map)

lemma objs_map_Some: "objs_map os key = Some x \<Longrightarrow> x \<in> set os \<and> key_of x = key"
  by (auto simp: objs_map_def dest: map_of_SomeD)

lemma objs_map_other:
  assumes "key \<notin> set (ingest_keys (stp_Namespace params) (stp_AppName params))"
  shows "objs_map (start_objects params p) key = None"
proof -
  have "key \<notin> dom (objs_map (start_objects params p))" using assms by simp
  then show ?thesis by (simp only: domIff not_not)
qed

lemma objs_map_in: "distinct (map key_of os) \<Longrightarrow> x \<in> set os \<Longrightarrow> objs_map os (key_of x) = Some x"
  unfolding objs_map_def by (rule map_of_is_SomeI) (auto simp: comp_def)

lemma schedule_perm:
  assumes "schedule sched" and "length xs = 6"
  shows "set (map (nth xs) sched) = set xs" and "distinct xs \<Longrightarrow> distinct (map (nth xs) sched)"
proof -
  show "set (map (nth xs) sched) = set xs"
    using assms by (auto simp: schedule_def in_set_conv_nth)
  assume "distinct xs"
  then show "distinct (map (nth xs) sched)"
    using assms by (auto simp: schedule_def distinct_map inj_on_def nth_eq_iff_index_eq)
qed

lemma objs_map_cong:
  assumes "distinct (map key_of xs)" "distinct (map key_of ys)" "set xs = set ys"
  shows "objs_map xs = objs_map ys"
  using assms unfolding objs_map_def by (subst map_of_inject_set) (simp_all add: comp_def)

text \<open>Creating objects with distinct keys: an object already stored under a key stays.\<close>

lemma run_creates_spec:
  assumes laws: "k8s_laws k cl"
    and "distinct (map key_of os)" and "run_creates k os w = (rs, w')"
  shows "cl w' = objs_map os ++ cl w
    \<and> ((\<forall>r\<in>set rs. r = None) \<longleftrightarrow> (\<forall>x\<in>set os. cl w (key_of x) = None))"
  using assms(2,3)
proof (induction os arbitrary: w rs)
  case Nil
  then show ?case by (simp add: objs_map_def)
next
  case (Cons x xs)
  obtain r w1 where create: "kc_Create k x w = (r, w1)" by fastforce
  obtain rs2 where rest: "run_creates k xs w1 = (rs2, w')" and rs: "rs = r # rs2"
    using Cons.prems(2) create by (auto split: prod.splits)
  have IH: "cl w' = objs_map xs ++ cl w1"
    "(\<forall>r\<in>set rs2. r = None) \<longleftrightarrow> (\<forall>y\<in>set xs. cl w1 (key_of y) = None)"
    using Cons.IH [OF _ rest] Cons.prems(1) by simp_all
  have new: "objs_map xs (key_of x) = None"
    using Cons.prems(1) dom_objs_map [of xs] by (auto simp: domIff)
  show ?case
  proof (cases "cl w (key_of x)")
    case None
    with k8s_create [OF laws, of w x] create
    have w1: "r = None" "cl w1 = (cl w)(key_of x \<mapsto> x)" by auto
    have "cl w' = objs_map (x # xs) ++ cl w"
      using IH(1) w1(2) None new by (auto simp: objs_map_def map_add_def fun_eq_iff split: option.splits)
    moreover have "key_of y \<noteq> key_of x" if "y \<in> set xs" for y
      using Cons.prems(1) that by (auto simp: image_iff)
    ultimately show ?thesis using IH(2) w1 None rs by auto
  next
    case (Some y)
    with k8s_create_taken [OF laws, of w x] create
    have w1: "r \<noteq> None" "w1 = w" by auto
    have "cl w' = objs_map (x # xs) ++ cl w"
      using IH(1) w1(2) Some by (auto simp: objs_map_def map_add_def fun_eq_iff split: option.splits)
    with w1 Some rs show ?thesis by auto
  qed
qed

section \<open>What starting does\<close>

lemma StartIngestSystem_full:
  assumes "GetPort ports = Some (None, ports)"
  shows "StartIngestSystem env sched params (ports, w) = Some (Some FullNodePortAssignedError, ports, w)"
  using assms by (simp add: StartIngestSystem_def)

lemma StartIngestSystem_port:
  assumes laws: "operator_laws env cl" and sched: "schedule sched" and wf: "port_range_wf ports"
    and get: "GetPort ports = Some (Some st, ports1)"
  shows "\<exists>w'. cl w' = objs_map (start_objects params (ps_port st)) ++ cl w \<and>
    (if \<forall>key\<in>set (ingest_keys (stp_Namespace params) (stp_AppName params)). cl w key = None
     then StartIngestSystem env sched params (ports, w) = Some (None, ports1, w')
     else \<exists>e. StartIngestSystem env sched params (ports, w) = Some (Some e, ports, w'))"
proof -
  let ?os = "start_objects params (ps_port st)"
  let ?xs = "map (\<lambda>i. ?os ! i) sched"
  have k8s: "k8s_laws (oe_k8s env) cl" and wait: "\<And>rs. oe_Wait env rs = None \<longleftrightarrow> (\<forall>r\<in>set rs. r = None)"
    using laws by (auto simp: operator_laws_def)
  obtain rs w' where run: "run_creates (oe_k8s env) ?xs w = (rs, w')" by fastforce
  have keys: "map key_of ?xs = map (nth (ingest_keys (stp_Namespace params) (stp_AppName params))) sched"
  proof -
    have "key_of (?os ! i) = ingest_keys (stp_Namespace params) (stp_AppName params) ! i" if "i < 6" for i
      using that nth_map [of i ?os key_of] by (simp only: keys_start_objects length_start_objects)
    then show ?thesis using sched by (simp add: schedule_def)
  qed
  then have distinct: "distinct (map key_of ?xs)"
    unfolding keys by (intro schedule_perm(2) [OF sched]) simp_all
  have set_eq: "set ?xs = set ?os" using schedule_perm(1) [OF sched, of ?os] by simp
  from run_creates_spec [OF k8s distinct run]
  have spec: "cl w' = objs_map ?xs ++ cl w"
    "(\<forall>r\<in>set rs. r = None) \<longleftrightarrow> (\<forall>x\<in>set ?os. cl w (key_of x) = None)"
    by (simp_all only: set_eq)
  have "objs_map ?xs = objs_map ?os"
    using distinct set_eq by (intro objs_map_cong) simp_all
  moreover have "(\<forall>x\<in>set ?os. cl w (key_of x) = None)
      \<longleftrightarrow> (\<forall>key\<in>set (ingest_keys (stp_Namespace params) (stp_AppName params)). cl w key = None)"
    by (simp flip: set_start_objects [of params "ps_port st"])
  moreover have "snd (PortBack ports1 (ps_port st)) = ports"
    using GetPort_Some(4) [OF wf get] by simp
  moreover have "StartIngestSystem env sched params (ports, w) =
      (case oe_Wait env rs of
         Some err \<Rightarrow> Some (Some (errorf ''unable deploy ingest system. Error: '' err),
           snd (PortBack ports1 (ps_port st)), w')
       | None \<Rightarrow> Some (None, ports1, w'))"
    using get run unfolding StartIngestSystem_def Port_def by simp
  ultimately show ?thesis
    using spec wait [of rs] by (intro exI [of _ w']) (cases "oe_Wait env rs"; simp)
qed

section \<open>What stopping does\<close>

definition owned_obj :: "(obj_key \<Rightarrow> k8s_object option) \<Rightarrow> string \<Rightarrow> obj_key \<Rightarrow> k8s_object option" where
  "owned_obj m app key =
     (case m key of
        None \<Rightarrow> None
      | Some x \<Rightarrow> if om_Labels (obj_meta x) OWNED_BY = Some app then Some x else None)"

definition stop_upd :: "nat \<Rightarrow> k8s_object \<Rightarrow> stop_vars \<Rightarrow> stop_vars" where
  "stop_upd i x v =
     (case x of
        ODeployment d \<Rightarrow> v\<lparr>sv_ingestDeployment := Some d,
            sv_broadcasterID := map_get (om_Labels (d_Meta d)) BROADCASTER_ID\<rparr>
      | OService s \<Rightarrow> if i = 2 then v\<lparr>sv_ingestWebrtcGatewayService := Some s\<rparr> else v
      | _ \<Rightarrow> v)"

lemma owned_obj_Some:
  "owned_obj m app key = Some x \<longleftrightarrow> m key = Some x \<and> om_Labels (obj_meta x) OWNED_BY = Some app"
  by (auto simp: owned_obj_def split: option.splits)

lemma owned_kind:
  assumes "k8s_laws k cl" and "owned_obj (cl w) app key = Some x"
  shows "obj_kind x = fst key" and "key_of x = key"
proof -
  from assms(2) have "cl w key = Some x" by (simp add: owned_obj_Some)
  with k8s_key [OF assms(1)] show "key_of x = key" by blast
  then show "obj_kind x = fst key" by (auto simp: key_of_def)
qed

lemma getter_owned:
  assumes "k8s_laws k cl"
  shows "GetIngestByAppName k ns app w = Inr d \<longleftrightarrow> owned_obj (cl w) app (KDeployment, ns, app) = Some (ODeployment d)"
    and "GetIngestServiceByAppName k ns n app w = Inr s \<longleftrightarrow> owned_obj (cl w) app (KService, ns, n) = Some (OService s)"
    and "GetIstioGatewayByAppName k ns n app w = Inr g \<longleftrightarrow> owned_obj (cl w) app (KGateway, ns, n) = Some (OGateway g)"
    and "GetIstioVirtualServiceByAppName k ns n app w = Inr v
      \<longleftrightarrow> owned_obj (cl w) app (KVirtualService, ns, n) = Some (OVirtualService v)"
  by (auto simp: GetIngestByAppName_def GetIngestServiceByAppName_def GetIstioGatewayByAppName_def
      GetIstioVirtualServiceByAppName_def owned_obj_Some k8s_gets [OF assms, symmetric] split: sum.splits)

text \<open>
  What looking an owned object up and deleting it comes to, for a getter that reads the key
  \<open>key\<close> and objects built by \<open>C\<close>.
\<close>

definition gets_and_deletes ::
  "'w k8s_client \<Rightarrow> ('w \<Rightarrow> obj_key \<Rightarrow> k8s_object option) \<Rightarrow> 'w \<Rightarrow> string \<Rightarrow> obj_key
    \<Rightarrow> goerr + 'a \<Rightarrow> ('a \<Rightarrow> k8s_object) \<Rightarrow> bool" where
  "gets_and_deletes k cl w app key r C \<longleftrightarrow>
     (owned_obj (cl w) app key = None \<and> (\<exists>e. r = Inl e))
   \<or> (\<exists>x w'. owned_obj (cl w) app key = Some (C x) \<and> r = Inr x
         \<and> kc_Delete k (C x) w = (None, w') \<and> cl w' = (cl w)(key := None))"

lemma get_and_delete:
  assumes laws: "k8s_laws k cl"
    and get: "\<And>x. r = Inr x \<longleftrightarrow> owned_obj (cl w) app key = Some (C x)"
    and kind: "\<And>y. obj_kind y = fst key \<Longrightarrow> \<exists>x. y = C x"
  shows "gets_and_deletes k cl w app key r C"
proof (cases "owned_obj (cl w) app key")
  case None
  with get have "\<nexists>x. r = Inr x" by auto
  with None show ?thesis by (cases r) (auto simp: gets_and_deletes_def)
next
  case (Some y)
  then have y: "cl w key = Some y" by (simp only: owned_obj_Some)
  then have key: "key_of y = key" by (rule k8s_key [OF laws])
  then obtain x where x: "y = C x" using kind [of y] by (auto simp: key_of_def)
  from k8s_delete [OF laws, of w y] y key
  obtain w' where "kc_Delete k y w = (None, w') \<and> cl w' = (cl w)(key := None)" by auto
  with Some x get show ?thesis unfolding gets_and_deletes_def by blast
qed

lemma obj_kind_cases:
  "obj_kind y = KDeployment \<Longrightarrow> \<exists>d. y = ODeployment d"
  "obj_kind y = KService \<Longrightarrow> \<exists>s. y = OService s"
  "obj_kind y = KGateway \<Longrightarrow> \<exists>g. y = OGateway g"
  "obj_kind y = KVirtualService \<Longrightarrow> \<exists>v. y = OVirtualService v"
  by (cases y; simp)+

lemma stop_gets:
  assumes laws: "k8s_laws k cl"
  shows "gets_and_deletes k cl w app (KDeployment, ns, app) (GetIngestByAppName k ns app w) ODeployment"
    and "gets_and_deletes k cl w app (KService, ns, n) (GetIngestServiceByAppName k ns n app w) OService"
    and "gets_and_deletes k cl w app (KGateway, ns, n) (GetIstioGatewayByAppName k ns n app w) OGateway"
    and "gets_and_deletes k cl w app (KVirtualService, ns, n)
      (GetIstioVirtualServiceByAppName k ns n app w) OVirtualService"
  by (rule get_and_delete [OF laws getter_owned(1) [OF laws]]
        get_and_delete [OF laws getter_owned(2) [OF laws]]
        get_and_delete [OF laws getter_owned(3) [OF laws]]
        get_and_delete [OF laws getter_owned(4) [OF laws]], simp add: obj_kind_cases)+

text \<open>One task: it deletes the object under its key when the ingest owns it.\<close>

lemma stop_task_spec:
  assumes laws: "k8s_laws k cl" and "i < 6"
  shows "(case owned_obj (cl w) app (ingest_keys ns app ! i) of
      None \<Rightarrow> \<exists>e. (stop_tasks k app ns ! i) (v, w) = (Some e, v, w)
    | Some x \<Rightarrow> \<exists>w'. (stop_tasks k app ns ! i) (v, w) = (None, stop_upd i x v, w')
        \<and> cl w' = (cl w)(ingest_keys ns app ! i := None))"
proof -
  note defs = gets_and_deletes_def stop_tasks_def ingest_keys_def Let_def stop_upd_def
  note gets = stop_gets [OF laws, of w app ns]
  from assms(2) consider "i = 0" | "i = 1" | "i = 2" | "i = 3" | "i = 4" | "i = 5" by linarith
  then show ?thesis
  proof cases
    case 1
    with gets(1) show ?thesis by (auto simp: defs)
  next
    case 2
    with gets(2) [of app] show ?thesis by (auto simp: defs)
  next
    case 3
    with gets(2) [of "app @ ''-webrtc-udp-gateway''"] show ?thesis
      by (auto simp: defs)
  next
    case 4
    with gets(2) [of "app @ ''-webrtc-tcp-gateway''"] show ?thesis
      by (auto simp: defs)
  next
    case 5
    with gets(3) [of "app @ ''-gateway''"] show ?thesis by (auto simp: defs)
  next
    case 6
    with gets(4) [of "app @ ''-virtual-service''"] show ?thesis
      by (auto simp: defs)
  qed
qed

text \<open>All tasks, one after another in any order.\<close>

definition stop_eff ::
  "(obj_key \<Rightarrow> k8s_object option) \<Rightarrow> string \<Rightarrow> string \<Rightarrow> nat \<Rightarrow> stop_vars \<Rightarrow> stop_vars" where
  "stop_eff m ns app i v =
     (case owned_obj m app (ingest_keys ns app ! i) of None \<Rightarrow> v | Some x \<Rightarrow> stop_upd i x v)"

definition stop_removes ::
  "(obj_key \<Rightarrow> k8s_object option) \<Rightarrow> string \<Rightarrow> obj_key set \<Rightarrow> obj_key \<Rightarrow> k8s_object option" where
  "stop_removes m app keys = (\<lambda>key. if key \<in> keys \<and> owned_obj m app key \<noteq> None then None else m key)"

lemma owned_obj_cong: "m key = m' key \<Longrightarrow> owned_obj m app key = owned_obj m' app key"
  by (simp add: owned_obj_def)

lemma stop_removes_one:
  "stop_removes m app {key} = (if owned_obj m app key = None then m else m(key := None))"
  by (auto simp: stop_removes_def fun_eq_iff)

lemma run_tasks_stop:
  assumes laws: "k8s_laws k cl" and "distinct is" and "set is \<subseteq> {0..<6}"
    and "run_tasks (map (nth (stop_tasks k app ns)) is) (v, w) = (rs, v', w')"
  shows "cl w' = stop_removes (cl w) app (nth (ingest_keys ns app) ` set is)
    \<and> v' = fold (stop_eff (cl w) ns app) is v
    \<and> ((\<forall>r\<in>set rs. r = None) \<longleftrightarrow> (\<forall>i\<in>set is. owned_obj (cl w) app (ingest_keys ns app ! i) \<noteq> None))"
  using assms(2-)
proof (induction "is" arbitrary: v w rs)
  case Nil
  then show ?case by (simp add: stop_removes_def)
next
  case (Cons i js)
  let ?key = "ingest_keys ns app ! i"
  obtain r v1 w1 where task: "(stop_tasks k app ns ! i) (v, w) = (r, v1, w1)"
    by (metis prod.exhaust)
  obtain rs2 where rest: "run_tasks (map (nth (stop_tasks k app ns)) js) (v1, w1) = (rs2, v', w')"
      and rs: "rs = r # rs2"
    using Cons.prems(3) task by (auto split: prod.splits)
  have i: "i < 6" "i \<notin> set js" "distinct js" "set js \<subseteq> {0..<6}" using Cons.prems(1,2) by auto
  have neq: "ingest_keys ns app ! j \<noteq> ?key" if "j \<in> set js" for j
    using that i by (subst nth_eq_iff_index_eq) auto
  have w1: "v1 = stop_eff (cl w) ns app i v" "r = None \<longleftrightarrow> owned_obj (cl w) app ?key \<noteq> None"
      "cl w1 = stop_removes (cl w) app {?key}"
    using stop_task_spec [OF laws i(1), where w = w and app = app and ns = ns and v = v] task
    by (auto simp: stop_eff_def stop_removes_one split: option.splits)
  have same: "owned_obj (cl w1) app (ingest_keys ns app ! j) = owned_obj (cl w) app (ingest_keys ns app ! j)"
    if "j \<in> set js" for j
    using neq [OF that] w1(3) by (intro owned_obj_cong) (simp add: stop_removes_def)
  note IH = Cons.IH [OF i(3,4) rest]
  have "fold (stop_eff (cl w1) ns app) js v1 = fold (stop_eff (cl w) ns app) js v1"
    by (intro fold_cong) (auto simp: stop_eff_def same fun_eq_iff)
  moreover have "stop_removes (cl w1) app (nth (ingest_keys ns app) ` set js)
      = stop_removes (cl w) app (nth (ingest_keys ns app) ` set (i # js))"
  proof
    fix key
    show "stop_removes (cl w1) app (nth (ingest_keys ns app) ` set js) key
      = stop_removes (cl w) app (nth (ingest_keys ns app) ` set (i # js)) key"
    proof (cases "key = ?key")
      case True
      then have "key \<notin> nth (ingest_keys ns app) ` set js" by (metis imageE neq)
      with True show ?thesis unfolding stop_removes_def w1(3) by simp
    next
      case False
      then have "cl w1 key = cl w key" by (simp add: w1(3) stop_removes_def)
      with False owned_obj_cong [of "cl w1" key "cl w" app] show ?thesis
        by (auto simp: stop_removes_def)
    qed
  qed
  ultimately show ?case using IH w1(1,2) same rs by auto
qed

lemma stop_eff_idle:
  assumes "k8s_laws k cl" and "i < 6" and "i \<noteq> 0" and "i \<noteq> 2"
  shows "stop_eff (cl w) ns app i = id"
proof
  fix v
  have i: "i \<in> {1, 3, 4, 5}" using assms(2-4) by auto
  show "stop_eff (cl w) ns app i v = id v"
  proof (cases "owned_obj (cl w) app (ingest_keys ns app ! i)")
    case (Some x)
    obtain kd n where key: "ingest_keys ns app ! i = (kd, ns, n)" and "kd \<noteq> KDeployment"
      using i by (auto simp: ingest_keys_def)
    with owned_kind(1) [OF assms(1) Some] have "obj_kind x \<noteq> KDeployment" by simp
    then show ?thesis using Some assms(4) by (cases x) (simp_all add: stop_eff_def stop_upd_def)
  qed (simp add: stop_eff_def)
qed

lemma stop_eff_commute:
  assumes laws: "k8s_laws k cl" and "i < 6" and "j < 6"
  shows "stop_eff (cl w) ns app i \<circ> stop_eff (cl w) ns app j
    = stop_eff (cl w) ns app j \<circ> stop_eff (cl w) ns app i"
proof -
  have "stop_eff (cl w) ns app 0 (stop_eff (cl w) ns app 2 v)
      = stop_eff (cl w) ns app 2 (stop_eff (cl w) ns app 0 v)" for v
    using owned_kind(1) [OF laws, of w app "(KDeployment, ns, app)"]
      owned_kind(1) [OF laws, of w app "(KService, ns, app @ ''-webrtc-udp-gateway'')"]
    by (auto simp: stop_eff_def stop_upd_def ingest_keys_def
        split: option.splits k8s_object.splits)
  moreover have "i = 0 \<or> i = 2 \<or> stop_eff (cl w) ns app i = id"
    "j = 0 \<or> j = 2 \<or> stop_eff (cl w) ns app j = id"
    using stop_eff_idle [OF laws] assms(2,3) by blast+
  ultimately show ?thesis by (auto simp: fun_eq_iff)
qed

lemma stop_eff_schedule:
  assumes laws: "k8s_laws k cl" and "schedule sched"
  shows "fold (stop_eff (cl w) ns app) sched v
    = stop_eff (cl w) ns app 2 (stop_eff (cl w) ns app 0 v)"
proof -
  have "mset sched = mset [0..<6]"
    using assms(2) by (intro set_eq_iff_mset_eq_distinct [THEN iffD1]) (auto simp: schedule_def)
  then have "fold (stop_eff (cl w) ns app) sched = fold (stop_eff (cl w) ns app) [0..<6]"
    using assms(2) by (intro fold_multiset_equiv stop_eff_commute [OF laws]) (auto simp: schedule_def)
  moreover have "[0..<6] = [0, 1, 2, 3, 4, 5]" by (simp add: upt_rec)
  ultimately show ?thesis
    using stop_eff_idle [OF laws, of _ w ns app] by simp
qed

section \<open>Stopping an ingest that runs, and one that does not\<close>

text \<open>A template none of whose ports bears the name of a WebRTC port.\<close>

definition template_ok :: "ingest_template \<Rightarrow> bool" where
  "template_ok t \<longleftrightarrow> list_all (\<lambda>port. cp_Name port \<noteq> DEFAULT_WEBRTC_TCP_PORT_NAME
     \<and> cp_Name port \<noteq> DEFAULT_WEBRTC_UDP_PORT_NAME) (it_Ports t)"

definition ingest_dep :: "start_params \<Rightarrow> 16 word \<Rightarrow> deployment" where
  "ingest_dep params p = IngestDeploymentByTemplate
     \<lparr>idp_Template = stp_Template params, idp_AppName = stp_AppName params,
      idp_Namespace = stp_Namespace params, idp_Replicas = 1, idp_Owner = stp_AppName params,
      idp_WebrtcPort = p, idp_BroadcasterID = stp_BroadcasterID params,
      idp_Username = stp_Username params\<rparr>"

definition ingest_udp :: "start_params \<Rightarrow> 16 word \<Rightarrow> service" where
  "ingest_udp params p = IngestWebrtcGatewayService
     \<lparr>isp_Template = stp_Template params, isp_ServiceName = stp_AppName params @ ''-webrtc-udp-gateway'',
      isp_AppName = stp_AppName params, isp_Namespace = stp_Namespace params,
      isp_Owner = stp_AppName params, isp_WebrtcPort = p\<rparr> ''UDP'' DEFAULT_WEBRTC_UDP_PORT_NAME"

lemma start_objects_nth:
  "start_objects params p ! 0 = ODeployment (ingest_dep params p)"
  "start_objects params p ! 2 = OService (ingest_udp params p)"
  by (simp_all add: start_objects_def ingest_dep_def ingest_udp_def Let_def)

lemma webrtc_container_port_append:
  "list_all (\<lambda>port. cp_Name port \<noteq> DEFAULT_WEBRTC_TCP_PORT_NAME
     \<and> cp_Name port \<noteq> DEFAULT_WEBRTC_UDP_PORT_NAME) ps \<Longrightarrow>
   webrtc_container_port (ps @ qs) = webrtc_container_port qs"
  by (induction ps) auto

lemma ucast_port [simp]: "ucast (ucast (p :: 16 word) :: 32 word) = p"
  by (rule bit_word_eqI) (simp add: bit_simps)

lemma found_port:
  "template_ok (stp_Template params) \<Longrightarrow>
   findFirstWebrtcPortInDeploymentOrService df (Some (ingest_dep params p)) (Some (ingest_udp params p))
     = Some (ucast p)"
  by (simp add: findFirstWebrtcPortInDeploymentOrService_def findDeploymentIngestWebrtcPort_def
      findServiceIngestWebrtcPort_def ingest_dep_def ingest_udp_def IngestDeploymentByTemplate_def
      IngestWebrtcGatewayService_def Let_def template_ok_def webrtc_container_port_append)

lemma broadcaster_label:
  "map_get (om_Labels (d_Meta (ingest_dep params p))) BROADCASTER_ID = stp_BroadcasterID params"
  by (simp add: ingest_dep_def IngestDeploymentByTemplate_def map_get_def Let_def)

text \<open>All six objects of an ingest are stored.\<close>

definition ingest_stored :: "(obj_key \<Rightarrow> k8s_object option) \<Rightarrow> start_params \<Rightarrow> 16 word \<Rightarrow> bool" where
  "ingest_stored m params p \<longleftrightarrow> (\<forall>x\<in>set (start_objects params p). m (key_of x) = Some x)"

lemma ingest_stored_nth:
  assumes "ingest_stored m params p" and "i < 6"
  shows "owned_obj m (stp_AppName params) (ingest_keys (stp_Namespace params) (stp_AppName params) ! i)
    = Some (start_objects params p ! i)"
proof -
  have x: "start_objects params p ! i \<in> set (start_objects params p)" using assms(2) by simp
  have "key_of (start_objects params p ! i) = ingest_keys (stp_Namespace params) (stp_AppName params) ! i"
    using assms(2) nth_map [of i "start_objects params p" key_of]
    by (simp only: keys_start_objects length_start_objects)
  with x assms(1) owner_start_objects [OF x] show ?thesis
    by (auto simp: ingest_stored_def owned_obj_Some)
qed

lemma nth_image_schedule:
  assumes "schedule sched"
  shows "nth (ingest_keys ns app) ` set sched = set (ingest_keys ns app)"
  using schedule_perm(1) [OF assms, of "ingest_keys ns app"] by simp

abbreviation no_vars :: stop_vars where
  "no_vars \<equiv> \<lparr>sv_broadcasterID = '''', sv_ingestDeployment = None, sv_ingestWebrtcGatewayService = None\<rparr>"

lemma StopIngestSystem_absent:
  assumes laws: "operator_laws env cl" and sched: "schedule sched"
    and absent: "\<forall>key\<in>set (ingest_keys ns app). owned_obj (cl w) app key = None"
  shows "\<exists>e w'. StopIngestSystem env sched df app ns (ports, w) = (Some e, ports, w') \<and> cl w' = cl w"
proof -
  have k8s: "k8s_laws (oe_k8s env) cl" and wait: "\<And>rs. oe_Wait env rs = None \<longleftrightarrow> (\<forall>r\<in>set rs. r = None)"
    using laws by (auto simp: operator_laws_def)
  obtain rs v w1 where run: "run_tasks (map (nth (stop_tasks (oe_k8s env) app ns)) sched) (no_vars, w) = (rs, v, w1)"
    by (metis prod.exhaust)
  have keys: "ingest_keys ns app ! i \<in> set (ingest_keys ns app)" if "i < 6" for i using that by simp
  from run_tasks_stop [OF k8s _ _ run] sched
  have spec: "cl w1 = stop_removes (cl w) app (set (ingest_keys ns app))"
    "v = fold (stop_eff (cl w) ns app) sched no_vars"
    "(\<forall>r\<in>set rs. r = None) \<longleftrightarrow> (\<forall>i\<in>{0..<6}. owned_obj (cl w) app (ingest_keys ns app ! i) \<noteq> None)"
    using nth_image_schedule [OF sched, of ns app] by (auto simp: schedule_def)
  have "cl w1 = cl w" unfolding spec(1) using absent by (auto simp: stop_removes_def fun_eq_iff)
  moreover have "v = no_vars"
    using spec(2) stop_eff_schedule [OF k8s sched] absent keys by (simp add: stop_eff_def)
  moreover have "owned_obj (cl w) app (ingest_keys ns app ! 0) = None" using absent keys [of 0] by simp
  then have "\<not> (\<forall>r\<in>set rs. r = None)" using spec(3) by auto
  then obtain e where "oe_Wait env rs = Some e" using wait by (cases "oe_Wait env rs") auto
  ultimately show ?thesis
    using run by (simp add: StopIngestSystem_def findFirstWebrtcPortInDeploymentOrService_def
        findDeploymentIngestWebrtcPort_def findServiceIngestWebrtcPort_def)
qed

lemma StopIngestSystem_run:
  assumes laws: "operator_laws env cl" and sched: "schedule sched"
    and stored: "ingest_stored (cl w) params p"
    and app: "app = stp_AppName params" "ns = stp_Namespace params"
  shows "\<exists>w1. cl w1 = (\<lambda>key. if key \<in> set (ingest_keys ns app) then None else cl w key)
    \<and> StopIngestSystem env sched df app ns (ports, w) =
        (let (back, ports1) = (case findFirstWebrtcPortInDeploymentOrService df
               (Some (ingest_dep params p)) (Some (ingest_udp params p)) of
               None \<Rightarrow> (None, ports) | Some q \<Rightarrow> PortBack ports (ucast q))
         in case back of
              Some err \<Rightarrow>
                (Some (errorf (''unable webrtc port back of '' @ oe_Addr env @ ''. Err: '') err), ports1, w1)
            | None \<Rightarrow>
                if stp_BroadcasterID params = '''' then
                  (Some (GoErr (''not found broadcasterID for '' @ ns @ ''/'' @ app)), ports1, w1)
                else (None, ports1, snd (sendDestroyNotification env (stp_BroadcasterID params) app w1)))"
proof -
  have k8s: "k8s_laws (oe_k8s env) cl" and wait: "\<And>rs. oe_Wait env rs = None \<longleftrightarrow> (\<forall>r\<in>set rs. r = None)"
    using laws by (auto simp: operator_laws_def)
  obtain rs v w1 where run: "run_tasks (map (nth (stop_tasks (oe_k8s env) app ns)) sched) (no_vars, w) = (rs, v, w1)"
    by (metis prod.exhaust)
  have own: "owned_obj (cl w) app (ingest_keys ns app ! i) = Some (start_objects params p ! i)" if "i < 6" for i
    using ingest_stored_nth [OF stored that] app by simp
  from run_tasks_stop [OF k8s _ _ run] sched
  have spec: "cl w1 = stop_removes (cl w) app (set (ingest_keys ns app))"
    "v = fold (stop_eff (cl w) ns app) sched no_vars"
    "(\<forall>r\<in>set rs. r = None) \<longleftrightarrow> (\<forall>i\<in>{0..<6}. owned_obj (cl w) app (ingest_keys ns app ! i) \<noteq> None)"
    using nth_image_schedule [OF sched, of ns app] by (auto simp: schedule_def)
  have "oe_Wait env rs = None" using spec(3) own wait by simp
  moreover have "v = \<lparr>sv_broadcasterID = stp_BroadcasterID params,
      sv_ingestDeployment = Some (ingest_dep params p),
      sv_ingestWebrtcGatewayService = Some (ingest_udp params p)\<rparr>"
    using spec(2) stop_eff_schedule [OF k8s sched] own [of 0] own [of 2]
    by (simp add: stop_eff_def stop_upd_def start_objects_nth broadcaster_label)
  moreover have "cl w1 = (\<lambda>key. if key \<in> set (ingest_keys ns app) then None else cl w key)"
  proof -
    have "owned_obj (cl w) app key \<noteq> None" if "key \<in> set (ingest_keys ns app)" for key
      using that own by (auto simp only: in_set_conv_nth length_ingest_keys)
    then show ?thesis unfolding spec(1) by (auto simp: stop_removes_def fun_eq_iff)
  qed
  ultimately show ?thesis
    using run by (intro exI [of _ w1]) (simp add: StopIngestSystem_def split: prod.split option.split)
qed

lemma StopIngestSystem_stored:
  assumes laws: "operator_laws env cl" and sched: "schedule sched"
    and stored: "ingest_stored (cl w) params p" and tmpl: "template_ok (stp_Template params)"
    and bid: "stp_BroadcasterID params \<noteq> ''''"
    and app: "app = stp_AppName params" "ns = stp_Namespace params"
    and ret: "PortBack ports p = (None, ports1)"
  shows "\<exists>w1. cl w1 = (\<lambda>key. if key \<in> set (ingest_keys ns app) then None else cl w key)
    \<and> StopIngestSystem env sched df app ns (ports, w) =
        (None, ports1, snd (sendDestroyNotification env (stp_BroadcasterID params) app w1))"
  using StopIngestSystem_run [OF laws sched stored app, of df ports] found_port [OF tmpl, of df p] ret bid
  by simp

lemma sendDestroyNotification_cl:
  assumes "operator_laws env cl"
  shows "cl (snd (sendDestroyNotification env b app w)) = cl w"
  using assms by (simp add: sendDestroyNotification_def JsPublishProtobufWithID_def operator_laws_def
      split: sum.splits)

end
