(* ===== verification/IngestLifecycle.thy ===== *)
theory IngestLifecycle imports IngestSystem begin

text \<open>
  The life of ingest systems under one operator: starting and stopping refine an abstract machine
  that knows only which applications run and on which node port.  The relation holds for a set of
  application names whose derived object names do not collide, against a healthy API server.  The
  theorems at the end say what this gives, and what the code does where it does not hold: a failed
  start, names that collide, a template with a reserved port name.
\<close>

section \<open>What the operator promises\<close>

type_synonym runs = "string \<Rightarrow> (start_params \<times> port) option"

datatype ingest_op = OpStart "nat list" start_params | OpStop "nat list" bool string

definition ports_in_use :: "runs \<Rightarrow> port set" where
  "ports_in_use run = snd ` ran run"

lemma ports_in_use_iff: "p \<in> ports_in_use run \<longleftrightarrow> (\<exists>a params. run a = Some (params, p))"
  by (force simp: ports_in_use_def ran_def)

inductive spec_step :: "port \<Rightarrow> port \<Rightarrow> ingest_op \<Rightarrow> bool \<Rightarrow> runs \<Rightarrow> runs \<Rightarrow> bool" for lo hi where
  spec_start: "run (stp_AppName params) = None \<Longrightarrow> p \<in> {lo..hi} \<Longrightarrow> p \<notin> ports_in_use run \<Longrightarrow>
    spec_step lo hi (OpStart sched params) True run (run(stp_AppName params \<mapsto> (params, p)))"
| spec_full: "{lo..hi} \<subseteq> ports_in_use run \<Longrightarrow> spec_step lo hi (OpStart sched params) False run run"
| spec_running: "run (stp_AppName params) \<noteq> None \<Longrightarrow> spec_step lo hi (OpStart sched params) False run run"
| spec_stop: "run app \<noteq> None \<Longrightarrow> spec_step lo hi (OpStop sched df app) True run (run(app := None))"
| spec_stopped: "run app = None \<Longrightarrow> spec_step lo hi (OpStop sched df app) False run run"

inductive_cases spec_start_cases: "spec_step lo hi (OpStart sched params) b run run'"
inductive_cases spec_stop_cases: "spec_step lo hi (OpStop sched df app) b run run'"

lemma ports_in_use_upd:
  "run a = None \<Longrightarrow> ports_in_use (run(a \<mapsto> (x, p))) = insert p (ports_in_use run)"
  by (simp add: ports_in_use_def)

lemma ports_in_use_del:
  assumes "run a = Some (x, p)" and inj: "\<And>b y. run b = Some (y, p) \<Longrightarrow> b = a"
  shows "ports_in_use (run(a := None)) = ports_in_use run - {p}"
proof (intro set_eqI iffI)
  fix q assume "q \<in> ports_in_use (run(a := None))"
  then obtain b y where "b \<noteq> a" "run b = Some (y, q)"
    by (auto simp: ports_in_use_iff split: if_splits)
  then show "q \<in> ports_in_use run - {p}" using inj by (auto simp: ports_in_use_iff)
next
  fix q assume "q \<in> ports_in_use run - {p}"
  then obtain b y where "run b = Some (y, q)" "q \<noteq> p" by (auto simp: ports_in_use_iff)
  with assms(1) have "(run(a := None)) b = Some (y, q)" by auto
  then show "q \<in> ports_in_use (run(a := None))" unfolding ports_in_use_iff by blast
qed

lemma spec_step_inj:
  assumes "spec_step lo hi oper b run run'"
    and "\<And>a c x y p. run a = Some (x, p) \<Longrightarrow> run c = Some (y, p) \<Longrightarrow> a = c"
    and "run' a = Some (x, p)" and "run' c = Some (y, p)"
  shows "a = c"
  using assms by (cases rule: spec_step.cases) (auto simp: ports_in_use_iff split: if_splits)

section \<open>The operations and the relation\<close>

fun exec_op :: "'w operator_env \<Rightarrow> string \<Rightarrow> ingest_op \<Rightarrow> port_range \<times> 'w
    \<Rightarrow> (goerr option \<times> port_range \<times> 'w) option" where
  "exec_op env ns (OpStart sched params) s = StartIngestSystem env sched params s"
| "exec_op env ns (OpStop sched df app) s = Some (StopIngestSystem env sched df app ns s)"

definition params_ok :: "string set \<Rightarrow> string \<Rightarrow> start_params \<Rightarrow> bool" where
  "params_ok A ns params \<longleftrightarrow> stp_AppName params \<in> A \<and> stp_Namespace params = ns
     \<and> template_ok (stp_Template params) \<and> stp_BroadcasterID params \<noteq> ''''"

fun op_ok :: "string set \<Rightarrow> string \<Rightarrow> ingest_op \<Rightarrow> bool" where
  "op_ok A ns (OpStart sched params) = (schedule sched \<and> params_ok A ns params)"
| "op_ok A ns (OpStop sched df app) = (schedule sched \<and> app \<in> A)"

text \<open>No name derived from one application is derived from another.\<close>

definition apps_ok :: "string set \<Rightarrow> string \<Rightarrow> bool" where
  "apps_ok A ns \<longleftrightarrow> (\<forall>a\<in>A. \<forall>b\<in>A. a \<noteq> b \<longrightarrow> set (ingest_keys ns a) \<inter> set (ingest_keys ns b) = {})"

definition sys_rel ::
  "'w operator_env \<Rightarrow> ('w \<Rightarrow> obj_key \<Rightarrow> k8s_object option) \<Rightarrow> string set \<Rightarrow> string \<Rightarrow> port \<Rightarrow> port
    \<Rightarrow> port_range \<times> 'w \<Rightarrow> runs \<Rightarrow> bool" where
  "sys_rel env cl A ns lo hi s run \<longleftrightarrow>
     operator_laws env cl \<and> apps_ok A ns
   \<and> port_range_wf (fst s) \<and> portMin (fst s) = lo \<and> portMax (fst s) = hi
   \<and> dom (busyPortRange (fst s)) = ports_in_use run
   \<and> (\<forall>a params p. run a = Some (params, p) \<longrightarrow>
        stp_AppName params = a \<and> params_ok A ns params \<and> ingest_stored (cl (snd s)) params p)
   \<and> (\<forall>a b x y p. run a = Some (x, p) \<longrightarrow> run b = Some (y, p) \<longrightarrow> a = b)
   \<and> (\<forall>a\<in>A. run a = None \<longrightarrow> (\<forall>key\<in>set (ingest_keys ns a). cl (snd s) key = None))"

lemma sys_relD:
  assumes "sys_rel env cl A ns lo hi (ports, w) run"
  shows "operator_laws env cl" "apps_ok A ns" "port_range_wf ports" "portMin ports = lo" "portMax ports = hi"
    and "dom (busyPortRange ports) = ports_in_use run"
    and "run a = Some (params, p) \<Longrightarrow> stp_AppName params = a"
    and "run a = Some (params, p) \<Longrightarrow> params_ok A ns params"
    and "run a = Some (params, p) \<Longrightarrow> ingest_stored (cl w) params p"
    and "run a = Some (params, p) \<Longrightarrow> run b = Some (params', p) \<Longrightarrow> a = b"
    and "a \<in> A \<Longrightarrow> run a = None \<Longrightarrow> key \<in> set (ingest_keys ns a) \<Longrightarrow> cl w key = None"
  using assms unfolding sys_rel_def fst_conv snd_conv by blast+

lemma sys_relI:
  assumes "operator_laws env cl" "apps_ok A ns" "port_range_wf ports" "portMin ports = lo" "portMax ports = hi"
    and "dom (busyPortRange ports) = ports_in_use run"
    and "\<And>a params p. run a = Some (params, p) \<Longrightarrow>
      stp_AppName params = a \<and> params_ok A ns params \<and> ingest_stored (cl w) params p"
    and "\<And>a b params params' p. run a = Some (params, p) \<Longrightarrow> run b = Some (params', p) \<Longrightarrow> a = b"
    and "\<And>a key. a \<in> A \<Longrightarrow> run a = None \<Longrightarrow> key \<in> set (ingest_keys ns a) \<Longrightarrow> cl w key = None"
  shows "sys_rel env cl A ns lo hi (ports, w) run"
proof -
  have "\<forall>a params p. run a = Some (params, p) \<longrightarrow>
      stp_AppName params = a \<and> params_ok A ns params \<and> ingest_stored (cl w) params p"
    using assms(7) by simp
  moreover have "\<forall>a b x y p. run a = Some (x, p) \<longrightarrow> run b = Some (y, p) \<longrightarrow> a = b"
    using assms(8) by simp
  moreover have "\<forall>a\<in>A. run a = None \<longrightarrow> (\<forall>key\<in>set (ingest_keys ns a). cl w key = None)"
    using assms(9) by simp
  ultimately show ?thesis using assms(1-6) unfolding sys_rel_def fst_conv snd_conv by simp
qed

lemma sys_rel_cong:
  "sys_rel env cl A ns lo hi (ports, w) run \<Longrightarrow> cl w' = cl w \<Longrightarrow> sys_rel env cl A ns lo hi (ports, w') run"
  by (simp add: sys_rel_def)

lemma apps_ok_key:
  "apps_ok A ns \<Longrightarrow> a \<in> A \<Longrightarrow> b \<in> A \<Longrightarrow> key \<in> set (ingest_keys ns a) \<Longrightarrow> key \<in> set (ingest_keys ns b) \<Longrightarrow> a = b"
  unfolding apps_ok_def by blast

lemma key_of_start_object:
  "x \<in> set (start_objects params p) \<Longrightarrow>
   key_of x \<in> set (ingest_keys (stp_Namespace params) (stp_AppName params))"
  unfolding set_start_objects [of params p, symmetric] by (rule imageI)

lemma ingest_stored_mono:
  "ingest_stored m params p \<Longrightarrow> (\<And>key x. m key = Some x \<Longrightarrow>
     key \<in> set (ingest_keys (stp_Namespace params) (stp_AppName params)) \<Longrightarrow> m' key = Some x)
   \<Longrightarrow> ingest_stored m' params p"
  unfolding ingest_stored_def using set_start_objects [of params p] by blast

lemma ingest_stored_new:
  assumes "\<And>key. key \<in> set (ingest_keys (stp_Namespace params) (stp_AppName params)) \<Longrightarrow> m key = None"
  shows "ingest_stored (objs_map (start_objects params p) ++ m) params p"
proof -
  have "objs_map (start_objects params p) (key_of x) = Some x" if "x \<in> set (start_objects params p)" for x
    using that by (intro objs_map_in) simp_all
  moreover have "m (key_of x) = None" if "x \<in> set (start_objects params p)" for x
    using assms [OF key_of_start_object [OF that]] .
  ultimately show ?thesis by (auto simp: ingest_stored_def map_add_def)
qed

lemma ingest_stored_keys:
  "ingest_stored m params p \<Longrightarrow> key \<in> set (ingest_keys (stp_Namespace params) (stp_AppName params))
   \<Longrightarrow> m key \<noteq> None"
  unfolding ingest_stored_def set_start_objects [of params p, symmetric] by auto

lemma sys_rel_started:
  assumes rel: "sys_rel env cl A ns lo hi (ports, w) run" and params: "params_ok A ns params"
    and new: "run (stp_AppName params) = None" "p \<notin> ports_in_use run"
    and ports1: "ports1 = ports\<lparr>busyPortRange := (busyPortRange ports)(p \<mapsto> st)\<rparr>" "port_range_wf ports1"
    and w': "cl w' = objs_map (start_objects params p) ++ cl w"
  shows "sys_rel env cl A ns lo hi (ports1, w') (run(stp_AppName params \<mapsto> (params, p)))"
proof -
  let ?app = "stp_AppName params" let ?run = "run(?app \<mapsto> (params, p))"
  have apps: "apps_ok A ns" and A: "?app \<in> A" and ns: "stp_Namespace params = ns"
    using params sys_relD(2) [OF rel] by (auto simp: params_ok_def)
  have fresh: "cl w key = None" if "key \<in> set (ingest_keys ns ?app)" for key
    using sys_relD(11) [OF rel A new(1) that] .
  have keep: "cl w' key = Some x" if "cl w key = Some x" for key x
    using that by (simp add: w')
  have stored: "stp_AppName q = a \<and> params_ok A ns q \<and> ingest_stored (cl w') q pq"
    if "?run a = Some (q, pq)" for a q pq
  proof (cases "a = ?app")
    case True
    with that have "q = params" "pq = p" by auto
    with True params show ?thesis
      using ingest_stored_new [of params "cl w" p] fresh ns by (simp add: w')
  next
    case False
    with that have "run a = Some (q, pq)" by simp
    note facts = sys_relD(7-9) [OF rel this]
    from facts(3) have "ingest_stored (cl w') q pq" by (rule ingest_stored_mono) (rule keep)
    with facts show ?thesis by simp
  qed
  have absent: "cl w' key = None" if "a \<in> A" "?run a = None" "key \<in> set (ingest_keys ns a)" for a key
  proof -
    have "a \<noteq> ?app" and none: "run a = None" using that(2) by (auto split: if_splits)
    then have "key \<notin> set (ingest_keys ns ?app)" using apps_ok_key [OF apps that(1) A that(3)] by auto
    then have "objs_map (start_objects params p) key = None" using ns by (simp add: objs_map_other)
    moreover have "cl w key = None" by (rule sys_relD(11) [OF rel that(1) none that(3)])
    ultimately show ?thesis by (simp add: w' map_add_def)
  qed
  have inj: "a = b" if "?run a = Some (x, q)" "?run b = Some (y, q)" for a b x y q
    using that sys_relD(10) [OF rel] new(2) by (auto simp: ports_in_use_iff split: if_splits)
  have used: "dom (busyPortRange ports1) = ports_in_use ?run"
    using sys_relD(6) [OF rel] ports1(1) ports_in_use_upd [of run, OF new(1)] by simp
  show ?thesis
    using sys_relD(1,2,4,5) [OF rel] ports1 used
    by (intro sys_relI stored inj absent) simp_all
qed

lemma sys_rel_start:
  assumes rel: "sys_rel env cl A ns lo hi (ports, w) run" and ok: "schedule sched" "params_ok A ns params"
  shows "\<exists>e s' run'. StartIngestSystem env sched params (ports, w) = Some (e, s')
    \<and> spec_step lo hi (OpStart sched params) (e = None) run run' \<and> sys_rel env cl A ns lo hi s' run'"
proof -
  let ?app = "stp_AppName params"
  from rel have laws: "operator_laws env cl" and wf: "port_range_wf ports" and apps: "apps_ok A ns"
    and range: "portMin ports = lo" "portMax ports = hi"
    and used: "dom (busyPortRange ports) = ports_in_use run"
    by (simp_all add: sys_relD(1-6) [OF rel])
  from ok(2) have ns: "stp_Namespace params = ns" and A: "?app \<in> A" by (simp_all add: params_ok_def)
  from wf show ?thesis
  proof (cases rule: GetPort_cases)
    case full
    then have "spec_step lo hi (OpStart sched params) False run run"
      using range used by (intro spec_full) simp
    with StartIngestSystem_full [OF full(1)] rel show ?thesis by fastforce
  next
    case (free p st ports1)
    from StartIngestSystem_port [OF laws ok(1) wf free(1)] free(2) obtain w' where
      w': "cl w' = objs_map (start_objects params p) ++ cl w" and
      res: "if \<forall>key\<in>set (ingest_keys ns ?app). cl w key = None
        then StartIngestSystem env sched params (ports, w) = Some (None, ports1, w')
        else \<exists>e. StartIngestSystem env sched params (ports, w) = Some (Some e, ports, w')"
      using ns by auto
    show ?thesis
    proof (cases "run ?app")
      case None
      then have fresh: "\<forall>key\<in>set (ingest_keys ns ?app). cl w key = None"
        using sys_relD(11) [OF rel A] by blast
      have unused: "p \<notin> ports_in_use run" and "p \<in> {lo..hi}" using free(3,4) used range by auto
      then have step: "spec_step lo hi (OpStart sched params) True run (run(?app \<mapsto> (params, p)))"
        using None by (intro spec_start)
      have "sys_rel env cl A ns lo hi (ports1, w') (run(?app \<mapsto> (params, p)))"
        by (rule sys_rel_started [OF rel ok(2) None unused free(6,7) w'])
      with step fresh res show ?thesis by fastforce
    next
      case (Some x)
      then obtain q params' where run: "run ?app = Some (params', q)" by (cases x) auto
      have st: "ingest_stored (cl w) params' q" "stp_AppName params' = ?app" "stp_Namespace params' = ns"
        using sys_relD(7-9) [OF rel run] by (simp_all add: params_ok_def)
      with ingest_stored_keys [OF st(1)] have taken: "\<forall>key\<in>set (ingest_keys ns ?app). cl w key \<noteq> None" by simp
      have "cl w' = cl w"
      proof
        fix key
        show "cl w' key = cl w key"
          using taken objs_map_Some [of "start_objects params p" key] key_of_start_object [of _ params p] ns
          by (cases "objs_map (start_objects params p) key") (auto simp: w' map_add_def split: option.split)
      qed
      then have rel': "sys_rel env cl A ns lo hi (ports, w') run" by (rule sys_rel_cong [OF rel])
      have "\<not> (\<forall>key\<in>set (ingest_keys ns ?app). cl w key = None)"
        using taken by (auto simp: ingest_keys_def)
      with res obtain e where "StartIngestSystem env sched params (ports, w) = Some (Some e, ports, w')"
        by (auto split: if_splits)
      moreover have "spec_step lo hi (OpStart sched params) False run run"
        using Some by (intro spec_running) simp
      ultimately show ?thesis using rel' by (metis option.distinct(1))
    qed
  qed
qed

lemma sys_rel_stopped:
  assumes rel: "sys_rel env cl A ns lo hi (ports, w) run" and run: "run app = Some (params, p)"
    and w': "cl w' = (\<lambda>key. if key \<in> set (ingest_keys ns app) then None else cl w key)"
  shows "sys_rel env cl A ns lo hi
    (ports\<lparr>busyPortRange := (busyPortRange ports)(p := None)\<rparr>, w') (run(app := None))"
proof -
  let ?ports = "ports\<lparr>busyPortRange := (busyPortRange ports)(p := None)\<rparr>" let ?run = "run(app := None)"
  note rels = sys_relD [OF rel]
  from rels(7,8) [OF run] have A: "app \<in> A" by (auto simp: params_ok_def)
  have wf: "port_range_wf ?ports" using rels(3) by (auto simp: port_range_wf_def)
  have used: "dom (busyPortRange ?ports) = ports_in_use ?run"
    using rels(6) ports_in_use_del [of run, OF run] rels(10) [OF _ run] by simp
  have stored: "stp_AppName q = a \<and> params_ok A ns q \<and> ingest_stored (cl w') q pq"
    if "?run a = Some (q, pq)" for a q pq
  proof -
    from that have neq: "a \<noteq> app" and run_a: "run a = Some (q, pq)" by (auto split: if_splits)
    note facts = rels(7-9) [OF run_a]
    have q: "stp_Namespace q = ns" "a \<in> A" using facts(1,2) by (auto simp: params_ok_def)
    have "ingest_stored (cl w') q pq"
    proof (rule ingest_stored_mono [OF facts(3)])
      fix key x
      assume "cl w key = Some x" and key: "key \<in> set (ingest_keys (stp_Namespace q) (stp_AppName q))"
      moreover have "key \<notin> set (ingest_keys ns app)"
        using apps_ok_key [OF rels(2) q(2) A, of key] key neq facts(1) q(1) by auto
      ultimately show "cl w' key = Some x" by (simp add: w')
    qed
    with facts show ?thesis by simp
  qed
  have absent: "cl w' key = None" if "a \<in> A" "?run a = None" "key \<in> set (ingest_keys ns a)" for a key
    using that rels(11) [OF that(1) _ that(3)] by (cases "a = app") (auto simp: w')
  have inj: "a = b" if "?run a = Some (x, q)" "?run b = Some (y, q)" for a b x y q
    using that rels(10) by (auto split: if_splits)
  show ?thesis
    by (rule sys_relI [OF rels(1,2) wf _ _ used stored inj absent]) (simp_all add: rels(4,5))
qed

text \<open>Stopping a running ingest: its objects go, its port is returned and its broadcaster's notice is sent.\<close>

lemma running_stop:
  assumes rel: "sys_rel env cl A ns lo hi (ports, w) run" and sched: "schedule sched" and run: "run app = Some (params, p)"
  obtains w1 where "cl w1 = (\<lambda>key. if key \<in> set (ingest_keys ns app) then None else cl w key)"
    and "StopIngestSystem env sched df app ns (ports, w) = (None, ports\<lparr>busyPortRange := (busyPortRange ports)(p := None)\<rparr>,
       snd (sendDestroyNotification env (stp_BroadcasterID params) app w1))"
proof -
  note facts = sys_relD(7-9) [OF rel run]
  have q: "app = stp_AppName params" "ns = stp_Namespace params" "template_ok (stp_Template params)"
      "stp_BroadcasterID params \<noteq> ''''"
    using facts(1,2) by (auto simp: params_ok_def)
  have "p \<in> dom (busyPortRange ports)"
    using run sys_relD(6) [OF rel] by (auto simp: ports_in_use_iff)
  from StopIngestSystem_stored [OF sys_relD(1) [OF rel] sched facts(3) q(3,4,1,2) PortBack_busy [OF sys_relD(3) [OF rel] this]]
  show ?thesis using that by blast
qed

lemma sys_rel_stop:
  assumes rel: "sys_rel env cl A ns lo hi (ports, w) run" and sched: "schedule sched" and A: "app \<in> A"
  shows "\<exists>e s' run'. StopIngestSystem env sched df app ns (ports, w) = (e, s')
    \<and> spec_step lo hi (OpStop sched df app) (e = None) run run' \<and> sys_rel env cl A ns lo hi s' run'"
proof (cases "run app")
  case None
  with sys_relD(11) [OF rel A] have "\<forall>key\<in>set (ingest_keys ns app). owned_obj (cl w) app key = None"
    by (simp add: owned_obj_def)
  from StopIngestSystem_absent [OF sys_relD(1) [OF rel] sched this]
  obtain e w' where stop: "StopIngestSystem env sched df app ns (ports, w) = (Some e, ports, w')" and "cl w' = cl w"
    by blast
  moreover have "spec_step lo hi (OpStop sched df app) False run run" using None by (rule spec_stopped)
  moreover have "sys_rel env cl A ns lo hi (ports, w') run"
    using \<open>cl w' = cl w\<close> by (rule sys_rel_cong [OF rel])
  ultimately show ?thesis by (intro exI [of _ "Some e"] exI [of _ "(ports, w')"] exI [of _ run]) simp
next
  case (Some x)
  then obtain params p where run: "run app = Some (params, p)" by (cases x) auto
  obtain w1 where w1: "cl w1 = (\<lambda>key. if key \<in> set (ingest_keys ns app) then None else cl w key)"
    and stop: "StopIngestSystem env sched df app ns (ports, w) =
      (None, ports\<lparr>busyPortRange := (busyPortRange ports)(p := None)\<rparr>,
       snd (sendDestroyNotification env (stp_BroadcasterID params) app w1))" by (rule running_stop [OF rel sched run])
  have "sys_rel env cl A ns lo hi (ports\<lparr>busyPortRange := (busyPortRange ports)(p := None)\<rparr>,
       snd (sendDestroyNotification env (stp_BroadcasterID params) app w1)) (run(app := None))"
    using w1 sendDestroyNotification_cl [OF sys_relD(1) [OF rel]]
    by (intro sys_rel_stopped [OF rel run]) simp
  moreover have "spec_step lo hi (OpStop sched df app) True run (run(app := None))"
    using run by (intro spec_stop) simp
  ultimately show ?thesis
    by (intro exI [of _ "None :: goerr option"] exI [of _ "(ports\<lparr>busyPortRange := (busyPortRange ports)(p := None)\<rparr>,
       snd (sendDestroyNotification env (stp_BroadcasterID params) app w1))"] exI [of _ "run(app := None)"]) (simp add: stop)
qed

interpretation lc: forward_simulation "sys_rel env cl A ns lo hi" "op_ok A ns" "exec_op env ns" "spec_step lo hi"
  for env cl A ns lo hi
proof unfold_locales
  fix s run oper
  assume rel: "sys_rel env cl A ns lo hi s run" and ok: "op_ok A ns oper"
  obtain ports w where s: "s = (ports, w)" by (cases s)
  show "\<exists>e s' a'. exec_op env ns oper s = Some (e, s') \<and> spec_step lo hi oper (e = None) run a'
    \<and> sys_rel env cl A ns lo hi s' a'"
  proof (cases oper)
    case (OpStart sched params)
    with ok rel s sys_rel_start [of env cl A ns lo hi ports w run sched params] show ?thesis by simp
  next
    case (OpStop sched df app)
    with ok rel s sys_rel_stop [of env cl A ns lo hi ports w run sched app df] show ?thesis by simp
  qed
qed

section \<open>A fresh operator\<close>

lemma sys_rel_fresh:
  assumes "operator_laws env cl" "apps_ok A ns" "NewPortRange lo hi = Inr ports"
    and "\<And>a key. a \<in> A \<Longrightarrow> key \<in> set (ingest_keys ns a) \<Longrightarrow> cl w key = None"
  shows "sys_rel env cl A ns lo hi (ports, w) Map.empty"
  using assms NewPortRange_wf [OF assms(3)] by (intro sys_relI) (auto simp: ports_in_use_def)

lemma ingest_stored_dep:
  assumes "ingest_stored m params p"
  shows "m (KDeployment, stp_Namespace params, stp_AppName params) = Some (ODeployment (ingest_dep params p))"
proof -
  have "ODeployment (ingest_dep params p) \<in> set (start_objects params p)"
    using start_objects_nth(1) [of params p] nth_mem [of 0 "start_objects params p"] by simp
  moreover have "key_of (ODeployment (ingest_dep params p))
      = (KDeployment, stp_Namespace params, stp_AppName params)"
    by (simp add: key_of_def ingest_dep_def IngestDeploymentByTemplate_def Let_def)
  ultimately show ?thesis using assms by (auto simp: ingest_stored_def)
qed

lemma find_ingest_dep:
  "template_ok (stp_Template params) \<Longrightarrow>
   findDeploymentIngestWebrtcPort (Some (ingest_dep params p)) = Some (ucast p)"
  by (simp add: template_ok_def findDeploymentIngestWebrtcPort_def ingest_dep_def
      IngestDeploymentByTemplate_def Let_def webrtc_container_port_append)

lemma sys_rel_deployments:
  assumes rel: "sys_rel env cl A ns lo hi (ports, w) run" and a: "a \<in> A"
    and d: "cl w (KDeployment, ns, a) = Some (ODeployment d)"
  shows "\<exists>params p. run a = Some (params, p) \<and> findDeploymentIngestWebrtcPort (Some d) = Some (ucast p)"
proof -
  have key: "(KDeployment, ns, a) \<in> set (ingest_keys ns a)" by (simp add: ingest_keys_def)
  then have "run a \<noteq> None" using sys_relD(11) [OF rel a] d by fastforce
  then obtain params p where run: "run a = Some (params, p)" by auto
  note facts = sys_relD(7-9) [OF rel run]
  have "d = ingest_dep params p"
    using ingest_stored_dep [OF facts(3)] facts(1,2) d by (simp add: params_ok_def)
  then show ?thesis using run facts(2) find_ingest_dep by (auto simp: params_ok_def)
qed

section \<open>An operator in memory\<close>

definition mem_bus :: "mem_world bus" where
  "mem_bus =
     \<lparr>pb_Marshal = (\<lambda>m. case m of MDeployed d \<Rightarrow> Inl (GoErr ''not used'')
          | MDestroyed d \<Rightarrow> (case Destroyed_Meta d of None \<Rightarrow> Inr '''' | Some b \<Rightarrow> Inr (BroadcasterId b))),
      pb_Unmarshal_deployed = (\<lambda>s. Inl (GoErr ''not used'')),
      pb_Unmarshal_destroyed = (\<lambda>s. Inl (GoErr ''not used'')),
      nats_Publish = (\<lambda>s m w. (None, w\<lparr>mw_published := (s, m) # mw_published w\<rparr>)),
      js_PublishMsg = (\<lambda>s m w. (None, w\<lparr>mw_published := (s, m) # mw_published w\<rparr>))\<rparr>"

fun first_error :: "goerr option list \<Rightarrow> goerr option" where
  "first_error [] = None"
| "first_error (None # rs) = first_error rs"
| "first_error (Some e # rs) = Some e"

definition mem_env :: "mem_world operator_env" where
  "mem_env = \<lparr>oe_k8s = mem_k8s, oe_bus = mem_bus,
     oe_Wait = first_error, oe_Addr = ''0xc0''\<rparr>"

definition mem_empty :: mem_world where
  "mem_empty = \<lparr>mw_objects = [], mw_published = []\<rparr>"

lemma mem_env_laws: "operator_laws mem_env mem_cl"
proof -
  have "first_error rs = None \<longleftrightarrow> (\<forall>r\<in>set rs. r = None)" for rs
    by (induction rs rule: first_error.induct) auto
  then show ?thesis
    using mem_k8s_laws by (simp add: operator_laws_def mem_env_def mem_bus_def mem_cl_def fun_eq_iff)
qed

lemma mem_cl_empty [simp]: "mem_cl mem_empty key = None"
  by (simp add: mem_cl_def mem_empty_def)

definition golang_template :: ingest_template where
  "golang_template = \<lparr>it_Name = ''golang-ingest-template'', it_Image = ''ingest'',
     it_Ports = [\<lparr>cp_Name = ''http'', cp_ContainerPort = 8089, cp_Protocol = ''TCP''\<rparr>]\<rparr>"

definition start_of :: "string \<Rightarrow> start_params" where
  "start_of app = \<lparr>stp_AppName = app, stp_Namespace = ''default'', stp_Template = golang_template,
     stp_Username = app, stp_BroadcasterID = ''1''\<rparr>"

lemma start_of_simps [simp]:
  "stp_AppName (start_of app) = app" "stp_Namespace (start_of app) = ''default''"
  "template_ok (stp_Template (start_of app))" "stp_BroadcasterID (start_of app) \<noteq> ''''"
  "stp_BroadcasterID (start_of app) = ''1''"
  by (simp_all add: start_of_def template_ok_def golang_template_def port_name_defs)

definition in_order :: "nat list" where
  "in_order = [0, 1, 2, 3, 4, 5]"

definition in_reverse :: "nat list" where
  "in_reverse = [5, 4, 3, 2, 1, 0]"

lemma schedules [simp]: "schedule in_order" "schedule in_reverse"
  by (auto simp: schedule_def in_order_def in_reverse_def)

lemma apps_ok_alice_bob: "apps_ok {''alice'', ''bob''} ''default''"
  by (simp add: apps_ok_def ingest_keys_def)

definition port_range_2 :: port_range where
  "port_range_2 = \<lparr>portMin = 20000, portMax = 20001, busyPortRange = Map.empty\<rparr>"

lemma NewPortRange_2: "NewPortRange 20000 20001 = Inr port_range_2"
  by (simp add: NewPortRange_def port_range_2_def)

lemma port_range_wf_2 [simp]: "port_range_wf port_range_2"
  using NewPortRange_wf [OF NewPortRange_2] by simp

section \<open>Properties\<close>

text \<open>C3: any sequence of starts and stops of applications with non-colliding names returns, and is a
  run of the abstract operator: a start succeeds exactly when the application is not running and a
  port is free, takes a free port and stores its six objects; a stop succeeds exactly when the
  application is running, and removes them and frees its port; a refused operation changes neither
  the stored objects of running ingests nor the ports in use.\<close>

theorem operator_refines_spec:
  assumes "operator_laws env cl" and "apps_ok A ns" and "NewPortRange lo hi = Inr ports"
    and "\<forall>a\<in>A. \<forall>key\<in>set (ingest_keys ns a). cl w key = None"
    and "list_all (op_ok A ns) ops"
  shows "\<exists>es s' run. lc.exec_all env ns ops (ports, w) = Some (es, s')
    \<and> lc.spec_all lo hi ops (map (\<lambda>e. e = None) es) Map.empty run
    \<and> sys_rel env cl A ns lo hi s' run"
  using assms by (intro lc.sim_all sys_rel_fresh) auto

theorem operator_refines_spec_witness:
  "\<exists>es s' run. lc.exec_all mem_env ''default''
      [OpStart in_reverse (start_of ''alice''), OpStop in_order True ''bob'']
      (port_range_2, mem_empty) = Some (es, s')
    \<and> lc.spec_all 20000 20001 [OpStart in_reverse (start_of ''alice''),
        OpStop in_order True ''bob''] (map (\<lambda>e. e = None) es) Map.empty run
    \<and> sys_rel mem_env mem_cl {''alice'', ''bob''} ''default'' 20000 20001 s' run"
  by (rule operator_refines_spec [OF mem_env_laws apps_ok_alice_bob NewPortRange_2])
    (simp_all add: params_ok_def)


abbreviation st_20000 :: port_state where "st_20000 \<equiv> \<lparr>ps_port = 20000, ps_Identifier = ''''\<rparr>"
abbreviation st_20001 :: port_state where "st_20001 \<equiv> \<lparr>ps_port = 20001, ps_Identifier = ''''\<rparr>"
abbreviation port_range_2a :: port_range where
  "port_range_2a \<equiv> port_range_2\<lparr>busyPortRange := [20000 \<mapsto> st_20000]\<rparr>"
abbreviation port_range_2b :: port_range where
  "port_range_2b \<equiv> port_range_2\<lparr>busyPortRange := [20000 \<mapsto> st_20000, 20001 \<mapsto> st_20001]\<rparr>"

lemma GetPort_2: "GetPort port_range_2 = Some (Some st_20000, port_range_2a)"
  by (simp add: GetPort_def get_port_loop.simps port_range_2_def Let_def)

lemma GetPort_2a: "GetPort port_range_2a = Some (Some st_20001, port_range_2b)"
  by (simp add: GetPort_def get_port_loop.simps port_range_2_def Let_def)

text \<open>Starting in a cluster where the six keys are free.\<close>

lemma StartIngestSystem_fresh:
  assumes "operator_laws env cl" "schedule sched" "port_range_wf ports"
    and "GetPort ports = Some (Some st, ports1)"
    and "\<And>key. key \<in> set (ingest_keys (stp_Namespace params) (stp_AppName params)) \<Longrightarrow> cl w key = None"
  shows "\<exists>w'. StartIngestSystem env sched params (ports, w) = Some (None, ports1, w')
    \<and> cl w' = objs_map (start_objects params (ps_port st)) ++ cl w
    \<and> ingest_stored (cl w') params (ps_port st)"
  using StartIngestSystem_port [OF assms(1-4), of params w] assms(5)
    ingest_stored_new [of params "cl w" "ps_port st"] by auto

lemma mem_two_started:
  "\<exists>w'. lc.exec_all mem_env ''default'' [OpStart in_order (start_of ''alice''), OpStart in_reverse (start_of ''bob'')]
      (port_range_2, mem_empty) = Some ([None, None], port_range_2b, w')
    \<and> mem_cl w' (KDeployment, ''default'', ''alice'') = Some (ODeployment (ingest_dep (start_of ''alice'') 20000))
    \<and> mem_cl w' (KDeployment, ''default'', ''bob'') = Some (ODeployment (ingest_dep (start_of ''bob'') 20001))"
proof -
  from StartIngestSystem_fresh [OF mem_env_laws schedules(1) port_range_wf_2 GetPort_2, of "start_of ''alice''" mem_empty]
  obtain w1 where w1: "StartIngestSystem mem_env in_order (start_of ''alice'') (port_range_2, mem_empty)
      = Some (None, port_range_2a, w1)"
    "mem_cl w1 = objs_map (start_objects (start_of ''alice'') 20000) ++ mem_cl mem_empty"
    "ingest_stored (mem_cl w1) (start_of ''alice'') 20000" by auto
  have fresh: "mem_cl w1 key = None" if "key \<in> set (ingest_keys ''default'' ''bob'')" for key
  proof -
    have "key \<notin> set (ingest_keys ''default'' ''alice'')" using that by (auto simp: ingest_keys_def)
    then show ?thesis by (simp add: w1(2) map_add_def objs_map_other)
  qed
  have wf: "port_range_wf port_range_2a" by (rule GetPort_wf [OF port_range_wf_2 GetPort_2])
  from StartIngestSystem_fresh [OF mem_env_laws schedules(2) wf GetPort_2a, of "start_of ''bob''" w1] fresh
  obtain w2 where w2: "StartIngestSystem mem_env in_reverse (start_of ''bob'') (port_range_2a, w1)
      = Some (None, port_range_2b, w2)"
    "mem_cl w2 = objs_map (start_objects (start_of ''bob'') 20001) ++ mem_cl w1"
    "ingest_stored (mem_cl w2) (start_of ''bob'') 20001" by auto
  have "mem_cl w1 (KDeployment, ''default'', ''alice'') = Some (ODeployment (ingest_dep (start_of ''alice'') 20000))"
    using ingest_stored_dep [OF w1(3)] by simp
  then have "mem_cl w2 (KDeployment, ''default'', ''alice'') = Some (ODeployment (ingest_dep (start_of ''alice'') 20000))"
    by (simp add: w2(2))
  with w1(1) w2(1) ingest_stored_dep [OF w2(3)] show ?thesis by simp
qed


text \<open>C5: starting an ingest whose names are free and then stopping it, with the goroutines of either
  in any order, succeeds, leaves the cluster and the port allocator as they were, and publishes the
  destroy notification of that broadcaster.\<close>

theorem start_then_stop:
  assumes "operator_laws env cl" and "schedule sched" and "schedule sched'"
    and "port_range_wf ports" and "GetPort ports = Some (Some st, ports1)"
    and "\<forall>key\<in>set (ingest_keys (stp_Namespace params) (stp_AppName params)). cl w key = None"
    and "template_ok (stp_Template params)" and "stp_BroadcasterID params \<noteq> ''''"
  shows "\<exists>w1 w2. StartIngestSystem env sched params (ports, w) = Some (None, ports1, w1)
    \<and> cl w1 = objs_map (start_objects params (ps_port st)) ++ cl w
    \<and> StopIngestSystem env sched' df (stp_AppName params) (stp_Namespace params) (ports1, w1)
        = (None, ports, snd (sendDestroyNotification env (stp_BroadcasterID params) (stp_AppName params) w2))
    \<and> cl w2 = cl w"
proof -
  from StartIngestSystem_fresh [OF assms(1,2,4,5), of params w] assms(6) obtain w1 where
    start: "StartIngestSystem env sched params (ports, w) = Some (None, ports1, w1)"
      "cl w1 = objs_map (start_objects params (ps_port st)) ++ cl w"
      "ingest_stored (cl w1) params (ps_port st)" by blast
  from StopIngestSystem_stored [OF assms(1,3) start(3) assms(7,8) refl refl GetPort_Some(4) [OF assms(4,5)]]
  obtain w2 where stop: "cl w2 = (\<lambda>key. if key \<in> set (ingest_keys (stp_Namespace params) (stp_AppName params))
        then None else cl w1 key)"
    "StopIngestSystem env sched' df (stp_AppName params) (stp_Namespace params) (ports1, w1)
      = (None, ports, snd (sendDestroyNotification env (stp_BroadcasterID params) (stp_AppName params) w2))"
    by blast
  have "cl w2 = cl w"
    using assms(6) by (auto simp: stop(1) start(2) fun_eq_iff map_add_def objs_map_other split: option.split)
  with start stop show ?thesis by blast
qed

theorem start_then_stop_witness:
  "\<exists>w1 w2. StartIngestSystem mem_env in_order (start_of ''alice'') (port_range_2, mem_empty)
      = Some (None, port_range_2a, w1)
    \<and> StopIngestSystem mem_env in_reverse True ''alice'' ''default'' (port_range_2a, w1)
        = (None, port_range_2, snd (sendDestroyNotification mem_env ''1'' ''alice'' w2))
    \<and> mem_cl w2 = mem_cl mem_empty"
  using start_then_stop [OF mem_env_laws schedules port_range_wf_2 GetPort_2,
      of "start_of ''alice''" mem_empty True] by auto

text \<open>C6: a start that fails returns its port but leaves what it created: when the deployment's name
  is free and some other of the six names is taken, the start is refused, its deployment stays, and
  the next start of another application is given the same port, so that two deployments in the
  cluster claim one node port.\<close>

theorem failed_start_leaks_port:
  assumes "operator_laws env cl" and "schedule sched" and "schedule sched'"
    and "port_range_wf ports" and "GetPort ports = Some (Some st, ports1)"
    and "cl w (KDeployment, stp_Namespace params, stp_AppName params) = None"
    and "key \<in> set (ingest_keys (stp_Namespace params) (stp_AppName params))" and "cl w key \<noteq> None"
    and "\<forall>key\<in>set (ingest_keys (stp_Namespace params') (stp_AppName params')).
      cl w key = None \<and> key \<notin> set (ingest_keys (stp_Namespace params) (stp_AppName params))"
  shows "\<exists>e w1 w2. StartIngestSystem env sched params (ports, w) = Some (Some e, ports, w1)
    \<and> StartIngestSystem env sched' params' (ports, w1) = Some (None, ports1, w2)
    \<and> cl w2 (KDeployment, stp_Namespace params, stp_AppName params)
        = Some (ODeployment (ingest_dep params (ps_port st)))
    \<and> cl w2 (KDeployment, stp_Namespace params', stp_AppName params')
        = Some (ODeployment (ingest_dep params' (ps_port st)))"
proof -
  let ?p = "ps_port st"
  from StartIngestSystem_port [OF assms(1,2,4,5), of params w] assms(7,8) obtain e w1 where
    start: "StartIngestSystem env sched params (ports, w) = Some (Some e, ports, w1)"
      "cl w1 = objs_map (start_objects params ?p) ++ cl w" by (auto split: if_splits)
  have fresh: "cl w1 key = None"
    if "key \<in> set (ingest_keys (stp_Namespace params') (stp_AppName params'))" for key
    using that assms(9) by (simp add: start(2) map_add_def objs_map_other)
  from StartIngestSystem_fresh [OF assms(1,3,4,5), of params' w1] fresh obtain w2 where
    start2: "StartIngestSystem env sched' params' (ports, w1) = Some (None, ports1, w2)"
      "cl w2 = objs_map (start_objects params' ?p) ++ cl w1"
      "ingest_stored (cl w2) params' ?p" by blast
  have "ODeployment (ingest_dep params ?p) \<in> set (start_objects params ?p)"
    using start_objects_nth(1) [of params ?p] nth_mem [of 0 "start_objects params ?p"] by simp
  from objs_map_in [OF _ this]
  have "cl w1 (KDeployment, stp_Namespace params, stp_AppName params) = Some (ODeployment (ingest_dep params ?p))"
    using assms(6)
    by (simp add: start(2) map_add_def key_of_def ingest_dep_def IngestDeploymentByTemplate_def Let_def)
  then have "cl w2 (KDeployment, stp_Namespace params, stp_AppName params) = Some (ODeployment (ingest_dep params ?p))"
    by (simp add: start2(2))
  with start start2 ingest_stored_dep [OF start2(3)] show ?thesis by blast
qed

definition mem_taken :: mem_world where
  "mem_taken = \<lparr>mw_objects = [OGateway (IstioGateway \<lparr>igp_Number = 80, igp_Protocol = ''HTTP'',
     igp_Selector = ''gateway'', igp_AppName = ''alice-gateway'', igp_HostName = ''example.org'',
     igp_Namespace = ''default'', igp_Owner = ''someone''\<rparr>)], mw_published = []\<rparr>"

lemma mem_cl_taken:
  "mem_cl mem_taken key \<noteq> None \<longleftrightarrow> key = (KGateway, ''default'', ''alice-gateway'')"
  by (auto simp: mem_cl_def mem_taken_def key_of_def IstioGateway_def)

theorem failed_start_leaks_port_witness:
  "\<exists>e w1 w2. StartIngestSystem mem_env in_order (start_of ''alice'') (port_range_2, mem_taken) = Some (Some e, port_range_2, w1)
    \<and> StartIngestSystem mem_env in_order (start_of ''bob'') (port_range_2, w1) = Some (None, port_range_2a, w2)
    \<and> mem_cl w2 (KDeployment, ''default'', ''alice'') = Some (ODeployment (ingest_dep (start_of ''alice'') 20000))
    \<and> mem_cl w2 (KDeployment, ''default'', ''bob'') = Some (ODeployment (ingest_dep (start_of ''bob'') 20000))"
proof -
  have none: "mem_cl mem_taken key = None" if "key \<noteq> (KGateway, ''default'', ''alice-gateway'')" for key
    using that mem_cl_taken [of key] by auto
  have "\<forall>key\<in>set (ingest_keys ''default'' ''bob''). mem_cl mem_taken key = None
      \<and> key \<notin> set (ingest_keys ''default'' ''alice'')"
    by (auto simp: ingest_keys_def intro!: none)
  moreover have "(KGateway, ''default'', ''alice-gateway'') \<in> set (ingest_keys ''default'' ''alice'')"
    by (simp add: ingest_keys_def)
  moreover have "mem_cl mem_taken (KGateway, ''default'', ''alice-gateway'') \<noteq> None"
    using mem_cl_taken by blast
  ultimately show ?thesis
    using failed_start_leaks_port [OF mem_env_laws schedules(1) schedules(1) port_range_wf_2 GetPort_2,
        of mem_taken "start_of ''alice''" "(KGateway, ''default'', ''alice-gateway'')" "start_of ''bob''"]
      none [of "(KDeployment, ''default'', ''alice'')"] by auto
qed

text \<open>Names collide: while the ingest of \<open>a\<close> runs, an application named
  \<open>a-webrtc-udp-gateway\<close> in the same namespace can never be started, because its headless
  service bears the name of the first one's UDP gateway service.\<close>

theorem derived_names_collide:
  assumes "operator_laws env cl" and "schedule sched" and "port_range_wf ports"
    and "ingest_stored (cl w) params p"
    and "stp_AppName params' = stp_AppName params @ ''-webrtc-udp-gateway''"
    and "stp_Namespace params' = stp_Namespace params"
  shows "\<exists>e s'. StartIngestSystem env sched params' (ports, w) = Some (Some e, s')"
proof -
  have key: "(KService, stp_Namespace params, stp_AppName params')
      \<in> set (ingest_keys (stp_Namespace params) (stp_AppName params))"
    using assms(5) by (simp add: ingest_keys_def)
  have taken: "cl w (KService, stp_Namespace params', stp_AppName params') \<noteq> None"
    using ingest_stored_keys [OF assms(4) key] assms(6) by simp
  have "(KService, stp_Namespace params', stp_AppName params')
      \<in> set (ingest_keys (stp_Namespace params') (stp_AppName params'))" by (simp add: ingest_keys_def)
  with taken have busy: "\<not> (\<forall>key\<in>set (ingest_keys (stp_Namespace params') (stp_AppName params')). cl w key = None)"
    by metis
  from assms(3) show ?thesis
  proof (cases rule: GetPort_cases)
    case full
    from StartIngestSystem_full [OF full(1), of env sched params' w] show ?thesis by simp
  next
    case (free q st ports1)
    from StartIngestSystem_port [OF assms(1-3) free(1), of params' w] busy show ?thesis
      by (auto split: if_splits)
  qed
qed

theorem derived_names_collide_witness:
  "\<exists>w1 e s'. StartIngestSystem mem_env in_order (start_of ''alice'') (port_range_2, mem_empty) = Some (None, port_range_2a, w1)
    \<and> StartIngestSystem mem_env in_order (start_of ''alice-webrtc-udp-gateway'') (port_range_2a, w1) = Some (Some e, s')"
proof -
  from StartIngestSystem_fresh [OF mem_env_laws schedules(1) port_range_wf_2 GetPort_2, of "start_of ''alice''" mem_empty]
  obtain w1 where w1: "StartIngestSystem mem_env in_order (start_of ''alice'') (port_range_2, mem_empty)
      = Some (None, port_range_2a, w1)" "ingest_stored (mem_cl w1) (start_of ''alice'') 20000" by auto
  have wf: "port_range_wf port_range_2a" by (rule GetPort_wf [OF port_range_wf_2 GetPort_2])
  from derived_names_collide [OF mem_env_laws schedules(1) wf w1(2), of "start_of ''alice-webrtc-udp-gateway''"] w1(1)
  show ?thesis by auto
qed

text \<open>A template that itself has a port named \<open>webrtc-udp\<close> or \<open>webrtc-tcp\<close> loses the node
  port: when the search in the deployment answers first, stopping deletes the six objects but tries
  to return the template's port; unless that number happens to be a busy node port, the stop is an
  error, no notification is sent and the node port stays busy although nothing uses it.\<close>

theorem reserved_port_name_loses_port:
  assumes "operator_laws env cl" and "schedule sched" and "ingest_stored (cl w) params p"
    and "it_Ports (stp_Template params) = port # ps" and "cp_Name port = DEFAULT_WEBRTC_UDP_PORT_NAME"
    and "ucast (cp_ContainerPort port) \<notin> dom (busyPortRange ports)"
  shows "\<exists>e w1. StopIngestSystem env sched True (stp_AppName params) (stp_Namespace params) (ports, w)
      = (Some e, ports, w1)
    \<and> (\<forall>key\<in>set (ingest_keys (stp_Namespace params) (stp_AppName params)). cl w1 key = None)"
proof -
  from PortBack_free [OF assms(6)] obtain e where
    "PortBack ports (ucast (cp_ContainerPort port)) = (Some e, ports)" by blast
  moreover have "findFirstWebrtcPortInDeploymentOrService True (Some (ingest_dep params p))
      (Some (ingest_udp params p)) = Some (cp_ContainerPort port)"
    using assms(4,5) by (simp add: findFirstWebrtcPortInDeploymentOrService_def
        findDeploymentIngestWebrtcPort_def ingest_dep_def IngestDeploymentByTemplate_def Let_def split: option.split)
  ultimately show ?thesis
    using StopIngestSystem_run [OF assms(1-3) refl refl, of True ports] by auto
qed

definition start_reserved :: start_params where
  "start_reserved = (start_of ''alice'')\<lparr>stp_Template := golang_template
     \<lparr>it_Ports := [\<lparr>cp_Name = DEFAULT_WEBRTC_UDP_PORT_NAME, cp_ContainerPort = 3478, cp_Protocol = ''UDP''\<rparr>]\<rparr>\<rparr>"

theorem reserved_port_name_loses_port_witness:
  "\<exists>e w1 w2. StartIngestSystem mem_env in_order start_reserved (port_range_2, mem_empty) = Some (None, port_range_2a, w1)
    \<and> StopIngestSystem mem_env in_order True ''alice'' ''default'' (port_range_2a, w1) = (Some e, port_range_2a, w2)
    \<and> mem_cl w2 (KDeployment, ''default'', ''alice'') = None"
proof -
  have params: "stp_AppName start_reserved = ''alice''" "stp_Namespace start_reserved = ''default''"
    "it_Ports (stp_Template start_reserved)
      = [\<lparr>cp_Name = DEFAULT_WEBRTC_UDP_PORT_NAME, cp_ContainerPort = 3478, cp_Protocol = ''UDP''\<rparr>]"
    by (simp_all add: start_reserved_def start_of_def)
  from StartIngestSystem_fresh [OF mem_env_laws schedules(1) port_range_wf_2 GetPort_2, of start_reserved mem_empty]
  obtain w1 where w1: "StartIngestSystem mem_env in_order start_reserved (port_range_2, mem_empty)
      = Some (None, port_range_2a, w1)" "ingest_stored (mem_cl w1) start_reserved 20000" by auto
  from reserved_port_name_loses_port [OF mem_env_laws schedules(1) w1(2) params(3), of port_range_2a] w1(1)
  show ?thesis by (auto simp: params ingest_keys_def)
qed

end
