(* ===== verification/OperatorService.thy ===== *)
theory OperatorService imports IngestLifecycle begin

text \<open>
  The operator's gRPC service (\<open>grpcserver/ingest/service.go\<close>), the container of ingest templates
  (\<open>grpcserver/container/ingest_templates.go\<close>), the reconciler that fills it
  (\<open>internal/controller/romashorodok.github.io/ingesttemplate_controller.go\<close>) and the shutdown tasks
  it registers (\<open>pkg/shutdown/shutdown.go\<close>).  A task is a closure over the name of the reconciled
  template, so a task is that name here.  Shutdown runs the tasks as goroutines; the model runs them
  one after another, in an order that is an argument, and leaves out the wait for the signal.
\<close>

section \<open>State\<close>

record 'w operator_state =
  os_templates :: "string \<Rightarrow> ingest_template option"
  os_tasks :: "string list"
  os_ports :: port_range
  os_world :: 'w

record ingest_meta =
  im_BroadcasterId :: string
  im_Username :: string

record start_request =
  req_IngestTemplate :: string
  req_Deployment :: string
  req_Namespace :: string
  req_Meta :: "ingest_meta option"

section \<open>The template container\<close>

definition AddIngestTemplate ::
  "(string \<Rightarrow> ingest_template option) \<Rightarrow> ingest_template \<Rightarrow> string \<Rightarrow> ingest_template option" where
  "AddIngestTemplate templates t = templates(it_Name t \<mapsto> t)"

definition Get_template :: "(string \<Rightarrow> ingest_template option) \<Rightarrow> string \<Rightarrow> goerr + ingest_template" where
  "Get_template templates name =
     (case templates name of Some t \<Rightarrow> Inr t | None \<Rightarrow> Inl (GoErr ''not found template in container''))"

section \<open>The service\<close>

text \<open>
  The result is \<open>None\<close> when the port loop does not end; a panic ends the process, the state
  beside it is what the request left in the cluster.  The schedules order the goroutines of the stop
  and of the start.
\<close>

definition StartServer ::
  "'w operator_env \<Rightarrow> nat list \<Rightarrow> bool \<Rightarrow> nat list \<Rightarrow> start_request \<Rightarrow> 'w operator_state
    \<Rightarrow> ((goerr + string \<times> string) outcome \<times> 'w operator_state) option" where
  "StartServer env stop_sched df start_sched req s =
     (case Get_template (os_templates s) (req_IngestTemplate req) of
        Inl err \<Rightarrow> Some (Ret (Inl (StatusErr NotFound ''not found ingest template'')), s)
      | Inr ingestTemplate \<Rightarrow>
          (let (_, ports1, w1) = StopIngestSystem env stop_sched df (req_Deployment req) (req_Namespace req)
                 (os_ports s, os_world s);
               s1 = s\<lparr>os_ports := ports1, os_world := w1\<rparr>
           in case req_Meta req of
                None \<Rightarrow> Some (nil_deref, s1)
              | Some m \<Rightarrow>
                  (case StartIngestSystem env start_sched
                     \<lparr>stp_AppName = req_Deployment req, stp_Namespace = req_Namespace req,
                      stp_Template = ingestTemplate, stp_Username = im_Username m,
                      stp_BroadcasterID = im_BroadcasterId m\<rparr> (ports1, w1) of
                     None \<Rightarrow> None
                   | Some (e, ports2, w2) \<Rightarrow>
                       (let s2 = s1\<lparr>os_ports := ports2, os_world := w2\<rparr>
                        in case e of
                             Some err \<Rightarrow> Some (Ret (Inl (StatusErr Internal (err_text err))), s2)
                           | None \<Rightarrow> Some (Ret (Inr (req_Deployment req, req_Namespace req)), s2)))))"

definition StopServer ::
  "'w operator_env \<Rightarrow> nat list \<Rightarrow> bool \<Rightarrow> string \<Rightarrow> string \<Rightarrow> 'w operator_state
    \<Rightarrow> (goerr + unit) \<times> 'w operator_state" where
  "StopServer env sched df dep ns s =
     (let (e, ports1, w1) = StopIngestSystem env sched df dep ns (os_ports s, os_world s);
          s1 = s\<lparr>os_ports := ports1, os_world := w1\<rparr>
      in case e of
           Some err \<Rightarrow> (Inl (StatusErr Internal (err_text err)), s1)
         | None \<Rightarrow> (Inr (), s1))"

section \<open>The reconciler and the shutdown tasks\<close>

definition zero_template :: ingest_template where
  "zero_template = \<lparr>it_Name = '''', it_Image = '''', it_Ports = []\<rparr>"

definition AddTask :: "string list \<Rightarrow> string \<Rightarrow> string list" where
  "AddTask tasks task = tasks @ [task]"

text \<open>
  \<open>get\<close> is the client's \<open>Get\<close> of the template; its error is logged and the zero value of the
  struct is used.  The call returns no error in either case.
\<close>

definition Reconcile ::
  "(string \<Rightarrow> 'w \<Rightarrow> goerr + ingest_template) \<Rightarrow> string \<Rightarrow> 'w operator_state \<Rightarrow> 'w operator_state" where
  "Reconcile get name s =
     (let t = (case get name (os_world s) of Inl err \<Rightarrow> zero_template | Inr t \<Rightarrow> t)
      in s\<lparr>os_templates := AddIngestTemplate (os_templates s) t,
           os_tasks := AddTask (os_tasks s) name\<rparr>)"

fun shutdown_loop ::
  "'w operator_env \<Rightarrow> (string \<Rightarrow> nat list) \<Rightarrow> (string \<Rightarrow> bool) \<Rightarrow> deployment list \<Rightarrow> port_range \<times> 'w
    \<Rightarrow> port_range \<times> 'w" where
  "shutdown_loop env sched df [] s = s"
| "shutdown_loop env sched df (d # ds) s =
     (let appName = map_get (om_Labels (d_Meta d)) OWNED_BY;
          (_, ports1, w1) = StopIngestSystem env (sched appName) (df appName) appName (om_Namespace (d_Meta d)) s;
          (_, w2) = kc_Delete (oe_k8s env) (ODeployment d) w1
      in shutdown_loop env sched df ds (ports1, w2))"

definition shutdown_task ::
  "'w operator_env \<Rightarrow> (string \<Rightarrow> nat list) \<Rightarrow> (string \<Rightarrow> bool) \<Rightarrow> string \<Rightarrow> port_range \<times> 'w
    \<Rightarrow> port_range \<times> 'w" where
  "shutdown_task env sched df name s =
     (case kc_ListDeployments (oe_k8s env) CREATED_BY name (snd s) of
        Inl err \<Rightarrow> s
      | Inr deployments \<Rightarrow> shutdown_loop env sched df deployments s)"

definition Gracefully ::
  "'w operator_env \<Rightarrow> (string \<Rightarrow> nat list) \<Rightarrow> (string \<Rightarrow> bool) \<Rightarrow> string list \<Rightarrow> port_range \<times> 'w
    \<Rightarrow> port_range \<times> 'w" where
  "Gracefully env sched df order s = fold (shutdown_task env sched df) order s"

text \<open>The operator's \<open>OnStop\<close> function: the tasks, in the order in which they come to an end, and then the
  manager's context is cancelled.\<close>

definition operator_OnStop ::
  "'w operator_env \<Rightarrow> (string \<Rightarrow> nat list) \<Rightarrow> (string \<Rightarrow> bool) \<Rightarrow> string list \<Rightarrow> 'w operator_state \<Rightarrow> 'w operator_state" where
  "operator_OnStop env sched df order s =
     (let (ports, w) = Gracefully env sched df order (os_ports s, os_world s) in s\<lparr>os_ports := ports, os_world := w\<rparr>)"

section \<open>Lemmas\<close>

lemma Get_template_added [simp]:
  "Get_template (AddIngestTemplate templates t) name =
     (if name = it_Name t then Inr t else Get_template templates name)"
  by (simp add: Get_template_def AddIngestTemplate_def)

definition req_params :: "start_request \<Rightarrow> ingest_template \<Rightarrow> ingest_meta \<Rightarrow> start_params" where
  "req_params req t m = \<lparr>stp_AppName = req_Deployment req, stp_Namespace = req_Namespace req,
     stp_Template = t, stp_Username = im_Username m, stp_BroadcasterID = im_BroadcasterId m\<rparr>"

lemma req_params_simps [simp]:
  "stp_AppName (req_params req t m) = req_Deployment req"
  "stp_Namespace (req_params req t m) = req_Namespace req"
  "stp_Template (req_params req t m) = t"
  "stp_BroadcasterID (req_params req t m) = im_BroadcasterId m"
  by (simp_all add: req_params_def)

text \<open>The state of a server is related to the abstract one through its allocator and its world.\<close>

abbreviation op_state :: "'w operator_state \<Rightarrow> port_range \<times> 'w" where
  "op_state s \<equiv> (os_ports s, os_world s)"

lemma stop_spec:
  assumes "sys_rel env cl A ns lo hi s run" "schedule sched" "app \<in> A"
  shows "\<exists>e s'. StopIngestSystem env sched df app ns s = (e, s')
    \<and> (e = None) = (run app \<noteq> None) \<and> sys_rel env cl A ns lo hi s' (run(app := None))"
proof -
  obtain ports w where s: "s = (ports, w)" by (cases s)
  from sys_rel_stop [of env cl A ns lo hi ports w run sched app df] assms s
  obtain e s' run' where stop: "StopIngestSystem env sched df app ns s = (e, s')"
    "spec_step lo hi (OpStop sched df app) (e = None) run run'" "sys_rel env cl A ns lo hi s' run'" by auto
  from stop(2) have "run' = run(app := None) \<and> (e = None) = (run app \<noteq> None)"
    by (rule spec_stop_cases) auto
  with stop show ?thesis by blast
qed

lemma start_spec:
  assumes "sys_rel env cl A ns lo hi s run" "schedule sched" "params_ok A ns params"
  shows "\<exists>e s' run'. StartIngestSystem env sched params s = Some (e, s')
    \<and> spec_step lo hi (OpStart sched params) (e = None) run run' \<and> sys_rel env cl A ns lo hi s' run'"
  using sys_rel_start [of env cl A ns lo hi "fst s" "snd s" run sched params] assms by simp

text \<open>What \<open>List\<close> with a label selector documents: every deployment with the label, once.\<close>

definition list_laws :: "'w k8s_client \<Rightarrow> ('w \<Rightarrow> obj_key \<Rightarrow> k8s_object option) \<Rightarrow> bool" where
  "list_laws k cl \<longleftrightarrow> (\<forall>lbl v w. \<exists>ds. kc_ListDeployments k lbl v w = Inr ds \<and> distinct ds
     \<and> set ds = {d. om_Labels (d_Meta d) lbl = Some v \<and> (\<exists>key. cl w key = Some (ODeployment d))})"

lemma dep_fields [simp]:
  "map_get (om_Labels (d_Meta (ingest_dep params p))) OWNED_BY = stp_AppName params"
  "om_Namespace (d_Meta (ingest_dep params p)) = stp_Namespace params"
  "om_Labels (d_Meta (ingest_dep params p)) CREATED_BY = Some (it_Name (stp_Template params))"
  by (simp_all add: ingest_dep_def IngestDeploymentByTemplate_def Let_def map_get_def label_defs)

lemma key_of_ingest_dep [simp]:
  "key_of (ODeployment (ingest_dep params p)) = (KDeployment, stp_Namespace params, stp_AppName params)"
  by (simp add: key_of_def ingest_dep_def IngestDeploymentByTemplate_def Let_def)

text \<open>Stopping an ingest adds no object to the cluster.\<close>

lemma stop_shrinks:
  assumes rel: "sys_rel env cl A ns lo hi (ports, w) run" and sched: "schedule sched" and run: "run app = Some (params, p)"
    and stop: "StopIngestSystem env sched df app ns (ports, w) = (e, ports1, w1)" and key: "cl w1 key = Some x"
  shows "cl w key = Some x"
proof -
  obtain w0 where w0: "cl w0 = (\<lambda>key. if key \<in> set (ingest_keys ns app) then None else cl w key)"
    and "StopIngestSystem env sched df app ns (ports, w) = (None, ports\<lparr>busyPortRange := (busyPortRange ports)(p := None)\<rparr>,
       snd (sendDestroyNotification env (stp_BroadcasterID params) app w0))" by (rule running_stop [OF rel sched run])
  with stop have "w1 = snd (sendDestroyNotification env (stp_BroadcasterID params) app w0)" by simp
  then have "cl w1 = cl w0" using sendDestroyNotification_cl [OF sys_relD(1) [OF rel]] by simp
  with key w0 show ?thesis by (simp split: if_splits)
qed

text \<open>The loop stops the ingest of each deployment it is given.\<close>

lemma shutdown_loop_rel:
  assumes "sys_rel env cl A ns lo hi s run" and "\<And>app. schedule (sched app)"
    and "distinct ds" and "\<And>d. d \<in> set ds \<Longrightarrow> \<exists>a params p. run a = Some (params, p) \<and> d = ingest_dep params p"
  shows "sys_rel env cl A ns lo hi (shutdown_loop env sched df ds s)
    (\<lambda>a. case run a of None \<Rightarrow> None | Some (params, p) \<Rightarrow>
       if ingest_dep params p \<in> set ds then None else Some (params, p))
    \<and> (\<forall>key x. cl (snd (shutdown_loop env sched df ds s)) key = Some x \<longrightarrow> cl (snd s) key = Some x)"
  using assms(1,3,4)
proof (induction ds arbitrary: s run)
  case Nil
  have "(\<lambda>a. case run a of None \<Rightarrow> None | Some (params, p) \<Rightarrow>
       if ingest_dep params p \<in> set [] then None else Some (params, p)) = run"
    by (auto simp: fun_eq_iff split: option.splits)
  with Nil show ?case by (simp only: shutdown_loop.simps) simp
next
  case (Cons d ds)
  obtain ports w where s: "s = (ports, w)" by (cases s)
  obtain a params p where run: "run a = Some (params, p)" and d: "d = ingest_dep params p"
    using Cons.prems(3) [of d] by auto
  have rel: "sys_rel env cl A ns lo hi (ports, w) run" using Cons.prems(1) s by simp
  have a: "stp_AppName params = a" "stp_Namespace params = ns" "a \<in> A"
    using sys_relD(7,8) [OF rel run] by (auto simp: params_ok_def)
  from stop_spec [OF rel assms(2) a(3), of a "df a"] obtain e ports1 w1 where
    stop: "StopIngestSystem env (sched a) (df a) a ns (ports, w) = (e, ports1, w1)"
      "sys_rel env cl A ns lo hi (ports1, w1) (run(a := None))" by auto
  have k8s: "k8s_laws (oe_k8s env) cl" using sys_relD(1) [OF rel] by (simp add: operator_laws_def)
  have "cl w1 (key_of (ODeployment d)) = None"
    using sys_relD(11) [OF stop(2) a(3)] a d by (simp add: ingest_keys_def)
  from k8s_delete_absent [OF k8s this] obtain e2 where del: "kc_Delete (oe_k8s env) (ODeployment d) w1 = (Some e2, w1)"
    by blast
  have other: "d \<noteq> ingest_dep q pq" if "b \<noteq> a" "run b = Some (q, pq)" for b q pq
  proof
    assume "d = ingest_dep q pq"
    then have "stp_AppName q = stp_AppName params" using d by (metis dep_fields(1))
    with sys_relD(7) [OF rel] that run show False by metis
  qed
  have loop: "shutdown_loop env sched df (d # ds) s = shutdown_loop env sched df ds (ports1, w1)"
    using stop(1) del a s by (simp add: d)
  have prem: "\<exists>b q pq. (run(a := None)) b = Some (q, pq) \<and> d' = ingest_dep q pq" if "d' \<in> set ds" for d'
  proof -
    have "\<exists>a params p. run a = Some (params, p) \<and> d' = ingest_dep params p"
      by (rule Cons.prems(3)) (simp add: that)
    then obtain b q pq where b: "run b = Some (q, pq)" "d' = ingest_dep q pq" by blast
    have "b \<noteq> a"
    proof
      assume "b = a"
      with b run d have "d' = d" by simp
      with that Cons.prems(2) show False by simp
    qed
    with b show ?thesis by (intro exI [of _ b]) auto
  qed
  have "(\<lambda>b. case (run(a := None)) b of None \<Rightarrow> None | Some (params, p) \<Rightarrow>
         if ingest_dep params p \<in> set ds then None else Some (params, p))
      = (\<lambda>b. case run b of None \<Rightarrow> None | Some (params, p) \<Rightarrow>
         if ingest_dep params p \<in> set (d # ds) then None else Some (params, p))"
    using run other by (auto simp: d fun_eq_iff split: option.splits) metis
  with Cons.IH [OF stop(2) _ prem] Cons.prems(2) stop_shrinks [OF rel assms(2) run stop(1)] show ?case unfolding loop by (simp add: s)
qed

text \<open>No deployment carries a \<open>CREATED_BY\<close> label but those of running ingests.\<close>

definition only_ours :: "('w \<Rightarrow> obj_key \<Rightarrow> k8s_object option) \<Rightarrow> 'w \<Rightarrow> runs \<Rightarrow> bool" where
  "only_ours cl w run \<longleftrightarrow> (\<forall>key d. cl w key = Some (ODeployment d) \<longrightarrow> om_Labels (d_Meta d) CREATED_BY \<noteq> None
     \<longrightarrow> (\<exists>a params p. run a = Some (params, p) \<and> d = ingest_dep params p))"

definition without_template :: "string \<Rightarrow> runs \<Rightarrow> runs" where
  "without_template name run = (\<lambda>a. case run a of None \<Rightarrow> None | Some (params, p) \<Rightarrow>
     if it_Name (stp_Template params) = name then None else Some (params, p))"

lemma shutdown_task_rel:
  assumes rel: "sys_rel env cl A ns lo hi (ports, w) run" and sched: "\<And>app. schedule (sched app)"
    and ours: "only_ours cl w run" and list: "list_laws (oe_k8s env) cl"
  shows "sys_rel env cl A ns lo hi (shutdown_task env sched df name (ports, w)) (without_template name run)"
    and "cl (snd (shutdown_task env sched df name (ports, w))) key = Some x \<Longrightarrow> cl w key = Some x"
proof -
  from list obtain ds where ds: "kc_ListDeployments (oe_k8s env) CREATED_BY name w = Inr ds" "distinct ds"
    "set ds = {d. om_Labels (d_Meta d) CREATED_BY = Some name \<and> (\<exists>key. cl w key = Some (ODeployment d))}"
    unfolding list_laws_def by metis
  have ex: "\<exists>a params p. run a = Some (params, p) \<and> d = ingest_dep params p" if "d \<in> set ds" for d
    using that ds(3) ours unfolding only_ours_def by auto
  have "ingest_dep params p \<in> set ds \<longleftrightarrow> it_Name (stp_Template params) = name" if "run a = Some (params, p)" for a params p
    using ingest_stored_dep [OF sys_relD(9) [OF rel that]] by (auto simp: ds(3))
  then have "(\<lambda>a. case run a of None \<Rightarrow> None | Some (params, p) \<Rightarrow>
         if ingest_dep params p \<in> set ds then None else Some (params, p)) = without_template name run"
    by (auto simp: without_template_def fun_eq_iff split: option.splits)
  with shutdown_loop_rel [OF rel sched ds(2) ex, where df = df]
  have "sys_rel env cl A ns lo hi (shutdown_loop env sched df ds (ports, w)) (without_template name run)"
    and "\<forall>key x. cl (snd (shutdown_loop env sched df ds (ports, w))) key = Some x \<longrightarrow> cl w key = Some x" by simp_all
  then show "sys_rel env cl A ns lo hi (shutdown_task env sched df name (ports, w)) (without_template name run)"
    and "cl (snd (shutdown_task env sched df name (ports, w))) key = Some x \<Longrightarrow> cl w key = Some x"
    unfolding shutdown_task_def snd_conv ds(1) sum.case by blast+
qed

lemma shutdown_task_ours:
  assumes rel: "sys_rel env cl A ns lo hi (ports, w) run" and sched: "\<And>app. schedule (sched app)"
    and ours: "only_ours cl w run" and list: "list_laws (oe_k8s env) cl"
  shows "only_ours cl (snd (shutdown_task env sched df name (ports, w))) (without_template name run)"
  unfolding only_ours_def
proof (intro allI impI)
  fix key d
  let ?s = "shutdown_task env sched df name (ports, w)"
  assume d: "cl (snd ?s) key = Some (ODeployment d)" "om_Labels (d_Meta d) CREATED_BY \<noteq> None"
  have rel': "sys_rel env cl A ns lo hi (fst ?s, snd ?s) (without_template name run)"
    using shutdown_task_rel(1) [OF rel sched ours list] by simp
  have w: "cl w key = Some (ODeployment d)" by (rule shutdown_task_rel(2) [OF rel sched ours list d(1)])
  with ours d(2) obtain a params p where a: "run a = Some (params, p)" "d = ingest_dep params p"
    unfolding only_ours_def by blast
  have k8s: "k8s_laws (oe_k8s env) cl" using sys_relD(1) [OF rel] by (simp add: operator_laws_def)
  from sys_relD(7,8) [OF rel a(1)] have A: "stp_AppName params = a" "stp_Namespace params = ns" "a \<in> A"
    by (auto simp: params_ok_def)
  have "key = (KDeployment, ns, a)" using k8s_key [OF k8s w] a(2) A by simp
  then have "key \<in> set (ingest_keys ns a)" by (simp add: ingest_keys_def)
  from sys_relD(11) [OF rel' A(3) _ this] d(1) have "without_template name run a \<noteq> None" by (metis option.distinct(1))
  with a show "\<exists>a params p. without_template name run a = Some (params, p) \<and> d = ingest_dep params p"
    by (intro exI [of _ a]) (auto simp: without_template_def split: if_splits)
qed

text \<open>All tasks, one after the other.\<close>

definition without_templates :: "string set \<Rightarrow> runs \<Rightarrow> runs" where
  "without_templates names run = (\<lambda>a. case run a of None \<Rightarrow> None | Some (params, p) \<Rightarrow>
     if it_Name (stp_Template params) \<in> names then None else Some (params, p))"

lemma without_templates_simps:
  "without_templates {} run = run"
  "without_templates names (without_template name run) = without_templates (insert name names) run"
  by (auto simp: without_templates_def without_template_def fun_eq_iff split: option.split)

lemma Gracefully_rel:
  assumes "\<And>app. schedule (sched app)" and "list_laws (oe_k8s env) cl"
  shows "sys_rel env cl A ns lo hi s run \<Longrightarrow> only_ours cl (snd s) run \<Longrightarrow>
    sys_rel env cl A ns lo hi (Gracefully env sched df order s) (without_templates (set order) run)"
proof (induction order arbitrary: s run)
  case Nil
  then show ?case by (simp add: Gracefully_def without_templates_simps)
next
  case (Cons name order)
  obtain ports w where s: "s = (ports, w)" by (cases s)
  have prems: "sys_rel env cl A ns lo hi (ports, w) run" "only_ours cl w run" using Cons.prems s by simp_all
  from Cons.IH [OF shutdown_task_rel(1) [OF prems(1) assms(1) prems(2) assms(2)] shutdown_task_ours [OF prems(1) assms(1) prems(2) assms(2)]]
  show ?case by (simp add: s Gracefully_def without_templates_simps)
qed

lemma reconciled:
  "op_state (fold (Reconcile get) names s) = op_state s" "os_tasks (fold (Reconcile get) names s) = os_tasks s @ names"
  by (induction names arbitrary: s) (simp_all add: Reconcile_def AddTask_def Let_def)

lemma StartServer_spec:
  assumes "sys_rel env cl A ns lo hi (op_state s) run"
    and "schedule stop_sched" and "schedule start_sched"
    and "os_templates s (req_IngestTemplate req) = Some t" and "template_ok t"
    and "req_Meta req = Some m" and "im_BroadcasterId m \<noteq> ''''"
    and "req_Deployment req \<in> A" and "req_Namespace req = ns"
  shows "\<exists>r s' run'. StartServer env stop_sched df start_sched req s = Some (Ret r, s')
    \<and> sys_rel env cl A ns lo hi (op_state s') run'
    \<and> (\<forall>b. b \<noteq> req_Deployment req \<longrightarrow> run' b = run b)
    \<and> (if {lo..hi} \<subseteq> ports_in_use (run(req_Deployment req := None))
       then (\<exists>msg. r = Inl (StatusErr Internal msg)) \<and> run' (req_Deployment req) = None
            \<and> run (req_Deployment req) = None
       else r = Inr (req_Deployment req, req_Namespace req)
            \<and> (\<exists>p. run' (req_Deployment req) = Some (req_params req t m, p)))"
proof -
  let ?app = "req_Deployment req" let ?run = "run(?app := None)"
  have get: "Get_template (os_templates s) (req_IngestTemplate req) = Inr t"
    using assms(4) by (simp add: Get_template_def)
  from stop_spec [OF assms(1,2,8), of df] obtain e ports1 w1 where
    stop: "StopIngestSystem env stop_sched df ?app ns (op_state s) = (e, ports1, w1)"
      "sys_rel env cl A ns lo hi (ports1, w1) ?run" by auto
  have "params_ok A ns (req_params req t m)" using assms(5,7-9) by (simp add: params_ok_def)
  from start_spec [OF stop(2) assms(3) this] obtain e2 ports2 w2 run' where
    start: "StartIngestSystem env start_sched (req_params req t m) (ports1, w1) = Some (e2, ports2, w2)"
      "spec_step lo hi (OpStart start_sched (req_params req t m)) (e2 = None) ?run run'"
      "sys_rel env cl A ns lo hi (ports2, w2) run'" by auto
  let ?s' = "s\<lparr>os_ports := ports2, os_world := w2\<rparr>"
  let ?r = "(case e2 of Some err \<Rightarrow> Inl (StatusErr Internal (err_text err)) | None \<Rightarrow> Inr (?app, req_Namespace req))"
  have run: "StartServer env stop_sched df start_sched req s = Some (Ret ?r, ?s')"
    using get stop(1) start(1) assms(6,9)
    by (simp add: StartServer_def req_params_def split: option.split)
  have own: "\<not> {lo..hi} \<subseteq> ports_in_use ?run" if "run ?app \<noteq> None"
  proof -
    from that obtain x p where x: "run ?app = Some (x, p)" by auto
    have "p \<in> dom (busyPortRange (os_ports s))"
      using sys_relD(6) [OF assms(1)] x by (auto simp: ports_in_use_iff)
    then have "p \<in> {lo..hi}" using sys_relD(3-5) [OF assms(1)] by (auto simp: port_range_wf_def)
    moreover have "p \<notin> ports_in_use ?run"
      using ports_in_use_del [of run, OF x] sys_relD(10) [OF assms(1) _ x] by simp
    ultimately show ?thesis by blast
  qed
  have "(e2 = None \<and> (\<exists>p. run' = ?run(?app \<mapsto> (req_params req t m, p)) \<and> p \<in> {lo..hi} \<and> p \<notin> ports_in_use ?run))
      \<or> (e2 \<noteq> None \<and> run' = ?run \<and> {lo..hi} \<subseteq> ports_in_use ?run)"
    using start(2) by (rule spec_start_cases) auto
  then show ?thesis
  proof
    assume "e2 = None \<and> (\<exists>p. run' = ?run(?app \<mapsto> (req_params req t m, p)) \<and> p \<in> {lo..hi} \<and> p \<notin> ports_in_use ?run)"
    then obtain p where "e2 = None" "run' = ?run(?app \<mapsto> (req_params req t m, p))"
      "\<not> {lo..hi} \<subseteq> ports_in_use ?run" by blast
    with run start(3) show ?thesis
      by (intro exI [of _ ?r] exI [of _ ?s'] exI [of _ run']) simp
  next
    assume "e2 \<noteq> None \<and> run' = ?run \<and> {lo..hi} \<subseteq> ports_in_use ?run"
    moreover from this own have "run ?app = None" by blast
    ultimately show ?thesis using run start(3)
      by (intro exI [of _ ?r] exI [of _ ?s'] exI [of _ run']) (cases e2; simp)
  qed
qed

section \<open>A server in memory with one ingest\<close>

lemma distinct_map_filter:
  "distinct xs \<Longrightarrow> (\<And>x y. f x = Some y \<Longrightarrow> g y = x) \<Longrightarrow> distinct (List.map_filter f xs)"
proof (induction xs)
  case (Cons x xs)
  have "y \<notin> set (List.map_filter f xs)" if "f x = Some y" for y
  proof
    assume "y \<in> set (List.map_filter f xs)"
    then obtain x' where "x' \<in> set xs" "f x' = Some y" by (auto simp: List.map_filter_def)
    with that Cons.prems show False by auto
  qed
  with Cons show ?case by (auto simp: map_filter_simps split: option.split)
qed (simp add: map_filter_simps)

lemma set_map_filter_iff: "y \<in> set (List.map_filter f xs) \<longleftrightarrow> (\<exists>x\<in>set xs. f x = Some y)"
  by (force simp: List.map_filter_def)

lemma mem_list_laws: "list_laws mem_k8s mem_cl"
proof -
  have key: "key_of x = key" if "mem_cl w key = Some x" for w key x
    using that by (auto simp: mem_cl_def dest: find_SomeD)
  have stored: "key \<in> key_of ` set (mw_objects w)" if "mem_cl w key = Some x" for w key x
    using that by (auto simp: mem_cl_def dest: find_SomeD)
  let ?f = "\<lambda>lbl v w key. case mem_cl w key of
      Some (ODeployment d) \<Rightarrow> if om_Labels (d_Meta d) lbl = Some v then Some d else None | _ \<Rightarrow> None"
  have f: "?f lbl v w k = Some d \<longleftrightarrow> mem_cl w k = Some (ODeployment d) \<and> om_Labels (d_Meta d) lbl = Some v" for lbl v w k d
    by (auto split: option.splits k8s_object.splits)
  have "distinct (List.map_filter (?f lbl v w) (remdups (map key_of (mw_objects w))))" for lbl v w
    by (rule distinct_map_filter [where g = "\<lambda>d. key_of (ODeployment d)"]) (use f key in blast)+
  moreover have "set (List.map_filter (?f lbl v w) (remdups (map key_of (mw_objects w))))
      = {d. om_Labels (d_Meta d) lbl = Some v \<and> (\<exists>key. mem_cl w key = Some (ODeployment d))}" for lbl v w
    using stored unfolding set_eq_iff set_map_filter_iff f mem_Collect_eq set_remdups set_map by blast
  ultimately show ?thesis by (simp add: list_laws_def mem_k8s_def)
qed

definition alice_runs :: runs where
  "alice_runs = [''alice'' \<mapsto> (start_of ''alice'', 20000)]"

lemma mem_alice_running:
  "\<exists>w. sys_rel mem_env mem_cl {''alice'', ''bob''} ''default'' 20000 20001 (port_range_2a, w) alice_runs
     \<and> only_ours mem_cl w alice_runs"
proof -
  from StartIngestSystem_fresh [OF mem_env_laws schedules(1) port_range_wf_2 GetPort_2, of "start_of ''alice''" mem_empty]
  obtain w where w: "mem_cl w = objs_map (start_objects (start_of ''alice'') 20000) ++ mem_cl mem_empty" by auto
  have rel: "sys_rel mem_env mem_cl {''alice'', ''bob''} ''default'' 20000 20001 (port_range_2, mem_empty) Map.empty"
    by (rule sys_rel_fresh [OF mem_env_laws apps_ok_alice_bob NewPortRange_2]) simp
  have "params_ok {''alice'', ''bob''} ''default'' (start_of ''alice'')" by (simp add: params_ok_def)
  from sys_rel_started [OF rel this _ _ _ _ w, of port_range_2a st_20000]
  have "sys_rel mem_env mem_cl {''alice'', ''bob''} ''default'' 20000 20001 (port_range_2a, w) alice_runs"
    using GetPort_wf [OF port_range_wf_2 GetPort_2]
    by (simp add: alice_runs_def ports_in_use_def port_range_2_def)
  moreover have "d = ingest_dep params p" if "ODeployment d \<in> set (start_objects params p)" for d params p
    using that by (auto simp: start_objects_def ingest_dep_def Let_def)
  then have "only_ours mem_cl w alice_runs"
    by (auto simp: only_ours_def w map_add_def alice_runs_def split: option.splits dest!: objs_map_Some)
  ultimately show ?thesis by blast
qed

definition mem_server :: "mem_world \<Rightarrow> mem_world operator_state" where
  "mem_server w = \<lparr>os_templates = [''golang-ingest-template'' \<mapsto> golang_template],
     os_tasks = [''golang-ingest-template''], os_ports = port_range_2a, os_world = w\<rparr>"

definition alice_request :: start_request where
  "alice_request = \<lparr>req_IngestTemplate = ''golang-ingest-template'', req_Deployment = ''alice'',
     req_Namespace = ''default'', req_Meta = Some \<lparr>im_BroadcasterId = ''1'', im_Username = ''alice''\<rparr>\<rparr>"

lemma mem_server_simps [simp]:
  "os_templates (mem_server w) = [''golang-ingest-template'' \<mapsto> golang_template]"
  "os_ports (mem_server w) = port_range_2a" "os_world (mem_server w) = w"
  by (simp_all add: mem_server_def)

lemma alice_request_simps [simp]:
  "req_IngestTemplate alice_request = ''golang-ingest-template''" "req_Deployment alice_request = ''alice''"
  "req_Namespace alice_request = ''default''"
  "req_Meta alice_request = Some \<lparr>im_BroadcasterId = ''1'', im_Username = ''alice''\<rparr>"
  by (simp_all add: alice_request_def)

section \<open>Properties\<close>

text \<open>C8: \<open>StartServer\<close> replaces: for a known template and a request with its broadcaster's data it
  first stops whatever ingest bears the name, then starts the new one; it succeeds exactly when a
  port is free once the old one is returned, so restarting a running ingest never fails; a failure
  leaves that ingest stopped and every other one as it was.\<close>

theorem StartServer_replaces:
  assumes "sys_rel env cl A ns lo hi (op_state s) run"
    and "schedule stop_sched" and "schedule start_sched"
    and "os_templates s (req_IngestTemplate req) = Some t" and "template_ok t"
    and "req_Meta req = Some m" and "im_BroadcasterId m \<noteq> ''''"
    and "req_Deployment req \<in> A" and "req_Namespace req = ns"
  shows "\<exists>r s' run'. StartServer env stop_sched df start_sched req s = Some (Ret r, s')
    \<and> sys_rel env cl A ns lo hi (op_state s') run'
    \<and> (\<forall>b. b \<noteq> req_Deployment req \<longrightarrow> run' b = run b)
    \<and> (if {lo..hi} \<subseteq> ports_in_use (run(req_Deployment req := None))
       then (\<exists>msg. r = Inl (StatusErr Internal msg)) \<and> run' (req_Deployment req) = None
            \<and> run (req_Deployment req) = None
       else r = Inr (req_Deployment req, req_Namespace req)
            \<and> (\<exists>p. run' (req_Deployment req) = Some (req_params req t m, p)))"
  by (rule StartServer_spec [OF assms])

theorem StartServer_replaces_witness:
  "\<exists>w s' p run'. sys_rel mem_env mem_cl {''alice'', ''bob''} ''default'' 20000 20001 (op_state (mem_server w)) alice_runs
    \<and> StartServer mem_env in_order True in_reverse alice_request (mem_server w)
        = Some (Ret (Inr (''alice'', ''default'')), s')
    \<and> run' ''alice'' = Some (req_params alice_request golang_template
        \<lparr>im_BroadcasterId = ''1'', im_Username = ''alice''\<rparr>, p)"
proof -
  obtain w where w: "sys_rel mem_env mem_cl {''alice'', ''bob''} ''default'' 20000 20001 (port_range_2a, w) alice_runs"
    using mem_alice_running by blast
  then have rel: "sys_rel mem_env mem_cl {''alice'', ''bob''} ''default'' 20000 20001 (op_state (mem_server w)) alice_runs"
    by simp
  have "template_ok golang_template" by (simp add: template_ok_def golang_template_def port_name_defs)
  from StartServer_replaces [OF rel schedules, where req = alice_request and t = golang_template
      and m = "\<lparr>im_BroadcasterId = ''1'', im_Username = ''alice''\<rparr>" and df = True, OF _ this]
  moreover have "ports_in_use (alice_runs(''alice'' := None)) = {}"
    by (simp add: alice_runs_def ports_in_use_def)
  ultimately show ?thesis using rel by (intro exI [of _ w]) auto
qed

text \<open>A request without broadcaster data crashes the operator, but only after the running ingest
  of that name has been stopped and its port returned.\<close>

theorem StartServer_nil_meta_panics_after_stop:
  assumes "sys_rel env cl A ns lo hi (op_state s) run" and "schedule stop_sched"
    and "os_templates s (req_IngestTemplate req) = Some t"
    and "req_Meta req = None" and "req_Deployment req \<in> A" and "req_Namespace req = ns"
  shows "\<exists>msg s'. StartServer env stop_sched df start_sched req s = Some (Panic msg, s')
    \<and> sys_rel env cl A ns lo hi (op_state s') (run(req_Deployment req := None))"
proof -
  from stop_spec [OF assms(1,2,5), of df] obtain e ports1 w1 where
    stop: "StopIngestSystem env stop_sched df (req_Deployment req) ns (op_state s) = (e, ports1, w1)"
      "sys_rel env cl A ns lo hi (ports1, w1) (run(req_Deployment req := None))" by auto
  with assms(3,4,6) show ?thesis by (simp add: StartServer_def Get_template_def)
qed

theorem StartServer_nil_meta_panics_witness:
  "\<exists>w msg s'. StartServer mem_env in_order True in_order (alice_request\<lparr>req_Meta := None\<rparr>) (mem_server w) = Some (Panic msg, s')
    \<and> sys_rel mem_env mem_cl {''alice'', ''bob''} ''default'' 20000 20001 (op_state s') (alice_runs(''alice'' := None))"
proof -
  obtain w where "sys_rel mem_env mem_cl {''alice'', ''bob''} ''default'' 20000 20001 (port_range_2a, w) alice_runs"
    using mem_alice_running by blast
  then have "sys_rel mem_env mem_cl {''alice'', ''bob''} ''default'' 20000 20001 (op_state (mem_server w)) alice_runs"
    by simp
  from StartServer_nil_meta_panics_after_stop [OF this schedules(1), where req = "alice_request\<lparr>req_Meta := None\<rparr>"
      and t = golang_template and df = True and start_sched = in_order]
  show ?thesis by auto
qed

text \<open>Reconciling a template that is gone (the client's \<open>Get\<close> fails) keeps it: the container still
  serves it as before, and it gains the zero template under the empty name, which a request without
  a template name is then served with instead of \<open>NotFound\<close>.\<close>

theorem Reconcile_keeps_deleted_template:
  assumes "get name (os_world s) = Inl err" and "name \<noteq> ''''"
  shows "Get_template (os_templates (Reconcile get name s)) name = Get_template (os_templates s) name
    \<and> Get_template (os_templates (Reconcile get name s)) '''' = Inr zero_template
    \<and> StartServer env ss df ss' (req\<lparr>req_IngestTemplate := ''''\<rparr>) (Reconcile get name s)
        \<noteq> Some (Ret (Inl (StatusErr NotFound msg)), s')"
proof -
  have found: "Get_template (os_templates (Reconcile get name s)) [] = Inr zero_template"
    and kept: "Get_template (os_templates (Reconcile get name s)) name = Get_template (os_templates s) name"
    using assms by (simp_all add: Reconcile_def zero_template_def)
  have "StartServer env ss df ss' q t \<noteq> Some (Ret (Inl (StatusErr NotFound msg)), s')"
    if "Get_template (os_templates t) (req_IngestTemplate q) = Inr x" for q t x
    using that by (auto simp: StartServer_def Let_def split: prod.splits option.splits)
  with found kept show ?thesis by simp
qed

theorem Reconcile_keeps_deleted_template_witness:
  "Get_template (os_templates (Reconcile (\<lambda>n w. Inl (GoErr ''not found'')) ''golang-ingest-template''
      (mem_server mem_empty))) ''golang-ingest-template'' = Inr golang_template"
  using Reconcile_keeps_deleted_template
    [of "\<lambda>n w. Inl (GoErr ''not found'')" "''golang-ingest-template''" "mem_server mem_empty" "GoErr ''not found''"]
  by (simp add: Get_template_def)

text \<open>On a graceful shutdown the task registered for a template stops exactly the ingests that were
  started from it, whatever the order in which \<open>List\<close> returns them, and returns their ports; the
  others keep running.\<close>

theorem shutdown_task_stops_template:
  assumes "sys_rel env cl A ns lo hi (ports, w) run" and "\<And>app. schedule (sched app)"
    and "only_ours cl w run" and "list_laws (oe_k8s env) cl"
  shows "\<exists>ports' w'. shutdown_task env sched df name (ports, w) = (ports', w')
    \<and> sys_rel env cl A ns lo hi (ports', w') (without_template name run)
    \<and> dom (busyPortRange ports') = ports_in_use (without_template name run)
    \<and> (\<forall>a\<in>A. \<forall>params p. run a = Some (params, p) \<and> it_Name (stp_Template params) = name \<longrightarrow>
         (\<forall>key\<in>set (ingest_keys ns a). cl w' key = None))"
proof -
  obtain ports' w' where res: "shutdown_task env sched df name (ports, w) = (ports', w')" by fastforce
  have rel: "sys_rel env cl A ns lo hi (ports', w') (without_template name run)"
    unfolding res [symmetric] by (rule shutdown_task_rel(1)) (fact assms)+
  have "without_template name run a = None"
    if "run a = Some (params, p)" "it_Name (stp_Template params) = name" for a params p
    using that by (simp add: without_template_def)
  with res rel sys_relD(6,11) [OF rel] show ?thesis by blast
qed

theorem shutdown_task_stops_template_witness:
  "\<exists>w ports' w'. mem_cl w (KDeployment, ''default'', ''alice'') \<noteq> None
    \<and> shutdown_task mem_env (\<lambda>a. in_order) (\<lambda>a. True) ''golang-ingest-template'' (port_range_2a, w) = (ports', w')
    \<and> mem_cl w' (KDeployment, ''default'', ''alice'') = None"
proof -
  obtain w where w: "sys_rel mem_env mem_cl {''alice'', ''bob''} ''default'' 20000 20001 (port_range_2a, w) alice_runs"
    "only_ours mem_cl w alice_runs" using mem_alice_running by blast
  have list: "list_laws (oe_k8s mem_env) mem_cl" using mem_list_laws by (simp add: mem_env_def)
  have run: "alice_runs ''alice'' = Some (start_of ''alice'', 20000)" by (simp add: alice_runs_def)
  from ingest_stored_dep [OF sys_relD(9) [OF w(1) run]]
  have "mem_cl w (KDeployment, ''default'', ''alice'') \<noteq> None" by simp
  moreover have "it_Name (stp_Template (start_of ''alice'')) = ''golang-ingest-template''"
    by (simp add: start_of_def golang_template_def)
  moreover have "(KDeployment, ''default'', ''alice'') \<in> set (ingest_keys ''default'' ''alice'')"
    by (simp add: ingest_keys_def)
  ultimately show ?thesis
    using shutdown_task_stops_template [OF w(1) schedules(1) w(2) list,
        of "\<lambda>a. True" "''golang-ingest-template''"] run by fastforce
qed

text \<open>C9: when the operator stops gracefully, every ingest that was started from a template it has reconciled
  is gone from the cluster, and its port is free again, however often and in whatever order the templates
  were reconciled and in whatever order the tasks end; ingests of other templates keep running.\<close>

theorem shutdown_stops_reconciled_templates:
  assumes "s = fold (Reconcile get) names s0" and "os_tasks s0 = []" and "set order = set (os_tasks s)"
    and "sys_rel env cl A ns lo hi (op_state s0) run" and "only_ours cl (os_world s0) run"
    and "\<And>app. schedule (sched app)" and "list_laws (oe_k8s env) cl"
  shows "let s' = operator_OnStop env sched df order s; run' = without_templates (set names) run in
      sys_rel env cl A ns lo hi (op_state s') run' \<and> dom (busyPortRange (os_ports s')) = ports_in_use run'
    \<and> (\<forall>a\<in>A. \<forall>params p. run a = Some (params, p) \<longrightarrow>
        (if it_Name (stp_Template params) \<in> set names then \<forall>key\<in>set (ingest_keys ns a). cl (os_world s') key = None
         else ingest_stored (cl (os_world s')) params p))"
proof -
  have names: "set order = set names" "op_state s = op_state s0"
    using assms(3) by (simp_all add: assms(1,2) reconciled)
  obtain ports w where stop: "Gracefully env sched df order (op_state s) = (ports, w)" by fastforce
  from Gracefully_rel [OF assms(6,7,4), where df = df and order = order] assms(5)
  have rel: "sys_rel env cl A ns lo hi (ports, w) (without_templates (set names) run)" by (simp add: stop [symmetric] names)
  have "if it_Name (stp_Template params) \<in> set names then \<forall>key\<in>set (ingest_keys ns a). cl w key = None else ingest_stored (cl w) params p"
    if "a \<in> A" "run a = Some (params, p)" for a params p
    using sys_relD(11) [OF rel that(1)] sys_relD(9) [OF rel, of a params p] that(2) by (auto simp: without_templates_def)
  with stop rel sys_relD(6) [OF rel] show ?thesis by (simp add: operator_OnStop_def)
qed

theorem shutdown_stops_reconciled_templates_witness:
  "\<exists>w s s'. mem_cl w (KDeployment, ''default'', ''alice'') \<noteq> None
    \<and> s = Reconcile (\<lambda>n w. Inr golang_template) ''golang-ingest-template'' ((mem_server w)\<lparr>os_tasks := []\<rparr>)
    \<and> s' = operator_OnStop mem_env (\<lambda>a. in_order) (\<lambda>a. True) (os_tasks s) s
    \<and> mem_cl (os_world s') (KDeployment, ''default'', ''alice'') = None \<and> dom (busyPortRange (os_ports s')) = {}"
proof -
  obtain w where w: "sys_rel mem_env mem_cl {''alice'', ''bob''} ''default'' 20000 20001 (op_state ((mem_server w)\<lparr>os_tasks := []\<rparr>)) alice_runs"
    "only_ours mem_cl (os_world ((mem_server w)\<lparr>os_tasks := []\<rparr>)) alice_runs" using mem_alice_running by (auto simp: mem_server_def)
  have list: "list_laws (oe_k8s mem_env) mem_cl" using mem_list_laws by (simp add: mem_env_def)
  have tasks: "os_tasks ((mem_server w)\<lparr>os_tasks := []\<rparr>) = []" by simp
  let ?s = "fold (Reconcile (\<lambda>n w. Inr golang_template)) [''golang-ingest-template''] ((mem_server w)\<lparr>os_tasks := []\<rparr>)"
  have run: "alice_runs ''alice'' = Some (start_of ''alice'', 20000)" by (simp add: alice_runs_def)
  have name: "it_Name (stp_Template (start_of ''alice'')) = ''golang-ingest-template''" by (simp add: start_of_def golang_template_def)
  have none: "without_templates {''golang-ingest-template''} alice_runs = Map.empty"
    by (auto simp: without_templates_def alice_runs_def name fun_eq_iff)
  have key: "(KDeployment, ''default'', ''alice'') \<in> set (ingest_keys ''default'' ''alice'')" by (simp add: ingest_keys_def)
  note stop = shutdown_stops_reconciled_templates [where names = "[''golang-ingest-template'']" and get = "\<lambda>n w. Inr golang_template"
      and df = "\<lambda>a. True", OF refl tasks refl w schedules(1) list]
  have "mem_cl (os_world ((mem_server w)\<lparr>os_tasks := []\<rparr>)) (KDeployment, ''default'', ''alice'') \<noteq> None"
    using ingest_stored_dep [OF sys_relD(9) [OF w(1) run]] by simp
  with stop run name key show ?thesis
    by (intro exI [of _ w] exI [of _ ?s] exI [of _ "operator_OnStop mem_env (\<lambda>a. in_order) (\<lambda>a. True) (os_tasks ?s) ?s"])
      (fastforce simp: Let_def none ports_in_use_def)
qed

end
