(* ===== verification/Postgres.thy ===== *)
theory Postgres imports Prelude begin

text \<open>
  How the repositories of the identity and the stream service talk to PostgreSQL.  A statement either
  fails, leaving the database as it was, or takes effect as a whole; besides the constraints of the
  schema it may fail for reasons outside the model (a lost connection), which the parameter
  \<open>pg_fault\<close>, indexed by the number of the statement, decides.  The same number indexes the ids that
  \<open>uuid_generate_v4()\<close> makes.  A state is the database and the number of the next statement.
\<close>

type_synonym uuid = string

section \<open>Statements\<close>

record postgres =
  pg_fault :: "nat \<Rightarrow> goerr option"
  pg_uuid :: "nat \<Rightarrow> uuid"
  pg_json_ok :: "string \<Rightarrow> bool"

definition exec_stmt :: "'p postgres_scheme \<Rightarrow> (nat \<Rightarrow> 'd \<Rightarrow> goerr + 'a \<times> 'd) \<Rightarrow> ('d \<times> nat, 'a) call" where
  "exec_stmt pg f c =
     (let (db, n) = c in
      case pg_fault pg n of
        Some e \<Rightarrow> (Inl e, db, n + 1)
      | None \<Rightarrow> (case f n db of Inl e \<Rightarrow> (Inl e, db, n + 1) | Inr (x, db1) \<Rightarrow> (Inr x, db1, n + 1)))"

definition unique_violation :: goerr where
  "unique_violation = GoErr ''pq: duplicate key value violates unique constraint''"

definition fk_violation :: goerr where
  "fk_violation = GoErr ''pq: violates foreign key constraint''"

definition too_long :: goerr where
  "too_long = GoErr ''pq: value too long for type character varying''"

definition ErrNoRows :: goerr where
  "ErrNoRows = Sentinel ''qrm: no rows in result set''"

section \<open>Transactions\<close>

text \<open>A transaction: it works on its own copy and makes it the database only when it commits.\<close>

definition in_transaction ::
  "'p postgres_scheme \<Rightarrow> (goerr \<Rightarrow> goerr) \<Rightarrow> (goerr \<Rightarrow> goerr) \<Rightarrow> ('d \<times> nat, 'a) call \<Rightarrow> ('d \<times> nat, 'a) call" where
  "in_transaction pg begin_err body_err body c =
     (let (db, n) = c in
      case pg_fault pg n of
        Some e \<Rightarrow> (Inl (begin_err e), db, n + 1)
      | None \<Rightarrow>
          (case body (db, n + 1) of
             (Inl e, _, n1) \<Rightarrow> (Inl (body_err e), db, n1)
           | (Inr x, db1, n1) \<Rightarrow>
               (case pg_fault pg n1 of
                  Some e \<Rightarrow> (Inl e, db, n1 + 1)
                | None \<Rightarrow> (Inr x, db1, n1 + 1))))"

section \<open>Lemmas\<close>

lemma exec_stmt_Inr:
  "exec_stmt pg f (db, n) = (Inr x, c) \<longleftrightarrow>
     pg_fault pg n = None \<and> (\<exists>db1. f n db = Inr (x, db1) \<and> c = (db1, n + 1))"
  by (auto simp: exec_stmt_def split: option.splits sum.splits)

lemma exec_stmt_Inl:
  "exec_stmt pg f (db, n) = (Inl e, c) \<Longrightarrow> c = (db, n + 1)"
  by (auto simp: exec_stmt_def split: option.splits sum.splits prod.splits)

lemma in_transaction_Inr:
  "in_transaction pg be err body (db, n) = (Inr x, c) \<longleftrightarrow>
     pg_fault pg n = None \<and> (\<exists>db1 n1. body (db, n + 1) = (Inr x, db1, n1) \<and> pg_fault pg n1 = None
       \<and> c = (db1, n1 + 1))"
  by (auto simp: in_transaction_def split: option.splits sum.splits prod.splits)

lemma in_transaction_Inl:
  "in_transaction pg be err body (db, n) = (Inl e, db1, n1) \<Longrightarrow> db1 = db"
  by (auto simp: in_transaction_def split: option.splits sum.splits prod.splits)

end
