(* ===== verification/IdentityDb.thy ===== *)
theory IdentityDb imports Postgres begin

text \<open>
  The identity service's database: the tables and constraints of
  \<open>services/identity/migrations\<close> and the statements of the repositories in
  \<open>services/identity/internal/storage/postgres\<close>.  A table is a list of rows, a UUID its
  canonical text, a time a number of seconds, and a column of type \<open>varchar\<close> counts the characters of an
  ASCII string.
\<close>

section \<open>Tables\<close>

record user_row =
  u_id :: uuid
  u_username :: string
  u_password :: string

record key_row =
  k_id :: uuid
  k_jws_message :: string

record user_key_row =
  uk_user_id :: uuid
  uk_private_key_id :: uuid

record token_row =
  t_id :: uuid
  t_private_key_id :: uuid
  t_plaintext :: string
  t_expires_at :: int

record user_token_row =
  ut_user_id :: uuid
  ut_refresh_token_id :: uuid

record idb =
  users :: "user_row list"
  private_keys :: "key_row list"
  user_private_keys :: "user_key_row list"
  refresh_tokens :: "token_row list"
  user_refresh_tokens :: "user_token_row list"

text \<open>A connection or transaction: the database it sees and the number of its next statement.\<close>

type_synonym conn = "idb \<times> nat"

section \<open>Private keys\<close>

definition insert_key_stmt :: "postgres \<Rightarrow> string \<Rightarrow> nat \<Rightarrow> idb \<Rightarrow> goerr + key_row \<times> idb" where
  "insert_key_stmt pg jws n db =
     (let row = \<lparr>k_id = pg_uuid pg n, k_jws_message = jws\<rparr> in
      if \<not> pg_json_ok pg jws then Inl (GoErr ''pq: invalid input syntax for type json'')
      else if k_id row \<in> k_id ` set (private_keys db) then Inl unique_violation
      else Inr (row, db\<lparr>private_keys := private_keys db @ [row]\<rparr>))"

definition InsertPrivateKey :: "postgres \<Rightarrow> string \<Rightarrow> (conn, key_row) call" where
  "InsertPrivateKey pg jwsMessage = exec_stmt pg (insert_key_stmt pg jwsMessage)"

definition GetPrivateKeyById :: "postgres \<Rightarrow> uuid \<Rightarrow> (conn, string) call" where
  "GetPrivateKeyById pg ident = exec_stmt pg (\<lambda>n db.
     case find (\<lambda>k. k_id k = ident) (private_keys db) of
       None \<Rightarrow> Inl ErrNoRows
     | Some k \<Rightarrow> Inr (k_jws_message k, db))"

definition delete_key_stmt :: "uuid \<Rightarrow> nat \<Rightarrow> idb \<Rightarrow> goerr + unit \<times> idb" where
  "delete_key_stmt ident n db =
     (if ident \<in> k_id ` set (private_keys db) \<and> ident \<in> t_private_key_id ` set (refresh_tokens db)
      then Inl fk_violation
      else Inr ((), db\<lparr>private_keys := filter (\<lambda>k. k_id k \<noteq> ident) (private_keys db),
          user_private_keys := filter (\<lambda>x. uk_private_key_id x \<noteq> ident) (user_private_keys db)\<rparr>))"

definition DeletePrivateKey :: "postgres \<Rightarrow> uuid \<Rightarrow> (conn, unit) call" where
  "DeletePrivateKey pg ident = exec_stmt pg (delete_key_stmt ident)"

section \<open>Refresh tokens\<close>

definition insert_token_stmt ::
  "postgres \<Rightarrow> uuid \<Rightarrow> string \<Rightarrow> int \<Rightarrow> nat \<Rightarrow> idb \<Rightarrow> goerr + token_row \<times> idb" where
  "insert_token_stmt pg privateKeyID plaintextToken expiresAt n db =
     (let row = \<lparr>t_id = pg_uuid pg n, t_private_key_id = privateKeyID,
            t_plaintext = plaintextToken, t_expires_at = expiresAt\<rparr> in
      if t_id row \<in> t_id ` set (refresh_tokens db)
         \<or> privateKeyID \<in> t_private_key_id ` set (refresh_tokens db) then Inl unique_violation
      else if privateKeyID \<notin> k_id ` set (private_keys db) then Inl fk_violation
      else Inr (row, db\<lparr>refresh_tokens := refresh_tokens db @ [row]\<rparr>))"

definition InsertRefreshToken :: "postgres \<Rightarrow> uuid \<Rightarrow> string \<Rightarrow> int \<Rightarrow> (conn, token_row) call" where
  "InsertRefreshToken pg privateKeyID plaintextToken expiresAt =
     exec_stmt pg (insert_token_stmt pg privateKeyID plaintextToken expiresAt)"

definition delete_token_stmt :: "uuid \<Rightarrow> nat \<Rightarrow> idb \<Rightarrow> goerr + unit \<times> idb" where
  "delete_token_stmt privateKeyID n db =
     (let gone = t_id ` set (filter (\<lambda>t. t_private_key_id t = privateKeyID) (refresh_tokens db)) in
      Inr ((), db\<lparr>refresh_tokens := filter (\<lambda>t. t_private_key_id t \<noteq> privateKeyID) (refresh_tokens db),
         user_refresh_tokens := filter (\<lambda>x. ut_refresh_token_id x \<notin> gone) (user_refresh_tokens db)\<rparr>))"

definition DeleteRefreshTokenByPrivateKey :: "postgres \<Rightarrow> uuid \<Rightarrow> (conn, unit) call" where
  "DeleteRefreshTokenByPrivateKey pg privateKeyID = exec_stmt pg (delete_token_stmt privateKeyID)"

section \<open>Users\<close>

definition insert_user_stmt ::
  "postgres \<Rightarrow> string \<Rightarrow> string \<Rightarrow> nat \<Rightarrow> idb \<Rightarrow> goerr + user_row \<times> idb" where
  "insert_user_stmt pg username password n db =
     (let row = \<lparr>u_id = pg_uuid pg n, u_username = username, u_password = password\<rparr> in
      if length username > 30 \<or> length password > 200 then Inl too_long
      else if u_id row \<in> u_id ` set (users db) \<or> username \<in> u_username ` set (users db)
        then Inl unique_violation
      else Inr (row, db\<lparr>users := users db @ [row]\<rparr>))"

definition InsertUser :: "postgres \<Rightarrow> string \<Rightarrow> string \<Rightarrow> (conn, user_row) call" where
  "InsertUser pg username password = exec_stmt pg (insert_user_stmt pg username password)"

definition FindUserByUsername :: "postgres \<Rightarrow> string \<Rightarrow> (conn, user_row) call" where
  "FindUserByUsername pg username = exec_stmt pg (\<lambda>n db.
     case find (\<lambda>u. u_username u = username) (users db) of
       None \<Rightarrow> Inl ErrNoRows
     | Some u \<Rightarrow> Inr (u, db))"

definition FindUserByPrivateKey :: "postgres \<Rightarrow> uuid \<Rightarrow> (conn, user_row) call" where
  "FindUserByPrivateKey pg privateKeyID =
     try_call (exec_stmt pg (\<lambda>n db.
         case find (\<lambda>x. uk_private_key_id x = privateKeyID) (user_private_keys db) of
           None \<Rightarrow> Inl ErrNoRows
         | Some x \<Rightarrow> Inr (x, db)))
       (\<lambda>err. err)
       (\<lambda>userPKeys. exec_stmt pg (\<lambda>n db.
         case find (\<lambda>u. u_id u = uk_user_id userPKeys) (users db) of
           None \<Rightarrow> Inl ErrNoRows
         | Some u \<Rightarrow> Inr (u, db)))"

definition attach_key_stmt :: "uuid \<Rightarrow> uuid \<Rightarrow> nat \<Rightarrow> idb \<Rightarrow> goerr + unit \<times> idb" where
  "attach_key_stmt user_id private_key_id n db =
     (if private_key_id \<in> uk_private_key_id ` set (user_private_keys db) then Inl unique_violation
      else if user_id \<notin> u_id ` set (users db) \<or> private_key_id \<notin> k_id ` set (private_keys db)
        then Inl fk_violation
      else Inr ((), db\<lparr>user_private_keys := user_private_keys db @
          [\<lparr>uk_user_id = user_id, uk_private_key_id = private_key_id\<rparr>]\<rparr>))"

definition AttachPrivateKey :: "postgres \<Rightarrow> uuid \<Rightarrow> uuid \<Rightarrow> (conn, unit) call" where
  "AttachPrivateKey pg user_id private_key_id = exec_stmt pg (attach_key_stmt user_id private_key_id)"

definition attach_token_stmt :: "uuid \<Rightarrow> uuid \<Rightarrow> nat \<Rightarrow> idb \<Rightarrow> goerr + unit \<times> idb" where
  "attach_token_stmt user_id refreshTokenId n db =
     (if refreshTokenId \<in> ut_refresh_token_id ` set (user_refresh_tokens db) then Inl unique_violation
      else if user_id \<notin> u_id ` set (users db) \<or> refreshTokenId \<notin> t_id ` set (refresh_tokens db)
        then Inl fk_violation
      else Inr ((), db\<lparr>user_refresh_tokens := user_refresh_tokens db @
          [\<lparr>ut_user_id = user_id, ut_refresh_token_id = refreshTokenId\<rparr>]\<rparr>))"

definition AttachRefreshToken :: "postgres \<Rightarrow> uuid \<Rightarrow> uuid \<Rightarrow> (conn, unit) call" where
  "AttachRefreshToken pg user_id refreshTokenId = exec_stmt pg (attach_token_stmt user_id refreshTokenId)"

end
