(* ===== verification/Tokens.thy ===== *)
theory Tokens imports Prelude begin

text \<open>
  Tokens: \<open>pkg/tokenutils/private_key.go\<close> (and its copy in \<open>services/identity/pkg/tokenutils\<close>).
  The cryptography (\<open>crypto/rsa\<close>, the jwx library, UUID parsing) is not part of the source:
  its calls are the fields of \<open>jwx\<close> over an opaque type \<open>'k\<close> of keys.  A parsed JWS message
  has at least one signature; of it the source reads the key id of the first.  A key set is a list
  of keys with their ids.  \<open>jwx_laws\<close> states what the library documents and the code relies on.
\<close>

record token_claims =
  tc_iss :: string
  tc_aud :: "string list"
  tc_sub :: string
  tc_exp :: int
  tc_user_id :: "string option"
  tc_token_use :: "string option"

type_synonym 'k key_set = "(string \<times> 'k) list"

record 'k jwx =
  rsa_GenerateKey :: "nat \<Rightarrow> goerr + 'k"
  jwk_Marshal :: "'k \<Rightarrow> goerr + string"
  jwk_ParseKey :: "string \<Rightarrow> goerr + 'k"
  jwk_PublicKeyOf :: "'k \<Rightarrow> 'k"
  jwk_MarshalSet :: "'k key_set \<Rightarrow> goerr + string"
  jwk_ParseSet :: "string \<Rightarrow> goerr + 'k key_set"
  jwt_Build :: "token_claims \<Rightarrow> goerr option"
  jwt_Set :: "string \<Rightarrow> goerr option"
  jwt_Sign :: "token_claims \<Rightarrow> 'k \<Rightarrow> string \<Rightarrow> goerr + string"
  jws_Parse_kid :: "string \<Rightarrow> goerr + string"
  jws_Verify :: "'k key_set \<Rightarrow> string \<Rightarrow> goerr + string"
  jwt_Parse :: "string \<Rightarrow> goerr + token_claims"
  jwt_Validate :: "int \<Rightarrow> token_claims \<Rightarrow> goerr option"
  uuid_Parse :: "string \<Rightarrow> string \<times> goerr option"

section \<open>pkg/tokenutils\<close>

definition REFRESH_TOKEN_COOKIE_NAME :: string where
  "REFRESH_TOKEN_COOKIE_NAME = ''_refresh_token''"

text \<open>\<open>jwk.FromRaw\<close> is part of \<open>jwk_Marshal\<close>.\<close>

definition CreatePrivateKeyAsJwsMessage :: "'k jwx \<Rightarrow> nat \<Rightarrow> goerr + string" where
  "CreatePrivateKeyAsJwsMessage j n =
     (case rsa_GenerateKey j n of
        Inl err \<Rightarrow> Inl (errorf ''unable generate rsa private key. Error: '' err)
      | Inr pk \<Rightarrow>
          (case jwk_Marshal j pk of
             Inl err \<Rightarrow> Inl (errorf ''unable serialize jwk key as json message. Error: '' err)
           | Inr m \<Rightarrow> Inr m))"

definition InsecureToken :: "'k jwx \<Rightarrow> string \<Rightarrow> goerr + token_claims" where
  "InsecureToken j plainToken = jwt_Parse j plainToken"

definition InsecureJwsMessage :: "'k jwx \<Rightarrow> string \<Rightarrow> goerr + string" where
  "InsecureJwsMessage j plainToken = jws_Parse_kid j plainToken"

definition JwkPrivateKey :: "'k jwx \<Rightarrow> string \<Rightarrow> goerr + 'k" where
  "JwkPrivateKey j jwsMessage =
     (case jwk_ParseKey j jwsMessage of
        Inl err \<Rightarrow> Inl (errorf ''unable generate rsa private key. Error: '' err)
      | Inr key \<Rightarrow> Inr key)"

definition TrimTokenBearer :: "string \<Rightarrow> string" where
  "TrimTokenBearer plainToken = trim_prefix plainToken ''Bearer ''"

definition VerifyTokenByKeySet :: "'k jwx \<Rightarrow> 'k key_set \<Rightarrow> string \<Rightarrow> goerr + string" where
  "VerifyTokenByKeySet j keyset plainToken = jws_Verify j keyset plainToken"

definition tokenutils_ValidateToken :: "'k jwx \<Rightarrow> int \<Rightarrow> string \<Rightarrow> goerr option" where
  "tokenutils_ValidateToken j now plainToken =
     (case InsecureToken j plainToken of
        Inl err \<Rightarrow> Some (errorf ''unable cast plain token to jwt.Token to validate it. Error: '' err)
      | Inr token \<Rightarrow> jwt_Validate j now token)"

definition SerializeKeyset :: "'k jwx \<Rightarrow> 'k key_set \<Rightarrow> goerr + string" where
  "SerializeKeyset j keyset =
     (case jwk_MarshalSet j keyset of
        Inl err \<Rightarrow> Inl (errorf ''unable serialize jwk key as json message. Error: '' err)
      | Inr s \<Rightarrow> Inr s)"

section \<open>What the library documents\<close>

text \<open>
  A stored key can be read back; a key serialised as part of a set too.  A token signed with a key
  names the given key id, verifies against exactly the sets that hold the public part of that key
  under that id, and carries its claims.  Validation is about the expiry only.  A signed token is
  not empty and does not begin with \<open>Bearer \<close>.
\<close>

definition jwx_laws :: "'k jwx \<Rightarrow> bool" where
  "jwx_laws j \<longleftrightarrow>
     (\<forall>k m. jwk_Marshal j k = Inr m \<longrightarrow> jwk_ParseKey j m = Inr k)
   \<and> (\<forall>ks m. jwk_MarshalSet j ks = Inr m \<longrightarrow> jwk_ParseSet j m = Inr ks)
   \<and> (\<forall>c k i s. jwt_Sign j c k i = Inr s \<longrightarrow>
        s \<noteq> '''' \<and> \<not> has_prefix s ''Bearer '' \<and> jws_Parse_kid j s = Inr i
      \<and> (\<exists>payload. jws_Verify j [(i, jwk_PublicKeyOf j k)] s = Inr payload \<and> jwt_Parse j payload = Inr c))
   \<and> (\<forall>now c. (jwt_Validate j now c = None) = (now < tc_exp c))"

text \<open>The calls that only fail when memory or randomness runs out succeed.\<close>

definition jwx_healthy :: "'k jwx \<Rightarrow> bool" where
  "jwx_healthy j \<longleftrightarrow>
     (\<forall>n. \<exists>k m. rsa_GenerateKey j n = Inr k \<and> jwk_Marshal j k = Inr m)
   \<and> (\<forall>ks. \<exists>m. jwk_MarshalSet j ks = Inr m)
   \<and> (\<forall>c. jwt_Build j c = None) \<and> (\<forall>name. jwt_Set j name = None)
   \<and> (\<forall>c k i. \<exists>s. jwt_Sign j c k i = Inr s)"

lemma TrimTokenBearer_simps [simp]:
  "TrimTokenBearer (''Bearer '' @ t) = t"
  "\<not> has_prefix t ''Bearer '' \<Longrightarrow> TrimTokenBearer t = t"
  by (simp_all add: TrimTokenBearer_def trim_prefix_def has_prefix_def)

lemma jwx_signed:
  assumes "jwx_laws j" and "jwt_Sign j c k i = Inr s"
  shows "s \<noteq> ''''" "\<not> has_prefix s ''Bearer ''" "jws_Parse_kid j s = Inr i"
    "\<exists>payload. jws_Verify j [(i, jwk_PublicKeyOf j k)] s = Inr payload \<and> jwt_Parse j payload = Inr c"
  using assms unfolding jwx_laws_def by blast+

lemma jwx_marshal: "jwx_laws j \<Longrightarrow> jwk_Marshal j k = Inr m \<Longrightarrow> jwk_ParseKey j m = Inr k"
  unfolding jwx_laws_def by blast

lemma jwx_validate: "jwx_laws j \<Longrightarrow> (jwt_Validate j now c = None) = (now < tc_exp c)"
  unfolding jwx_laws_def by blast

section \<open>One year later\<close>

text \<open>
  \<open>time.AddDate(1, 0, 0)\<close> on a time in UTC, as seconds since 1970.  Counting years from March puts
  the leap day last, so adding a year keeps the day's number within the year and turns a 29 February
  into the 1 March after, as Go's normalisation does.
\<close>

definition march_year :: "int \<Rightarrow> int" where
  "march_year day =
     (let z = day + 719468; era = z div 146097; doe = z mod 146097;
          yoe = (doe - doe div 1460 + doe div 36524 - doe div 146096) div 365
      in yoe + era * 400)"

definition year_start :: "int \<Rightarrow> int" where
  "year_start y = 365 * y + y div 4 - y div 100 + y div 400"

definition add_one_year :: "int \<Rightarrow> int" where
  "add_one_year t =
     (let y = march_year (t div 86400) in t + 86400 * (year_start (y + 1) - year_start y))"

lemma div_step: "0 < k \<Longrightarrow> (y + 1) div k = y div k \<or> (y + 1) div k = y div k + 1" for y k :: int
  by (smt (verit) div_pos_pos_trivial zdiv_mono1 div_add_self2 div_mod_decomp_int)

lemma year_length: "year_start (y + 1) - year_start y = 365 \<or> year_start (y + 1) - year_start y = 366"
proof -
  have split: "x div 100 = x div 4 div 25" "x div 400 = x div 4 div 25 div 4" for x :: int
    by (simp_all flip: zdiv_zmult2_eq)
  have "(y + 1) div 4 = y div 4 \<or> (y + 1) div 4 = y div 4 + 1" by (rule div_step) simp
  then show ?thesis
  proof
    assume "(y + 1) div 4 = y div 4"
    then show ?thesis by (simp add: year_start_def split)
  next
    assume four: "(y + 1) div 4 = y div 4 + 1"
    from div_step [of 25 "y div 4"] div_step [of 4 "y div 4 div 25"] show ?thesis
      by (auto simp: year_start_def split four)
  qed
qed

text \<open>A refresh token lives 365 or 366 days.\<close>

lemma add_one_year_bounds:
  "add_one_year t = t + 365 * 86400 \<or> add_one_year t = t + 366 * 86400"
  using year_length [of "march_year (t div 86400)"] by (auto simp: add_one_year_def Let_def)

lemma add_one_year_later [simp]: "t < add_one_year t"
  using add_one_year_bounds [of t] by auto

end
