(* ===== verification/UserService.thy ===== *)
theory UserService imports IdentityDb Tokens HttpModel begin

text \<open>
  The identity service proper: \<open>services/identity/internal/security/service.go\<close> and
  \<open>services/identity/internal/user/service.go\<close>.  bcrypt and the token library are parameters.
  Requests are taken one at a time; within a transaction nothing has been written when the code
  reads outside it, so both reads see the same database.
\<close>

record 'k identity =
  id_pg :: postgres
  id_jwx :: "'k jwx"
  bcrypt_Generate :: "string \<Rightarrow> goerr + string"
  bcrypt_Compare :: "string \<Rightarrow> string \<Rightarrow> goerr option"

section \<open>Security service\<close>

definition CreateToken :: "'k jwx \<Rightarrow> string \<Rightarrow> string list \<Rightarrow> int \<Rightarrow> goerr + token_claims" where
  "CreateToken j username claims expiresAt =
     (let t = \<lparr>tc_iss = ''0.0.0.0'', tc_aud = claims, tc_sub = username, tc_exp = expiresAt,
            tc_user_id = None, tc_token_use = None\<rparr>
      in case jwt_Build j t of Some err \<Rightarrow> Inl err | None \<Rightarrow> Inr t)"

definition signToken :: "'k jwx \<Rightarrow> string \<Rightarrow> string \<Rightarrow> token_claims \<Rightarrow> goerr + string" where
  "signToken j signKey kid token =
     (case jwk_ParseKey j signKey of
        Inl err \<Rightarrow> Inl (errorf ''unable serialize jws json message as jwk.Token. Error: '' err)
      | Inr sign \<Rightarrow> jwt_Sign j token sign kid)"

record create_token_params =
  ct_PrivateKeyJwsMessage :: string
  ct_Kid :: string
  ct_Username :: string
  ct_Claims :: "string list"
  ct_UserID :: uuid

definition CreateUserAccessToken :: "'k jwx \<Rightarrow> int \<Rightarrow> create_token_params \<Rightarrow> goerr + string" where
  "CreateUserAccessToken j now params =
     (let expiresAt = now + 60 in
      case CreateToken j (ct_Username params) (ct_Claims params) expiresAt of
        Inl err \<Rightarrow> Inl (errorf ''Unable create access token. Error: '' err)
      | Inr token \<Rightarrow>
          (case jwt_Set j ''user:id'' of
             Some err \<Rightarrow> Inl (errorf ''Unable set `user:id` claim. Error: '' err)
           | None \<Rightarrow>
               (case jwt_Set j ''token:use'' of
                  Some err \<Rightarrow> Inl (errorf ''unable set `token:use` claim. Error: '' err)
                | None \<Rightarrow>
                    (case signToken j (ct_PrivateKeyJwsMessage params) (ct_Kid params)
                        (token\<lparr>tc_user_id := Some (ct_UserID params), tc_token_use := Some ''access_token''\<rparr>) of
                       Inl err \<Rightarrow> Inl (errorf ''Unable sign token. Error: '' err)
                     | Inr signedBytes \<Rightarrow> Inr signedBytes))))"

definition CreateRefreshToken :: "'k jwx \<Rightarrow> int \<Rightarrow> create_token_params \<Rightarrow> goerr + string \<times> int" where
  "CreateRefreshToken j now params =
     (let expiresAt = add_one_year now in
      case CreateToken j (ct_Username params) (ct_Claims params) expiresAt of
        Inl err \<Rightarrow> Inl (errorf ''Unable create refresh token. Error: '' err)
      | Inr token \<Rightarrow>
          (case jwt_Set j ''user:id'' of
             Some err \<Rightarrow> Inl (errorf ''Unable set `user:id` claim. Error: '' err)
           | None \<Rightarrow>
               (case jwt_Set j ''token:use'' of
                  Some err \<Rightarrow> Inl (errorf ''unable set `token:use` claim. Error: '' err)
                | None \<Rightarrow>
                    (case signToken j (ct_PrivateKeyJwsMessage params) (ct_Kid params)
                        (token\<lparr>tc_user_id := Some (ct_UserID params), tc_token_use := Some ''refresh_token''\<rparr>) of
                       Inl err \<Rightarrow> Inl (errorf ''Unable sign refresh token. Error: '' err)
                     | Inr signedBytes \<Rightarrow> Inr (signedBytes, expiresAt)))))"

definition getKeySet :: "'k jwx \<Rightarrow> string \<Rightarrow> 'k \<Rightarrow> 'k key_set" where
  "getKeySet j kid privateKey = [(kid, jwk_PublicKeyOf j privateKey)]"

definition getPrivateKey :: "'k identity \<Rightarrow> uuid \<Rightarrow> (conn, 'k) call" where
  "getPrivateKey I kid =
     try_call (GetPrivateKeyById (id_pg I) kid) (errorf ''Unable find private key record. Error: '')
       (\<lambda>jws. lift (JwkPrivateKey (id_jwx I) jws))"

definition parse_error :: "goerr \<Rightarrow> goerr" where
  "parse_error = errorf ''Unable get cast plain token to jws message. Error: ''"

text \<open>The error of \<open>uuid.Parse\<close> is ignored; what it returned besides is used.\<close>

definition GetPublciKeys :: "'k identity \<Rightarrow> string \<Rightarrow> (conn, string) call" where
  "GetPublciKeys I rawToken =
     (let plainToken = TrimTokenBearer rawToken; j = id_jwx I in
      if plainToken = '''' then fail (GoErr ''empty token'')
      else try_call (lift (InsecureJwsMessage j plainToken)) parse_error
        (\<lambda>kid. let (kidUUID, _) = uuid_Parse j kid in
           try_call (getPrivateKey I kidUUID) (errorf ''Unable get private key. Error: '')
             (\<lambda>privateKey. lift (SerializeKeyset j (getKeySet j kid privateKey)))))"

definition ValidateToken :: "'k identity \<Rightarrow> int \<Rightarrow> string \<Rightarrow> (conn, string) call" where
  "ValidateToken I now rawToken =
     (let plainToken = TrimTokenBearer rawToken; j = id_jwx I in
      if plainToken = '''' then fail (GoErr ''empty token'')
      else try_call (lift (InsecureJwsMessage j plainToken)) parse_error
        (\<lambda>kid. case uuid_Parse j kid of
             (_, Some err) \<Rightarrow> fail (GoErr ''Unable parse kid as uuid'')
           | (kidUUID, None) \<Rightarrow>
               try_call (getPrivateKey I kidUUID) (errorf ''Unable get private key. Error: '')
                 (\<lambda>privateKey.
                    try_call (lift (VerifyTokenByKeySet j (getKeySet j kid privateKey) plainToken))
                      (errorf ''Not verified token. Error: '')
                      (\<lambda>verifiedPayload. case tokenutils_ValidateToken j now verifiedPayload of
                           Some err \<Rightarrow> fail (errorf ''Invalid token. Error: '' err)
                         | None \<Rightarrow> return verifiedPayload))))"

definition GetUserKID :: "'k identity \<Rightarrow> string \<Rightarrow> (conn, uuid) call" where
  "GetUserKID I rawToken =
     (let plainToken = TrimTokenBearer rawToken; j = id_jwx I in
      try_call (lift (InsecureJwsMessage j plainToken)) parse_error
        (\<lambda>kid. case uuid_Parse j kid of
             (_, Some err) \<Rightarrow> fail (GoErr ''Unable parse kid as uuid'')
           | (kidUUID, None) \<Rightarrow> return kidUUID))"

definition GetPrivateKey :: "'k identity \<Rightarrow> uuid \<Rightarrow> (conn, string) call" where
  "GetPrivateKey I kid =
     try_call (GetPrivateKeyById (id_pg I) kid) (errorf ''Unable find private key record. Error: '') return"

section \<open>User service\<close>

definition DEFAULT_CLAIMS :: "string list" where
  "DEFAULT_CLAIMS = [''user'', ''broadcaster'']"

record user_tokens_result =
  AccessToken :: string
  RefreshToken :: cookie

record user_info =
  ui_userID :: uuid
  ui_username :: string
  ui_claims :: "string list"

definition refresh_cookie :: "string \<Rightarrow> int \<Rightarrow> cookie" where
  "refresh_cookie refreshToken expiresAt =
     \<lparr>ck_Name = REFRESH_TOKEN_COOKIE_NAME, ck_Value = refreshToken, ck_Path = ''/'', ck_MaxAge = 0,
      ck_Expires = Some expiresAt, ck_HttpOnly = True\<rparr>"

definition userGenerateAccessToken ::
  "'k identity \<Rightarrow> int \<Rightarrow> string \<Rightarrow> string \<Rightarrow> user_info \<Rightarrow> (conn, string) call" where
  "userGenerateAccessToken I now privateKeyJws kid user =
     try_call (lift (CreateUserAccessToken (id_jwx I) now
         \<lparr>ct_PrivateKeyJwsMessage = privateKeyJws, ct_Kid = kid, ct_Username = ui_username user,
          ct_Claims = ui_claims user, ct_UserID = ui_userID user\<rparr>))
       (errorf ''Unable generate access token. Error: '') return"

definition userGenerateRefreshToken ::
  "'k identity \<Rightarrow> int \<Rightarrow> string \<Rightarrow> uuid \<Rightarrow> user_info \<Rightarrow> (conn, string \<times> int) call" where
  "userGenerateRefreshToken I now privateKeyJws kid user =
     try_call (lift (CreateRefreshToken (id_jwx I) now
         \<lparr>ct_PrivateKeyJwsMessage = privateKeyJws, ct_Kid = kid, ct_Username = ui_username user,
          ct_Claims = ui_claims user, ct_UserID = ui_userID user\<rparr>))
       (errorf ''Unable generate refresh token. Error: '')
       (\<lambda>(refreshToken, expiresAt).
          try_call (InsertRefreshToken (id_pg I) kid refreshToken expiresAt)
            (errorf ''Unable store refresh token. Error: '')
            (\<lambda>refreshTokenStored.
               try_call (AttachRefreshToken (id_pg I) (ui_userID user) (t_id refreshTokenStored))
                 (errorf ''Unable store associated refresh token with user. Error.  Error: '')
                 (\<lambda>_. return (t_plaintext refreshTokenStored, expiresAt))))"

definition userGenerateTokens :: "'k identity \<Rightarrow> int \<Rightarrow> user_info \<Rightarrow> (conn, user_tokens_result) call" where
  "userGenerateTokens I now user =
     try_call (\<lambda>c. lift (CreatePrivateKeyAsJwsMessage (id_jwx I) (snd c)) c)
       (errorf ''Unable create private key. Error: '')
       (\<lambda>privateKeyJws.
          try_call (InsertPrivateKey (id_pg I) privateKeyJws)
            (errorf ''Unable save private key record. Error: '')
            (\<lambda>privateKey.
               try_call (AttachPrivateKey (id_pg I) (ui_userID user) (k_id privateKey))
                 (errorf ''Unable store associated private key with user. Error: '')
                 (\<lambda>_. try_call (userGenerateRefreshToken I now (k_jws_message privateKey) (k_id privateKey) user)
                    (errorf ''Unable generate refresh token. Error: '')
                    (\<lambda>(refreshToken, expiresAt).
                       try_call (userGenerateAccessToken I now (k_jws_message privateKey) (k_id privateKey) user)
                         (\<lambda>err. err)
                         (\<lambda>accessToken. return \<lparr>AccessToken = accessToken,
                            RefreshToken = refresh_cookie refreshToken expiresAt\<rparr>)))))"

definition userRefreshTokens :: "'k identity \<Rightarrow> int \<Rightarrow> uuid \<Rightarrow> (conn, user_tokens_result) call" where
  "userRefreshTokens I now kid =
     try_call (FindUserByPrivateKey (id_pg I) kid) (errorf ''Unable find user by private key. Error: '')
       (\<lambda>user. try_call (GetPrivateKey I kid) (errorf ''Unable find private key. Error: '')
          (\<lambda>pkey. try_call (lift (CreateUserAccessToken (id_jwx I) now
                \<lparr>ct_PrivateKeyJwsMessage = pkey, ct_Kid = kid, ct_Username = u_username user,
                 ct_Claims = DEFAULT_CLAIMS, ct_UserID = u_id user\<rparr>))
              (errorf ''Unable create access token. Error: '')
              (\<lambda>accessToken.
                 try_call (DeleteRefreshTokenByPrivateKey (id_pg I) kid)
                   (errorf ''Unable delete old access token. Error: '')
                   (\<lambda>_. try_call (userGenerateRefreshToken I now pkey kid
                         \<lparr>ui_userID = u_id user, ui_username = u_username user, ui_claims = DEFAULT_CLAIMS\<rparr>)
                      (errorf ''Unable refresh token. Error: '')
                      (\<lambda>(refreshToken, expiresAt). return \<lparr>AccessToken = accessToken,
                          RefreshToken = refresh_cookie refreshToken expiresAt\<rparr>)))))"

text \<open>The two entry points that also return an HTTP status.\<close>

type_synonym 'a with_status = "((goerr \<times> nat) + ('a \<times> nat))"

definition status_of :: "nat \<Rightarrow> nat \<Rightarrow> (goerr + 'a) \<times> conn \<Rightarrow> 'a with_status \<times> conn" where
  "status_of bad good r =
     (case r of (Inl e, c) \<Rightarrow> (Inl (e, bad), c) | (Inr x, c) \<Rightarrow> (Inr (x, good), c))"

definition RegisterUser ::
  "'k identity \<Rightarrow> int \<Rightarrow> string \<Rightarrow> string \<Rightarrow> conn \<Rightarrow> user_tokens_result with_status \<times> conn" where
  "RegisterUser I now username password c =
     (case bcrypt_Generate I password of
        Inl err \<Rightarrow> (Inl (errorf ''Unable hash password. Error: '' err, 500), c)
      | Inr hashed \<Rightarrow>
          status_of 500 201
            (in_transaction (id_pg I) (errorf ''Unable start transaction, Error: '') (\<lambda>err. err)
              (try_call (InsertUser (id_pg I) username hashed) (errorf ''Unable insert user record. Error: '')
                (\<lambda>user. userGenerateTokens I now
                   \<lparr>ui_userID = u_id user, ui_username = u_username user, ui_claims = DEFAULT_CLAIMS\<rparr>)) c))"

definition UserLogin ::
  "'k identity \<Rightarrow> int \<Rightarrow> string \<Rightarrow> string \<Rightarrow> conn \<Rightarrow> user_tokens_result with_status \<times> conn" where
  "UserLogin I now username password c =
     (case FindUserByUsername (id_pg I) username c of
        (Inl err, c1) \<Rightarrow> (Inl (errorf ''Not found user. Error: '' err, 404), c1)
      | (Inr user, c1) \<Rightarrow>
          (case bcrypt_Compare I (u_password user) password of
             Some err \<Rightarrow> (Inl (errorf ''Different password. Error: '' err, 422), c1)
           | None \<Rightarrow>
               status_of 500 200
                 (in_transaction (id_pg I) (errorf ''Unable start transaction. Error: '') (\<lambda>err. err)
                   (userGenerateTokens I now \<lparr>ui_userID = u_id user, ui_username = u_username user,
                      ui_claims = DEFAULT_CLAIMS\<rparr>) c1)))"

definition UserExchangeAccessToken ::
  "'k identity \<Rightarrow> int \<Rightarrow> string \<Rightarrow> (conn, user_tokens_result) call" where
  "UserExchangeAccessToken I now rawRefreshToken =
     try_call (ValidateToken I now rawRefreshToken) (\<lambda>err. err)
       (\<lambda>_. try_call (GetUserKID I rawRefreshToken) (\<lambda>err. err)
          (\<lambda>kid. in_transaction (id_pg I) (errorf ''Unable start transaction. Error: '')
             (errorf ''Unable refresh tokens. Error: '') (userRefreshTokens I now kid)))"

definition UserDeleteRefreshToken :: "'k identity \<Rightarrow> string \<Rightarrow> (conn, unit) call" where
  "UserDeleteRefreshToken I rawRefreshToken =
     try_call (GetUserKID I rawRefreshToken) (\<lambda>err. err)
       (\<lambda>kid. in_transaction (id_pg I) (errorf ''Unable start transaction. Error: '') (\<lambda>err. err)
          (try_call (DeleteRefreshTokenByPrivateKey (id_pg I) kid)
             (errorf ''Unable delete refresh token. Error: '')
             (\<lambda>_. try_call (DeletePrivateKey (id_pg I) kid)
                (errorf ''Unable delete private key. Error: '') return)))"

end
