(* ===== verification/TokenExample.thy ===== *)
theory TokenExample imports UserService begin

text \<open>
  A token library and an identity service that satisfy what the code relies on, for the concrete
  inputs of the witnesses: keys are numbers, a string is coded with a mark before each character, a
  token is the key id, the key and the coded claims.
\<close>

section \<open>Coding values as strings\<close>

fun enc_str :: "string \<Rightarrow> string" where
  "enc_str [] = ''.''"
| "enc_str (c # s) = CHR ''x'' # c # enc_str s"

fun dec_str :: "string \<Rightarrow> string \<times> string" where
  "dec_str (m # c # s) = (if m = CHR ''x'' then (let (t, r) = dec_str s in (c # t, r)) else ([], c # s))"
| "dec_str s = ([], [])"

fun enc_list :: "string list \<Rightarrow> string" where
  "enc_list [] = ''.''"
| "enc_list (x # xs) = CHR ''x'' # enc_str x @ enc_list xs"

fun dec_list :: "nat \<Rightarrow> string \<Rightarrow> string list \<times> string" where
  "dec_list 0 s = ([], s)"
| "dec_list (Suc n) [] = ([], [])"
| "dec_list (Suc n) (m # s) = (if m = CHR ''x'' then
     (let (x, r) = dec_str s; (xs, r') = dec_list n r in (x # xs, r')) else ([], s))"

lemma enc_str_not_Nil [simp]: "enc_str s \<noteq> []"
  by (cases s) simp_all

lemma dec_enc_str [simp]: "dec_str (enc_str s @ r) = (s, r)"
  by (induction s) (simp_all split: list.split, cases r, simp_all)

lemma dec_enc_str' [simp]: "dec_str (enc_str s) = (s, [])"
  using dec_enc_str [of s "[]"] by simp

lemma dec_enc_list [simp]: "length xs < n \<Longrightarrow> dec_list n (enc_list xs @ r) = (xs, r)"
  by (induction xs arbitrary: n) (auto simp: less_Suc_eq_0_disj gr0_conv_Suc Suc_less_eq2)

lemma length_enc_list: "length xs < length (enc_list xs)"
  by (induction xs) auto

definition enc_int :: "int \<Rightarrow> string" where
  "enc_int i = (if i < 0 then CHR ''-'' # nat_str (nat (- i)) else CHR ''+'' # nat_str (nat i))"

definition dec_int :: "string \<Rightarrow> int" where
  "dec_int s = (case digits_value 0 (tl s) of None \<Rightarrow> 0 | Some n \<Rightarrow>
     if take 1 s = ''-'' then - int n else int n)"

lemma dec_enc_int [simp]: "dec_int (enc_int i) = i"
  by (simp add: dec_int_def enc_int_def)

definition opt_list :: "string option \<Rightarrow> string list" where
  "opt_list x = (case x of None \<Rightarrow> [] | Some s \<Rightarrow> [s])"

definition list_opt :: "string list \<Rightarrow> string option" where
  "list_opt xs = (case xs of [] \<Rightarrow> None | s # _ \<Rightarrow> Some s)"

lemma list_opt_list [simp]: "list_opt (opt_list x) = x"
  by (simp add: opt_list_def list_opt_def split: option.split)

definition enc_claims :: "token_claims \<Rightarrow> string" where
  "enc_claims c = enc_list [tc_iss c, enc_list (tc_aud c), tc_sub c, enc_int (tc_exp c),
     enc_list (opt_list (tc_user_id c)), enc_list (opt_list (tc_token_use c))]"

definition dec_all :: "string \<Rightarrow> string list" where
  "dec_all s = fst (dec_list (length s) s)"

lemma dec_all_enc [simp]: "dec_all (enc_list xs) = xs"
  using dec_enc_list [OF length_enc_list, of xs "[]"] by (simp add: dec_all_def)

definition dec_claims :: "string \<Rightarrow> goerr + token_claims" where
  "dec_claims s = (case dec_all s of
      [iss, aud, sub, e, uid, use] \<Rightarrow> Inr \<lparr>tc_iss = iss, tc_aud = dec_all aud, tc_sub = sub, tc_exp = dec_int e,
         tc_user_id = list_opt (dec_all uid), tc_token_use = list_opt (dec_all use)\<rparr>
    | _ \<Rightarrow> Inl (GoErr ''failed to parse token''))"

lemma dec_enc_claims [simp]: "dec_claims (enc_claims c) = Inr c"
  by (simp add: dec_claims_def enc_claims_def del: enc_list.simps)

section \<open>The token library\<close>

definition dec_key :: "string \<Rightarrow> nat" where
  "dec_key s = nat (dec_int s)"

definition enc_key :: "nat \<Rightarrow> string" where
  "enc_key k = enc_int (int k)"

lemma dec_enc_key [simp]: "dec_key (enc_key k) = k"
  by (simp add: dec_key_def enc_key_def)

definition enc_set :: "nat key_set \<Rightarrow> string" where
  "enc_set ks = enc_list (map (\<lambda>(i, k). enc_list [i, enc_key k]) ks)"

definition dec_set :: "string \<Rightarrow> nat key_set" where
  "dec_set s = map (\<lambda>e. case dec_all e of [i, k] \<Rightarrow> (i, dec_key k) | _ \<Rightarrow> ([], 0)) (dec_all s)"

lemma dec_enc_set [simp]: "dec_set (enc_set ks) = ks"
  by (simp add: dec_set_def enc_set_def comp_def case_prod_unfold del: enc_list.simps)

definition toy_sign :: "token_claims \<Rightarrow> nat \<Rightarrow> string \<Rightarrow> string" where
  "toy_sign c k i = CHR ''T'' # enc_list [i, enc_key k, enc_claims c]"

definition toy_jwx :: "nat jwx" where
  "toy_jwx = \<lparr>rsa_GenerateKey = Inr, jwk_Marshal = \<lambda>k. Inr (enc_key k),
     jwk_ParseKey = \<lambda>s. Inr (dec_key s), jwk_PublicKeyOf = \<lambda>k. k,
     jwk_MarshalSet = \<lambda>ks. Inr (enc_set ks), jwk_ParseSet = \<lambda>s. Inr (dec_set s),
     jwt_Build = \<lambda>_. None, jwt_Set = \<lambda>_. None, jwt_Sign = \<lambda>c k i. Inr (toy_sign c k i),
     jws_Parse_kid = \<lambda>s. (case dec_all (tl s) of [i, k, c] \<Rightarrow> Inr i | _ \<Rightarrow> Inl (GoErr ''invalid compact serialization format'')),
     jws_Verify = \<lambda>ks s. (case dec_all (tl s) of
         [i, k, c] \<Rightarrow> (if (i, dec_key k) \<in> set ks then Inr c else Inl (GoErr ''could not verify message''))
       | _ \<Rightarrow> Inl (GoErr ''invalid compact serialization format'')),
     jwt_Parse = dec_claims,
     jwt_Validate = \<lambda>now c. (if now < tc_exp c then None else Some (GoErr ''exp not satisfied'')),
     uuid_Parse = \<lambda>s. (if s = [] then ([], Some (GoErr ''invalid UUID length: 0'')) else (s, None))\<rparr>"

lemma toy_jwx_simps [simp]:
  "rsa_GenerateKey toy_jwx n = Inr n" "jwk_Marshal toy_jwx k = Inr (enc_key k)"
  "jwk_ParseKey toy_jwx s = Inr (dec_key s)" "jwk_PublicKeyOf toy_jwx k = k"
  "jwk_MarshalSet toy_jwx ks = Inr (enc_set ks)" "jwk_ParseSet toy_jwx s = Inr (dec_set s)"
  "jwt_Build toy_jwx c = None" "jwt_Set toy_jwx name = None" "jwt_Sign toy_jwx c k i = Inr (toy_sign c k i)"
  "jwt_Parse toy_jwx s = dec_claims s"
  "jwt_Validate toy_jwx now c = (if now < tc_exp c then None else Some (GoErr ''exp not satisfied''))"
  "uuid_Parse toy_jwx s = (if s = [] then ([], Some (GoErr ''invalid UUID length: 0'')) else (s, None))"
  "jws_Parse_kid toy_jwx (toy_sign c k i) = Inr i"
  "jws_Verify toy_jwx ks (toy_sign c k i) =
     (if (i, k) \<in> set ks then Inr (enc_claims c) else Inl (GoErr ''could not verify message''))"
  by (simp_all add: toy_jwx_def toy_sign_def del: enc_list.simps)

lemma toy_jwx_laws [simp]: "jwx_laws toy_jwx"
  by (auto simp: jwx_laws_def) (auto simp: toy_sign_def has_prefix_def)

lemma toy_jwx_healthy [simp]: "jwx_healthy toy_jwx"
  by (simp add: jwx_healthy_def)

section \<open>The identity service\<close>

definition toy_pg :: postgres where
  "toy_pg = \<lparr>pg_fault = \<lambda>_. None, pg_uuid = nat_str, pg_json_ok = \<lambda>_. True\<rparr>"

definition toy_identity :: "nat identity" where
  "toy_identity = \<lparr>id_pg = toy_pg, id_jwx = toy_jwx, bcrypt_Generate = \<lambda>pw. Inr (CHR ''h'' # pw),
     bcrypt_Compare = \<lambda>h pw. if h = CHR ''h'' # pw then None else Some (GoErr ''hashedPassword is not the hash'')\<rparr>"

lemma toy_identity_simps [simp]:
  "id_pg toy_identity = toy_pg" "id_jwx toy_identity = toy_jwx"
  "bcrypt_Generate toy_identity pw = Inr (CHR ''h'' # pw)"
  "bcrypt_Compare toy_identity h pw = (if h = CHR ''h'' # pw then None else Some (GoErr ''hashedPassword is not the hash''))"
  "pg_fault toy_pg n = None" "pg_uuid toy_pg n = nat_str n" "pg_json_ok toy_pg s"
  by (simp_all add: toy_identity_def toy_pg_def)

end
