(* ===== verification/IdentityInvariants.thy ===== *)
theory IdentityInvariants imports UserService begin

text \<open>
  What the identity database means: a user is known by name, a session by the id of its private key.
  The tables keep, beside the schema's constraints, that every key has exactly one owner and one
  refresh token and that token is attached to the same user.  The operations of the user service
  keep this invariant and refine an abstract machine of users and sessions.
\<close>

section \<open>Statements\<close>

named_theorems stmts \<open>definitions of the repositories and their statements\<close>

lemmas stmt_defs [stmts] =
  insert_key_stmt_def delete_key_stmt_def insert_token_stmt_def delete_token_stmt_def
  insert_user_stmt_def attach_key_stmt_def attach_token_stmt_def InsertPrivateKey_def
  GetPrivateKeyById_def DeletePrivateKey_def InsertRefreshToken_def
  DeleteRefreshTokenByPrivateKey_def InsertUser_def FindUserByUsername_def
  FindUserByPrivateKey_def AttachPrivateKey_def AttachRefreshToken_def Let_def

section \<open>Lookups\<close>

definition key_of_id :: "idb \<Rightarrow> uuid \<Rightarrow> key_row option" where
  "key_of_id db kid = find (\<lambda>k. k_id k = kid) (private_keys db)"

definition owner_of :: "idb \<Rightarrow> uuid \<Rightarrow> uuid option" where
  "owner_of db kid = map_option uk_user_id (find (\<lambda>x. uk_private_key_id x = kid) (user_private_keys db))"

definition token_of :: "idb \<Rightarrow> uuid \<Rightarrow> token_row option" where
  "token_of db kid = find (\<lambda>t. t_private_key_id t = kid) (refresh_tokens db)"

definition token_user :: "idb \<Rightarrow> uuid \<Rightarrow> uuid option" where
  "token_user db tid = map_option ut_user_id (find (\<lambda>x. ut_refresh_token_id x = tid) (user_refresh_tokens db))"

definition user_named :: "idb \<Rightarrow> string \<Rightarrow> user_row option" where
  "user_named db name = find (\<lambda>u. u_username u = name) (users db)"

definition user_by_id :: "idb \<Rightarrow> uuid \<Rightarrow> user_row option" where
  "user_by_id db i = find (\<lambda>u. u_id u = i) (users db)"

lemma find_append: "find P (xs @ ys) = (case find P xs of None \<Rightarrow> find P ys | Some x \<Rightarrow> Some x)"
  by (induction xs) auto

lemma find_filter: "find P (filter Q xs) = find (\<lambda>x. Q x \<and> P x) xs"
  by (induction xs) auto

lemma find_None_image: "find (\<lambda>x. f x = a) xs = None \<longleftrightarrow> a \<notin> f ` set xs"
  by (induction xs) auto

lemma find_Some_image: "find (\<lambda>x. f x = a) xs = Some x \<Longrightarrow> f x = a \<and> x \<in> set xs"
  by (induction xs) (auto split: if_splits)

text \<open>
  The invariant: the identities of the schema, the owners and tokens of the keys.  In terms of the
  lookups: a key has an owner exactly when it exists, and so for its token; a token is attached to
  the owner of its key; an owner is a user.
\<close>

definition idb_inv :: "idb \<Rightarrow> bool" where
  "idb_inv db \<longleftrightarrow>
     distinct (map t_id (refresh_tokens db))
   \<and> distinct (map u_username (users db)) \<and> distinct (map u_id (users db))
   \<and> (\<forall>kid. (owner_of db kid = None) = (key_of_id db kid = None))
   \<and> (\<forall>kid. (token_of db kid = None) = (key_of_id db kid = None))
   \<and> (\<forall>kid t. token_of db kid = Some t \<longrightarrow> token_user db (t_id t) = owner_of db kid)
   \<and> (\<forall>kid u. owner_of db kid = Some u \<longrightarrow> user_by_id db u \<noteq> None)
   \<and> distinct (map t_private_key_id (refresh_tokens db))
   \<and> ut_refresh_token_id ` set (user_refresh_tokens db) \<subseteq> t_id ` set (refresh_tokens db)"

text \<open>A session: its user, its private key, its refresh token and when that expires.\<close>

type_synonym session = "uuid \<times> string \<times> string \<times> int"

definition session_of :: "idb \<Rightarrow> uuid \<Rightarrow> session option" where
  "session_of db kid =
     (case (key_of_id db kid, owner_of db kid, token_of db kid) of
        (Some k, Some u, Some t) \<Rightarrow> Some (u, k_jws_message k, t_plaintext t, t_expires_at t)
      | _ \<Rightarrow> None)"

section \<open>A new session\<close>

definition add_session :: "key_row \<Rightarrow> uuid \<Rightarrow> token_row \<Rightarrow> idb \<Rightarrow> idb" where
  "add_session k uid t db = db\<lparr>private_keys := private_keys db @ [k],
     user_private_keys := user_private_keys db @ [\<lparr>uk_user_id = uid, uk_private_key_id = k_id k\<rparr>],
     refresh_tokens := refresh_tokens db @ [t],
     user_refresh_tokens := user_refresh_tokens db @ [\<lparr>ut_user_id = uid, ut_refresh_token_id = t_id t\<rparr>]\<rparr>"

lemma add_session_lookups:
  assumes "key_of_id db (k_id k) = None" and "idb_inv db" and "t_private_key_id t = k_id k"
    and "t_id t \<notin> t_id ` set (refresh_tokens db)"
  shows "key_of_id (add_session k uid t db) = (key_of_id db)(k_id k \<mapsto> k)"
    and "owner_of (add_session k uid t db) = (owner_of db)(k_id k \<mapsto> uid)"
    and "token_of (add_session k uid t db) = (token_of db)(k_id k \<mapsto> t)"
    and "token_user (add_session k uid t db) = (token_user db)(t_id t \<mapsto> uid)"
    and "user_named (add_session k uid t db) = user_named db"
    and "user_by_id (add_session k uid t db) = user_by_id db"
proof -
  have none: "owner_of db (k_id k) = None" "token_of db (k_id k) = None"
    using assms(1,2) by (auto simp: idb_inv_def)
  have "token_user db (t_id t) = None"
    using assms(2,4) by (auto simp: idb_inv_def token_user_def find_None_image)
  with none assms(1,3) show
    "key_of_id (add_session k uid t db) = (key_of_id db)(k_id k \<mapsto> k)"
    "owner_of (add_session k uid t db) = (owner_of db)(k_id k \<mapsto> uid)"
    "token_of (add_session k uid t db) = (token_of db)(k_id k \<mapsto> t)"
    "token_user (add_session k uid t db) = (token_user db)(t_id t \<mapsto> uid)"
    by (auto simp: add_session_def key_of_id_def owner_of_def token_of_def token_user_def
        find_append fun_eq_iff split: option.splits)
qed (simp_all add: add_session_def user_named_def user_by_id_def fun_eq_iff)

lemma add_session_inv:
  assumes "idb_inv db" and "key_of_id db (k_id k) = None" and "t_private_key_id t = k_id k"
    and "t_id t \<notin> t_id ` set (refresh_tokens db)" and "user_by_id db uid \<noteq> None"
  shows "idb_inv (add_session k uid t db)"
proof -
  note look = add_session_lookups [OF assms(2,1,3,4), of uid]
  have "token_of db (k_id k) = None" using assms(1,2) by (auto simp: idb_inv_def)
  then have "k_id k \<notin> t_private_key_id ` set (refresh_tokens db)" by (simp add: token_of_def find_None_image)
  moreover have "t_id t' \<noteq> t_id t" if "token_of db kid = Some t'" for kid t'
  proof -
    have "t' \<in> set (refresh_tokens db)"
      using find_Some_image [of t_private_key_id kid "refresh_tokens db" t'] that by (simp add: token_of_def)
    then show ?thesis using assms(4) by (metis imageI)
  qed
  ultimately show ?thesis
    using assms unfolding idb_inv_def look by (auto simp: add_session_def)
qed

lemma add_session_session:
  assumes "idb_inv db" and "key_of_id db (k_id k) = None" and "t_private_key_id t = k_id k"
    and "t_id t \<notin> t_id ` set (refresh_tokens db)"
  shows "session_of (add_session k uid t db)
    = (session_of db)(k_id k \<mapsto> (uid, k_jws_message k, t_plaintext t, t_expires_at t))"
  unfolding session_of_def add_session_lookups [OF assms(2,1,3,4)]
  by (auto simp: fun_eq_iff split: option.splits)

definition token_params :: "string \<Rightarrow> uuid \<Rightarrow> user_info \<Rightarrow> create_token_params" where
  "token_params jws kid user = \<lparr>ct_PrivateKeyJwsMessage = jws, ct_Kid = kid, ct_Username = ui_username user,
     ct_Claims = ui_claims user, ct_UserID = ui_userID user\<rparr>"

lemma user_by_id_iff: "user_by_id db i \<noteq> None \<longleftrightarrow> i \<in> u_id ` set (users db)"
  by (simp add: user_by_id_def find_None_image)

lemma key_of_id_iff: "key_of_id db i = None \<longleftrightarrow> i \<notin> k_id ` set (private_keys db)"
  by (simp add: key_of_id_def find_None_image)

lemma InsertRefreshToken_Inr:
  assumes "InsertRefreshToken pg kid s e (db, n) = (Inr t, c)"
  shows "t_private_key_id t = kid" "t_plaintext t = s" "t_expires_at t = e" "t_id t = pg_uuid pg n"
    "t_id t \<notin> t_id ` set (refresh_tokens db)" "kid \<notin> t_private_key_id ` set (refresh_tokens db)"
    "kid \<in> k_id ` set (private_keys db)"
    "c = (db\<lparr>refresh_tokens := refresh_tokens db @ [t]\<rparr>, n + 1)"
  using assms
  by (auto simp: InsertRefreshToken_def insert_token_stmt_def exec_stmt_Inr Let_def split: if_splits)

lemma AttachRefreshToken_Inr:
  assumes "AttachRefreshToken pg uid tid (db, n) = (Inr x, c)"
  shows "uid \<in> u_id ` set (users db)" "tid \<notin> ut_refresh_token_id ` set (user_refresh_tokens db)"
    "c = (db\<lparr>user_refresh_tokens := user_refresh_tokens db @
      [\<lparr>ut_user_id = uid, ut_refresh_token_id = tid\<rparr>]\<rparr>, n + 1)"
  using assms
  by (auto simp: AttachRefreshToken_def attach_token_stmt_def exec_stmt_Inr split: if_splits)

lemma userGenerateRefreshToken_Inr:
  assumes "userGenerateRefreshToken I now jws kid user (db, n) = (Inr (s, e), db', n')"
  obtains t where "CreateRefreshToken (id_jwx I) now (token_params jws kid user) = Inr (s, e)"
    and "t_private_key_id t = kid" "t_plaintext t = s" "t_expires_at t = e"
    and "t_id t \<notin> t_id ` set (refresh_tokens db)" "kid \<notin> t_private_key_id ` set (refresh_tokens db)"
    and "t_id t \<notin> ut_refresh_token_id ` set (user_refresh_tokens db)"
    and "ui_userID user \<in> u_id ` set (users db)" "kid \<in> k_id ` set (private_keys db)"
    and "db' = db\<lparr>refresh_tokens := refresh_tokens db @ [t], user_refresh_tokens := user_refresh_tokens db @
      [\<lparr>ut_user_id = ui_userID user, ut_refresh_token_id = t_id t\<rparr>]\<rparr>"
proof -
  obtain s0 e0 t c1 where
    create: "CreateRefreshToken (id_jwx I) now (token_params jws kid user) = Inr (s0, e0)" and
    ins: "InsertRefreshToken (id_pg I) kid s0 e0 (db, n) = (Inr t, c1)" and
    att: "AttachRefreshToken (id_pg I) (ui_userID user) (t_id t) c1 = (Inr (), db', n')" and
    res: "s = t_plaintext t" "e = e0"
    using assms by (auto simp: userGenerateRefreshToken_def try_call_Inr token_params_def)
  note i = InsertRefreshToken_Inr [OF ins]
  note a = AttachRefreshToken_Inr [OF att [unfolded i(8)]]
  show ?thesis by (rule that [of t]) (use create i a res in simp_all)
qed

lemma InsertPrivateKey_Inr:
  assumes "InsertPrivateKey pg jws (db, n) = (Inr k, c)"
  shows "k_jws_message k = jws" "key_of_id db (k_id k) = None"
    "c = (db\<lparr>private_keys := private_keys db @ [k]\<rparr>, n + 1)" "pg_fault pg n = None" "k_id k = pg_uuid pg n"
  using assms
  by (auto simp: InsertPrivateKey_def insert_key_stmt_def exec_stmt_Inr Let_def key_of_id_iff split: if_splits)

lemma AttachPrivateKey_Inr:
  assumes "AttachPrivateKey pg uid kid (db, n) = (Inr x, c)"
  shows "uid \<in> u_id ` set (users db)" "pg_fault pg n = None"
    "c = (db\<lparr>user_private_keys := user_private_keys db @
      [\<lparr>uk_user_id = uid, uk_private_key_id = kid\<rparr>]\<rparr>, n + 1)"
  using assms
  by (auto simp: AttachPrivateKey_def attach_key_stmt_def exec_stmt_Inr split: if_splits)

lemma userGenerateTokens_Inr:
  assumes "userGenerateTokens I now user (db, n) = (Inr r, db', n')"
  obtains k t where "CreatePrivateKeyAsJwsMessage (id_jwx I) n = Inr (k_jws_message k)"
    and "CreateRefreshToken (id_jwx I) now (token_params (k_jws_message k) (k_id k) user)
      = Inr (t_plaintext t, t_expires_at t)"
    and "CreateUserAccessToken (id_jwx I) now (token_params (k_jws_message k) (k_id k) user) = Inr (AccessToken r)"
    and "RefreshToken r = refresh_cookie (t_plaintext t) (t_expires_at t)"
    and "key_of_id db (k_id k) = None" "t_private_key_id t = k_id k"
    and "t_id t \<notin> t_id ` set (refresh_tokens db)" "user_by_id db (ui_userID user) \<noteq> None"
    and "db' = add_session k (ui_userID user) t db" "pg_uuid (id_pg I) n = k_id k"
proof -
  obtain jws k c1 c2 s e tok db2 n2 where
    jws: "CreatePrivateKeyAsJwsMessage (id_jwx I) n = Inr jws" and
    ins: "InsertPrivateKey (id_pg I) jws (db, n) = (Inr k, c1)" and
    att: "AttachPrivateKey (id_pg I) (ui_userID user) (k_id k) c1 = (Inr (), c2)" and
    gen: "userGenerateRefreshToken I now (k_jws_message k) (k_id k) user c2 = (Inr (s, e), db2, n2)" and
    tok: "userGenerateAccessToken I now (k_jws_message k) (k_id k) user (db2, n2) = (Inr tok, db', n')" and
    r: "r = \<lparr>AccessToken = tok, RefreshToken = refresh_cookie s e\<rparr>"
    using assms by (auto simp: userGenerateTokens_def try_call_Inr)
  note k = InsertPrivateKey_Inr [OF ins]
  note u = AttachPrivateKey_Inr [OF att [unfolded k(3)]]
  from userGenerateRefreshToken_Inr [OF gen [unfolded u(3)]] obtain t where
    t: "CreateRefreshToken (id_jwx I) now (token_params jws (k_id k) user) = Inr (s, e)"
      "t_private_key_id t = k_id k" "t_plaintext t = s" "t_expires_at t = e"
      "t_id t \<notin> t_id ` set (refresh_tokens db)" "db2 = add_session k (ui_userID user) t db"
    by (auto simp: add_session_def k(1))
  have "CreateUserAccessToken (id_jwx I) now (token_params jws (k_id k) user) = Inr tok" "db' = db2"
    using tok by (auto simp: userGenerateAccessToken_def try_call_Inr token_params_def k(1))
  moreover have uid: "user_by_id db (ui_userID user) \<noteq> None"
    using u(1) unfolding user_by_id_iff by simp
  ultimately show ?thesis using jws k(1,2,5) r t uid
    by (intro that [of k t]) simp_all
qed

section \<open>A new refresh token for a session\<close>

definition drop_token :: "uuid \<Rightarrow> idb \<Rightarrow> idb" where
  "drop_token kid db = db\<lparr>refresh_tokens := filter (\<lambda>t. t_private_key_id t \<noteq> kid) (refresh_tokens db),
     user_refresh_tokens := filter (\<lambda>x. ut_refresh_token_id x \<notin>
       t_id ` set (filter (\<lambda>t. t_private_key_id t = kid) (refresh_tokens db))) (user_refresh_tokens db)\<rparr>"

definition replace_token :: "uuid \<Rightarrow> uuid \<Rightarrow> token_row \<Rightarrow> idb \<Rightarrow> idb" where
  "replace_token kid uid t db = (let db1 = drop_token kid db in
     db1\<lparr>refresh_tokens := refresh_tokens db1 @ [t], user_refresh_tokens := user_refresh_tokens db1 @
       [\<lparr>ut_user_id = uid, ut_refresh_token_id = t_id t\<rparr>]\<rparr>)"

definition drop_session :: "uuid \<Rightarrow> idb \<Rightarrow> idb" where
  "drop_session kid db = (let db1 = drop_token kid db in
     db1\<lparr>private_keys := filter (\<lambda>k. k_id k \<noteq> kid) (private_keys db1),
         user_private_keys := filter (\<lambda>x. uk_private_key_id x \<noteq> kid) (user_private_keys db1)\<rparr>)"

lemma userRefreshTokens_Inr:
  assumes "userRefreshTokens I now kid (db, n) = (Inr r, db', n')"
  obtains uid u jws t where "owner_of db kid = Some uid" "user_by_id db uid = Some u"
    and "map_option k_jws_message (key_of_id db kid) = Some jws"
    and "CreateUserAccessToken (id_jwx I) now (token_params jws kid
      \<lparr>ui_userID = u_id u, ui_username = u_username u, ui_claims = DEFAULT_CLAIMS\<rparr>) = Inr (AccessToken r)"
    and "CreateRefreshToken (id_jwx I) now (token_params jws kid
      \<lparr>ui_userID = u_id u, ui_username = u_username u, ui_claims = DEFAULT_CLAIMS\<rparr>)
      = Inr (t_plaintext t, t_expires_at t)"
    and "RefreshToken r = refresh_cookie (t_plaintext t) (t_expires_at t)"
    and "t_private_key_id t = kid" "t_id t \<notin> t_id ` set (refresh_tokens (drop_token kid db))"
    and "t_id t \<notin> ut_refresh_token_id ` set (user_refresh_tokens (drop_token kid db))"
    and "db' = replace_token kid (u_id u) t db"
proof -
  obtain uk u k n1 tok s e where
    rows: "find (\<lambda>x. uk_private_key_id x = kid) (user_private_keys db) = Some uk"
      "user_by_id db (uk_user_id uk) = Some u" "key_of_id db kid = Some k" and
    tok: "CreateUserAccessToken (id_jwx I) now (token_params (k_jws_message k) kid
      \<lparr>ui_userID = u_id u, ui_username = u_username u, ui_claims = DEFAULT_CLAIMS\<rparr>) = Inr tok" and
    gen: "userGenerateRefreshToken I now (k_jws_message k) kid
      \<lparr>ui_userID = u_id u, ui_username = u_username u, ui_claims = DEFAULT_CLAIMS\<rparr>
      (drop_token kid db, n1) = (Inr (s, e), db', n')" and
    r: "r = \<lparr>AccessToken = tok, RefreshToken = refresh_cookie s e\<rparr>"
    using assms
    by (auto simp: userRefreshTokens_def try_call_Inr exec_stmt_Inr FindUserByPrivateKey_def GetPrivateKey_def
        GetPrivateKeyById_def DeleteRefreshTokenByPrivateKey_def delete_token_stmt_def Let_def
        token_params_def user_by_id_def key_of_id_def drop_token_def split: option.splits)
  from userGenerateRefreshToken_Inr [OF gen] obtain t where
    t: "CreateRefreshToken (id_jwx I) now (token_params (k_jws_message k) kid
        \<lparr>ui_userID = u_id u, ui_username = u_username u, ui_claims = DEFAULT_CLAIMS\<rparr>) = Inr (s, e)"
      "t_private_key_id t = kid" "t_plaintext t = s" "t_expires_at t = e"
      "t_id t \<notin> t_id ` set (refresh_tokens (drop_token kid db))"
      "t_id t \<notin> ut_refresh_token_id ` set (user_refresh_tokens (drop_token kid db))"
      "db' = replace_token kid (u_id u) t db"
    by (auto simp: replace_token_def Let_def)
  show ?thesis
    by (rule that [of "uk_user_id uk" u "k_jws_message k" t]) (use rows tok r t in \<open>auto simp: owner_of_def\<close>)
qed

lemma token_of_drop: "token_of (drop_token kid db) = (token_of db)(kid := None)"
proof
  fix i
  show "token_of (drop_token kid db) i = ((token_of db)(kid := None)) i"
  proof (cases "i = kid")
    case True
    then show ?thesis by (simp add: token_of_def drop_token_def find_filter find_None_iff')
  next
    case False
    then show ?thesis by (auto simp: token_of_def drop_token_def find_filter intro!: find_cong)
  qed
qed

lemma inj_tokens:
  assumes "idb_inv db" "t \<in> set (refresh_tokens db)" "t' \<in> set (refresh_tokens db)" "t_id t = t_id t'"
  shows "t = t'"
  using assms by (auto simp: idb_inv_def distinct_map inj_on_def)

lemma token_of_iff:
  assumes "idb_inv db"
  shows "token_of db kid = Some t \<longleftrightarrow> t \<in> set (refresh_tokens db) \<and> t_private_key_id t = kid"
proof
  assume "token_of db kid = Some t"
  then show "t \<in> set (refresh_tokens db) \<and> t_private_key_id t = kid"
    using find_Some_image [of t_private_key_id kid "refresh_tokens db" t] by (simp add: token_of_def)
next
  assume t: "t \<in> set (refresh_tokens db) \<and> t_private_key_id t = kid"
  have "distinct (map t_private_key_id (refresh_tokens db))" using assms by (simp add: idb_inv_def)
  with t show "token_of db kid = Some t" using map_of_find by (force simp: token_of_def)
qed

text \<open>Dropping a token leaves the tokens of the other keys attached as they were.\<close>

lemma token_user_drop:
  assumes "idb_inv db" and "token_of db i = Some t" and "i \<noteq> kid"
  shows "token_user (drop_token kid db) (t_id t) = token_user db (t_id t)"
proof -
  have t: "t \<in> set (refresh_tokens db)" "t_private_key_id t = i"
    using assms(1,2) by (simp_all add: token_of_iff)
  let ?gone = "t_id ` set (filter (\<lambda>t. t_private_key_id t = kid) (refresh_tokens db))"
  have "t_id t \<notin> ?gone"
    using inj_tokens [OF assms(1) _ t(1)] t assms(3) by auto
  then have "find (\<lambda>x. ut_refresh_token_id x \<notin> ?gone \<and> ut_refresh_token_id x = t_id t) (user_refresh_tokens db)
    = find (\<lambda>x. ut_refresh_token_id x = t_id t) (user_refresh_tokens db)"
    by (intro find_cong refl) metis
  then show ?thesis by (simp add: token_user_def drop_token_def find_filter del: set_filter)
qed

lemma drop_token_attached:
  assumes "idb_inv db"
  shows "ut_refresh_token_id ` set (user_refresh_tokens (drop_token kid db))
    \<subseteq> t_id ` set (refresh_tokens (drop_token kid db))"
proof
  fix i assume "i \<in> ut_refresh_token_id ` set (user_refresh_tokens (drop_token kid db))"
  then obtain x where x: "x \<in> set (user_refresh_tokens db)" "ut_refresh_token_id x = i"
    "i \<notin> t_id ` set (filter (\<lambda>t. t_private_key_id t = kid) (refresh_tokens db))"
    by (auto simp: drop_token_def)
  then have "i \<in> t_id ` set (refresh_tokens db)" using assms by (auto simp: idb_inv_def)
  with x(3) show "i \<in> t_id ` set (refresh_tokens (drop_token kid db))" by (auto simp: drop_token_def)
qed

lemma drop_token_other:
  "key_of_id (drop_token kid db) = key_of_id db" "owner_of (drop_token kid db) = owner_of db"
  "user_named (drop_token kid db) = user_named db" "user_by_id (drop_token kid db) = user_by_id db"
  by (simp_all add: drop_token_def key_of_id_def owner_of_def user_named_def user_by_id_def fun_eq_iff)

lemma replace_token_lookups:
  assumes "idb_inv db" and "t_private_key_id t = kid"
    and "t_id t \<notin> ut_refresh_token_id ` set (user_refresh_tokens (drop_token kid db))"
  shows "key_of_id (replace_token kid uid t db) = key_of_id db"
    and "owner_of (replace_token kid uid t db) = owner_of db"
    and "user_named (replace_token kid uid t db) = user_named db"
    and "user_by_id (replace_token kid uid t db) = user_by_id db"
    and "token_of (replace_token kid uid t db) = (token_of db)(kid \<mapsto> t)"
    and "token_user (replace_token kid uid t db) = (token_user (drop_token kid db))(t_id t \<mapsto> uid)"
proof -
  show "key_of_id (replace_token kid uid t db) = key_of_id db"
    "owner_of (replace_token kid uid t db) = owner_of db"
    "user_named (replace_token kid uid t db) = user_named db"
    "user_by_id (replace_token kid uid t db) = user_by_id db"
    using drop_token_other [of kid db]
    by (simp_all add: replace_token_def Let_def key_of_id_def owner_of_def user_named_def user_by_id_def fun_eq_iff)
  have "token_of (replace_token kid uid t db) i
      = (case token_of (drop_token kid db) i of None \<Rightarrow> if kid = i then Some t else None | Some x \<Rightarrow> Some x)" for i
    using assms(2) by (simp add: replace_token_def Let_def token_of_def find_append split: option.split)
  then show "token_of (replace_token kid uid t db) = (token_of db)(kid \<mapsto> t)"
    by (auto simp: token_of_drop fun_eq_iff split: option.splits)
  have "token_user (drop_token kid db) (t_id t) = None"
    using assms(3) by (simp add: token_user_def find_None_image)
  then show "token_user (replace_token kid uid t db) = (token_user (drop_token kid db))(t_id t \<mapsto> uid)"
    by (auto simp: replace_token_def Let_def token_user_def find_append fun_eq_iff split: option.splits)
qed

lemma distinct_map_filter_key: "distinct (map f xs) \<Longrightarrow> distinct (map f (filter P xs))"
  by (induction xs) auto

lemma replace_token_inv:
  assumes inv: "idb_inv db" and t: "t_private_key_id t = kid"
    and new: "t_id t \<notin> ut_refresh_token_id ` set (user_refresh_tokens (drop_token kid db))"
      "t_id t \<notin> t_id ` set (refresh_tokens (drop_token kid db))"
    and owner: "owner_of db kid = Some uid"
  shows "idb_inv (replace_token kid uid t db)"
proof -
  note look = replace_token_lookups [OF inv t new(1), of uid]
  let ?db = "replace_token kid uid t db"
  have tokens: "refresh_tokens ?db = filter (\<lambda>t. t_private_key_id t \<noteq> kid) (refresh_tokens db) @ [t]"
    by (simp add: replace_token_def drop_token_def Let_def)
  have "distinct (map t_id (refresh_tokens ?db))" "distinct (map t_private_key_id (refresh_tokens ?db))"
    using inv t new(2) by (auto simp: tokens idb_inv_def drop_token_def distinct_map_filter_key)
  moreover have "users ?db = users db" by (simp add: replace_token_def drop_token_def Let_def)
  moreover have "token_user ?db (t_id t') = owner_of ?db i" if "token_of ?db i = Some t'" for i t'
  proof (cases "i = kid")
    case True
    with that look owner show ?thesis by simp
  next
    case False
    with that look(5) have i: "token_of db i = Some t'" by simp
    then have "t' \<in> set (refresh_tokens db)" "t_private_key_id t' = i" by (simp_all add: token_of_iff [OF inv])
    with False have "t' \<in> set (refresh_tokens (drop_token kid db))" by (simp add: drop_token_def)
    with new(2) have "t_id t' \<noteq> t_id t" by (metis imageI)
    with look(2,6) token_user_drop [OF inv i False] inv i show ?thesis by (simp add: idb_inv_def)
  qed
  moreover have "key_of_id db kid \<noteq> None"
    using inv owner unfolding idb_inv_def by (metis option.distinct(1))
  then have "(token_of ?db i = None) = (key_of_id ?db i = None)" for i
    using inv look(1,5) by (simp add: idb_inv_def)
  moreover have "ut_refresh_token_id ` set (user_refresh_tokens ?db) \<subseteq> t_id ` set (refresh_tokens ?db)"
    using drop_token_attached [OF inv, of kid] by (auto simp: replace_token_def Let_def)
  ultimately show ?thesis
    using inv look(1,2,4) by (simp add: idb_inv_def)
qed

lemma replace_token_session:
  assumes inv: "idb_inv db" and t: "t_private_key_id t = kid"
    and new: "t_id t \<notin> ut_refresh_token_id ` set (user_refresh_tokens (drop_token kid db))"
    and sess: "session_of db kid = Some (u, jws, s, e)"
  shows "session_of (replace_token kid uid t db)
    = (session_of db)(kid \<mapsto> (u, jws, t_plaintext t, t_expires_at t))"
  using sess unfolding session_of_def replace_token_lookups [OF inv t new]
  by (auto simp: fun_eq_iff split: option.splits)

lemma drop_session_lookups:
  "key_of_id (drop_session kid db) = (key_of_id db)(kid := None)"
  "owner_of (drop_session kid db) = (owner_of db)(kid := None)"
  "token_of (drop_session kid db) = (token_of db)(kid := None)"
  "token_user (drop_session kid db) = token_user (drop_token kid db)"
  "user_named (drop_session kid db) = user_named db"
  "user_by_id (drop_session kid db) = user_by_id db"
proof -
  have one: "find (\<lambda>x. f x \<noteq> kid \<and> f x = i) xs = (if i = kid then None else find (\<lambda>x. f x = i) xs)"
    for f :: "'a \<Rightarrow> uuid" and i xs by (induction xs) auto
  show "key_of_id (drop_session kid db) = (key_of_id db)(kid := None)"
    "owner_of (drop_session kid db) = (owner_of db)(kid := None)"
    by (auto simp: drop_session_def drop_token_def Let_def key_of_id_def owner_of_def find_filter fun_eq_iff
        find_None_iff' intro!: arg_cong [where f = "map_option uk_user_id"] find_cong)
  show "token_of (drop_session kid db) = (token_of db)(kid := None)"
    unfolding token_of_drop [symmetric] by (simp add: drop_session_def Let_def token_of_def fun_eq_iff)
qed (simp_all add: drop_session_def drop_token_def Let_def token_user_def user_named_def user_by_id_def fun_eq_iff)

lemma drop_session_inv:
  assumes inv: "idb_inv db"
  shows "idb_inv (drop_session kid db)"
proof -
  let ?db = "drop_session kid db"
  have "distinct (map t_id (refresh_tokens ?db))" "distinct (map t_private_key_id (refresh_tokens ?db))"
    using inv by (auto simp: idb_inv_def drop_session_def drop_token_def Let_def distinct_map_filter_key)
  moreover have "users ?db = users db" by (simp add: drop_session_def drop_token_def Let_def)
  moreover have "ut_refresh_token_id ` set (user_refresh_tokens ?db) \<subseteq> t_id ` set (refresh_tokens ?db)"
    using drop_token_attached [OF inv, of kid] by (simp add: drop_session_def Let_def)
  moreover have "token_user ?db (t_id t) = owner_of ?db i" if "token_of ?db i = Some t" for i t
  proof -
    from that have i: "token_of db i = Some t" "i \<noteq> kid"
      by (auto simp: drop_session_lookups split: if_splits)
    with token_user_drop [OF inv i] inv show ?thesis
      by (simp add: drop_session_lookups idb_inv_def)
  qed
  moreover have "(owner_of ?db i = None) = (key_of_id ?db i = None)" "(token_of ?db i = None) = (key_of_id ?db i = None)" for i
    using inv by (simp_all add: drop_session_lookups idb_inv_def)
  moreover have "user_by_id ?db u \<noteq> None" if "owner_of ?db i = Some u" for i u
    using inv that by (auto simp: drop_session_lookups idb_inv_def split: if_splits)
  ultimately show ?thesis using inv by (simp add: idb_inv_def)
qed

lemma drop_session_session: "session_of (drop_session kid db) = (session_of db)(kid := None)"
  by (auto simp: session_of_def drop_session_lookups fun_eq_iff split: option.splits)

lemma session_of_ex:
  assumes "idb_inv db"
  shows "session_of db kid = None \<longleftrightarrow> key_of_id db kid = None"
proof -
  have "(owner_of db kid = None) = (key_of_id db kid = None)" "(token_of db kid = None) = (key_of_id db kid = None)"
    using assms by (simp_all add: idb_inv_def)
  then show ?thesis by (auto simp: session_of_def split: option.splits)
qed

end
