(* ===== verification/IdentityLifecycle.thy ===== *)
theory IdentityLifecycle imports IdentityInvariants begin

text \<open>
  What the identity service promises: an abstract machine of users and sessions that registering,
  logging in, exchanging a token and signing out refine, whatever statement or library call fails on
  the way.
\<close>

section \<open>The abstract machine\<close>

record abs_identity =
  a_users :: "string \<Rightarrow> (uuid \<times> string) option"
  a_sessions :: "uuid \<Rightarrow> session option"

datatype id_op =
    Register int string string | Login int string string | Exchange int string | SignOut string

text \<open>The session a token names, and whether a session's key validates it.\<close>

definition token_kid :: "'k identity \<Rightarrow> string \<Rightarrow> uuid option" where
  "token_kid I raw =
     (case jws_Parse_kid (id_jwx I) (TrimTokenBearer raw) of
        Inl _ \<Rightarrow> None
      | Inr kid \<Rightarrow> (case uuid_Parse (id_jwx I) kid of (u, None) \<Rightarrow> Some u | _ \<Rightarrow> None))"

definition token_valid :: "'k identity \<Rightarrow> int \<Rightarrow> string \<Rightarrow> string \<Rightarrow> string option" where
  "token_valid I now raw jws =
     (let j = id_jwx I; plain = TrimTokenBearer raw in
      if plain = '''' then None
      else case (jws_Parse_kid j plain, JwkPrivateKey j jws) of
             (Inr kid, Inr k) \<Rightarrow>
               (case jws_Verify j [(kid, jwk_PublicKeyOf j k)] plain of
                  Inl _ \<Rightarrow> None
                | Inr payload \<Rightarrow> if tokenutils_ValidateToken j now payload = None then Some payload else None)
           | _ \<Rightarrow> None)"

inductive id_step :: "'k identity \<Rightarrow> id_op \<Rightarrow> bool \<Rightarrow> abs_identity \<Rightarrow> abs_identity \<Rightarrow> bool" for I where
  step_register: "a_users a name = None \<Longrightarrow> \<forall>other h'. a_users a other \<noteq> Some (uid, h') \<Longrightarrow>
    a_sessions a kid = None \<Longrightarrow> length name \<le> 30 \<Longrightarrow> bcrypt_Generate I pw = Inr h \<Longrightarrow>
    id_step I (Register now name pw) True a
      (a\<lparr>a_users := (a_users a)(name \<mapsto> (uid, h)),
         a_sessions := (a_sessions a)(kid \<mapsto> (uid, jws, tok, add_one_year now))\<rparr>)"
| step_login: "a_users a name = Some (uid, h) \<Longrightarrow> bcrypt_Compare I h pw = None \<Longrightarrow> a_sessions a kid = None \<Longrightarrow>
    id_step I (Login now name pw) True a
      (a\<lparr>a_sessions := (a_sessions a)(kid \<mapsto> (uid, jws, tok, add_one_year now))\<rparr>)"
| step_exchange: "token_kid I raw = Some kid \<Longrightarrow> a_sessions a kid = Some (uid, jws, old, e) \<Longrightarrow>
    token_valid I now raw jws \<noteq> None \<Longrightarrow>
    id_step I (Exchange now raw) True a
      (a\<lparr>a_sessions := (a_sessions a)(kid \<mapsto> (uid, jws, tok, add_one_year now))\<rparr>)"
| step_sign_out: "token_kid I raw = Some kid \<Longrightarrow>
    id_step I (SignOut raw) True a (a\<lparr>a_sessions := (a_sessions a)(kid := None)\<rparr>)"
| step_refused: "id_step I oper False a a"

section \<open>The operations\<close>

fun drop_status :: "'a with_status \<times> conn \<Rightarrow> goerr option \<times> conn" where
  "drop_status (Inl (e, code), c) = (Some e, c)"
| "drop_status (Inr x, c) = (None, c)"

fun drop_result :: "(goerr + 'a) \<times> conn \<Rightarrow> goerr option \<times> conn" where
  "drop_result (Inl e, c) = (Some e, c)"
| "drop_result (Inr x, c) = (None, c)"

fun exec_id :: "'k identity \<Rightarrow> id_op \<Rightarrow> conn \<Rightarrow> (goerr option \<times> conn) option" where
  "exec_id I (Register now name pw) c = Some (drop_status (RegisterUser I now name pw c))"
| "exec_id I (Login now name pw) c = Some (drop_status (UserLogin I now name pw c))"
| "exec_id I (Exchange now raw) c = Some (drop_result (UserExchangeAccessToken I now raw c))"
| "exec_id I (SignOut raw) c = Some (drop_result (UserDeleteRefreshToken I raw c))"

definition id_rel :: "conn \<Rightarrow> abs_identity \<Rightarrow> bool" where
  "id_rel c a \<longleftrightarrow> idb_inv (fst c)
     \<and> a_users a = (\<lambda>name. map_option (\<lambda>u. (u_id u, u_password u)) (user_named (fst c) name))
     \<and> a_sessions a = session_of (fst c)"

section \<open>Reading a token\<close>

lemma GetUserKID_Inr: "GetUserKID I raw c = (Inr kid, c') \<longleftrightarrow> token_kid I raw = Some kid \<and> c' = c"
  by (auto simp: GetUserKID_def token_kid_def try_call_Inr InsecureJwsMessage_def Let_def
      split: sum.splits prod.splits option.splits)

lemma GetUserKID_state: "snd (GetUserKID I raw c) = c"
  by (auto simp: GetUserKID_def try_call_def Let_def split: sum.splits prod.splits option.splits)

lemma GetPrivateKeyById_Inr:
  "GetPrivateKeyById pg kid (db, n) = (Inr jws, c) \<longleftrightarrow>
     pg_fault pg n = None \<and> (\<exists>k. key_of_id db kid = Some k \<and> jws = k_jws_message k) \<and> c = (db, n + 1)"
  by (auto simp: GetPrivateKeyById_def exec_stmt_Inr key_of_id_def split: option.splits)

lemma exec_stmt_read:
  assumes "\<And>n db x db1. f n db = Inr (x, db1) \<Longrightarrow> db1 = db"
  shows "fst (snd (exec_stmt pg f c)) = fst c"
  using assms by (auto simp: exec_stmt_def split: option.splits sum.splits prod.splits)

lemma GetPrivateKeyById_db: "fst (snd (GetPrivateKeyById pg kid c)) = fst c"
  unfolding GetPrivateKeyById_def by (rule exec_stmt_read) (auto split: option.splits)

lemma FindUserByUsername_db: "fst (snd (FindUserByUsername pg name c)) = fst c"
  unfolding FindUserByUsername_def by (rule exec_stmt_read) (auto split: option.splits)

lemma getPrivateKey_db: "fst (snd (getPrivateKey I kid c)) = fst c"
  using GetPrivateKeyById_db [of "id_pg I" kid c]
  by (auto simp: getPrivateKey_def try_call_def split: prod.splits sum.splits)

lemma ValidateToken_db: "fst (snd (ValidateToken I now raw c)) = fst c"
proof -
  have "fst (snd (getPrivateKey I kid c)) = fst c" for kid by (rule getPrivateKey_db)
  then show ?thesis
    by (auto simp: ValidateToken_def try_call_def Let_def split: prod.splits sum.splits option.splits if_splits)
      (metis fst_conv snd_conv)+
qed

text \<open>The token's key id, its key and the payload, as the two definitions above read them.\<close>

lemma token_kid_Some: "token_kid I raw = Some u \<longleftrightarrow>
  (\<exists>kid. jws_Parse_kid (id_jwx I) (TrimTokenBearer raw) = Inr kid \<and> uuid_Parse (id_jwx I) kid = (u, None))"
  by (auto simp: token_kid_def split: sum.splits prod.splits option.splits)

lemma token_valid_Some: "token_valid I now raw jws = Some payload \<longleftrightarrow>
  TrimTokenBearer raw \<noteq> [] \<and> (\<exists>kid k. jws_Parse_kid (id_jwx I) (TrimTokenBearer raw) = Inr kid
     \<and> JwkPrivateKey (id_jwx I) jws = Inr k
     \<and> jws_Verify (id_jwx I) [(kid, jwk_PublicKeyOf (id_jwx I) k)] (TrimTokenBearer raw) = Inr payload
     \<and> tokenutils_ValidateToken (id_jwx I) now payload = None)"
  by (auto simp: token_valid_def Let_def split: sum.splits if_splits)

lemma getPrivateKey_Inr:
  "getPrivateKey I kid (db, n) = (Inr k, c) \<longleftrightarrow> pg_fault (id_pg I) n = None \<and> c = (db, n + 1)
     \<and> (\<exists>row. key_of_id db kid = Some row \<and> JwkPrivateKey (id_jwx I) (k_jws_message row) = Inr k)"
  by (auto simp: getPrivateKey_def try_call_Inr GetPrivateKeyById_Inr)

lemma case_uuid_Inr:
  "(case p of (_, Some err) \<Rightarrow> fail e | (u, None) \<Rightarrow> f u) c = (Inr x, c') \<longleftrightarrow> (\<exists>u. p = (u, None) \<and> f u c = (Inr x, c'))"
  by (cases p; cases "snd p") auto

lemma case_invalid_Inr:
  "(case v of Some err \<Rightarrow> fail (wrap err) | None \<Rightarrow> return y) c = (Inr x, c') \<longleftrightarrow> v = None \<and> x = y \<and> c' = c"
  by (cases v) auto

lemma ValidateToken_Inr:
  "ValidateToken I now raw (db, n) = (Inr payload, c) \<longleftrightarrow>
     pg_fault (id_pg I) n = None \<and> c = (db, n + 1)
   \<and> (\<exists>kid k. token_kid I raw = Some kid \<and> key_of_id db kid = Some k
        \<and> token_valid I now raw (k_jws_message k) = Some payload)"
proof -
  have "ValidateToken I now raw (db, n) = (Inr payload, c) \<longleftrightarrow> TrimTokenBearer raw \<noteq> [] \<and>
     (\<exists>kid u k. jws_Parse_kid (id_jwx I) (TrimTokenBearer raw) = Inr kid
        \<and> uuid_Parse (id_jwx I) kid = (u, None) \<and> getPrivateKey I u (db, n) = (Inr k, c)
        \<and> jws_Verify (id_jwx I) [(kid, jwk_PublicKeyOf (id_jwx I) k)] (TrimTokenBearer raw) = Inr payload
        \<and> tokenutils_ValidateToken (id_jwx I) now payload = None)"
    by (auto simp: ValidateToken_def try_call_Inr InsecureJwsMessage_def VerifyTokenByKeySet_def
        getKeySet_def Let_def case_uuid_Inr case_invalid_Inr)
  then show ?thesis
    unfolding token_kid_Some token_valid_Some getPrivateKey_Inr by (cases c) auto
qed

lemma CreateRefreshToken_expires:
  "CreateRefreshToken j now params = Inr (s, e) \<Longrightarrow> e = add_one_year now"
  by (auto simp: CreateRefreshToken_def Let_def split: sum.splits option.splits)

section \<open>Each operation refines its step\<close>

lemma session_free: "idb_inv db \<Longrightarrow> key_of_id db kid = None \<Longrightarrow> session_of db kid = None"
  by (simp add: session_of_ex)

lemma id_rel_add_session:
  assumes rel: "id_rel (db, n) a" and new: "key_of_id db (k_id k) = None" "t_private_key_id t = k_id k"
    "t_id t \<notin> t_id ` set (refresh_tokens db)" "user_by_id db uid \<noteq> None"
  shows "id_rel (add_session k uid t db, n')
    (a\<lparr>a_sessions := (a_sessions a)(k_id k \<mapsto> (uid, k_jws_message k, t_plaintext t, t_expires_at t))\<rparr>)"
proof -
  have inv: "idb_inv db" using rel by (simp add: id_rel_def)
  show ?thesis
    using rel add_session_inv [OF inv new] add_session_session [OF inv new(1,2,3), of uid]
      add_session_lookups(5) [OF new(1) inv new(2,3), of uid]
    by (simp add: id_rel_def)
qed

lemma user_named_Some:
  assumes "user_named db name = Some u"
  shows "u \<in> set (users db)" "u_username u = name"
  using assms find_Some_image [of u_username name "users db" u] by (simp_all add: user_named_def)

lemma user_by_id_Some:
  assumes "user_by_id db i = Some u"
  shows "u \<in> set (users db)" "u_id u = i"
  using assms find_Some_image [of u_id i "users db" u] by (simp_all add: user_by_id_def)

lemma login_step:
  assumes rel: "id_rel (db, n) a" and user: "user_named db name = Some u" "bcrypt_Compare I (u_password u) pw = None"
    and gen: "userGenerateTokens I now \<lparr>ui_userID = u_id u, ui_username = nm, ui_claims = cl\<rparr> (db, m) = (Inr r, db', n')"
  shows "\<exists>a'. id_step I (Login now name pw) True a a' \<and> id_rel (db', k') a'"
proof -
  from gen obtain k t where
    kt: "CreateRefreshToken (id_jwx I) now (token_params (k_jws_message k) (k_id k)
        \<lparr>ui_userID = u_id u, ui_username = nm, ui_claims = cl\<rparr>) = Inr (t_plaintext t, t_expires_at t)"
      "key_of_id db (k_id k) = None" "t_private_key_id t = k_id k"
      "t_id t \<notin> t_id ` set (refresh_tokens db)" "user_by_id db (u_id u) \<noteq> None"
      "db' = add_session k (u_id u) t db"
    by (rule userGenerateTokens_Inr) simp
  have inv: "idb_inv db" and users: "a_users a name = Some (u_id u, u_password u)"
    and sess: "a_sessions a (k_id k) = None"
    using rel user(1) session_free [of db "k_id k"] kt(2) by (auto simp: id_rel_def)
  have "t_expires_at t = add_one_year now" by (rule CreateRefreshToken_expires [OF kt(1)])
  with step_login [OF users user(2) sess, of now "k_jws_message k" "t_plaintext t"]
    id_rel_add_session [OF rel kt(2-5), of k'] kt(6) show ?thesis by auto
qed

lemma login_rel:
  assumes rel: "id_rel (db, n) a"
  shows "\<exists>e c' a'. drop_status (UserLogin I now name pw (db, n)) = (e, c')
    \<and> id_step I (Login now name pw) (e = None) a a' \<and> id_rel c' a'"
proof -
  have refused: "\<exists>e c' a'. (Some e0, c0) = (e, c') \<and> id_step I (Login now name pw) (e = None) a a' \<and> id_rel c' a'"
    if "fst c0 = db" for e0 c0
    using that rel step_refused [of I "Login now name pw" a]
    by (intro exI [of _ "Some e0"] exI [of _ c0] exI [of _ a]) (simp add: id_rel_def)
  obtain r1 c1 where find: "FindUserByUsername (id_pg I) name (db, n) = (r1, c1)"
    by (metis prod.exhaust)
  then have c1: "fst c1 = db" using FindUserByUsername_db [of "id_pg I" name "(db, n)"] by simp
  show ?thesis
  proof (cases r1)
    case (Inl e)
    with find show ?thesis using refused [OF c1] by (simp add: UserLogin_def)
  next
    case (Inr u)
    then have named: "user_named db name = Some u"
      using find by (auto simp: FindUserByUsername_def exec_stmt_Inr user_named_def split: option.splits)
    show ?thesis
    proof (cases "bcrypt_Compare I (u_password u) pw")
      case (Some e)
      with find Inr show ?thesis using refused [OF c1] by (simp add: UserLogin_def)
    next
      case None
      obtain m where c1m: "c1 = (db, m)" using c1 by (cases c1) auto
      let ?body = "userGenerateTokens I now
        \<lparr>ui_userID = u_id u, ui_username = u_username u, ui_claims = DEFAULT_CLAIMS\<rparr>"
      obtain r2 db2 n2 where tx: "in_transaction (id_pg I) (errorf ''Unable start transaction. Error: '') (\<lambda>err. err)
          ?body (db, m) = (r2, db2, n2)" by (rule prod_cases3)
      have login: "UserLogin I now name pw (db, n) = status_of 500 200 (r2, db2, n2)"
        using find Inr None tx c1m by (simp add: UserLogin_def)
      show ?thesis
      proof (cases r2)
        case (Inl e)
        then have "db2 = db" using tx by (auto dest: in_transaction_Inl)
        with login Inl show ?thesis using refused [of "(db2, n2)"] by (simp add: status_of_def)
      next
        case (Inr r)
        then obtain db1 n1 where "?body (db, m + 1) = (Inr r, db1, n1)" "db2 = db1"
          using tx by (auto simp: in_transaction_Inr)
        with login_step [OF rel named None, of now _ _ "m + 1" r db1 n1 n2] login Inr show ?thesis
          by (auto simp: status_of_def)
      qed
    qed
  qed
qed

lemma id_rel_refused:
  "id_rel c a \<Longrightarrow> fst c0 = fst c \<Longrightarrow>
   \<exists>e c' a'. (Some e0, c0) = (e, c') \<and> id_step I oper (e = None) a a' \<and> id_rel c' a'"
  by (intro exI [of _ "Some e0"] exI [of _ c0] exI [of _ a]) (simp add: id_rel_def step_refused)

lemma InsertUser_Inr:
  assumes "InsertUser pg name h (db, n) = (Inr u, c)"
  shows "u_username u = name" "u_password u = h" "length name \<le> 30" "user_named db name = None"
    "user_by_id db (u_id u) = None" "c = (db\<lparr>users := users db @ [u]\<rparr>, n + 1)" "u_id u = pg_uuid pg n"
  using assms
  by (auto simp: InsertUser_def insert_user_stmt_def exec_stmt_Inr Let_def user_named_def user_by_id_def
      find_None_image split: if_splits)

lemma add_user_lookups:
  assumes "user_named db (u_username u) = None" "user_by_id db (u_id u) = None"
  shows "user_named (db\<lparr>users := users db @ [u]\<rparr>) = (user_named db)(u_username u \<mapsto> u)"
    and "user_by_id (db\<lparr>users := users db @ [u]\<rparr>) = (user_by_id db)(u_id u \<mapsto> u)"
    and "key_of_id (db\<lparr>users := users db @ [u]\<rparr>) = key_of_id db"
    and "owner_of (db\<lparr>users := users db @ [u]\<rparr>) = owner_of db"
    and "token_of (db\<lparr>users := users db @ [u]\<rparr>) = token_of db"
    and "token_user (db\<lparr>users := users db @ [u]\<rparr>) = token_user db"
  using assms
  by (auto simp: user_named_def user_by_id_def key_of_id_def owner_of_def token_of_def token_user_def
      find_append fun_eq_iff split: option.split)

lemma add_user_inv:
  assumes "idb_inv db" "user_named db (u_username u) = None" "user_by_id db (u_id u) = None"
  shows "idb_inv (db\<lparr>users := users db @ [u]\<rparr>)"
proof -
  have "u_username u \<notin> u_username ` set (users db)" "u_id u \<notin> u_id ` set (users db)"
    using assms(2,3) by (simp_all add: user_named_def user_by_id_def find_None_image)
  then show ?thesis
    using assms(1) unfolding idb_inv_def add_user_lookups [OF assms(2,3)] by auto
qed

lemma register_step:
  assumes rel: "id_rel (db, n) a" and hash: "bcrypt_Generate I pw = Inr h"
    and ins: "InsertUser (id_pg I) name h (db, m) = (Inr u, c1)"
    and gen: "userGenerateTokens I now \<lparr>ui_userID = u_id u, ui_username = nm, ui_claims = cl\<rparr> c1 = (Inr r, db', n')"
  shows "\<exists>a'. id_step I (Register now name pw) True a a' \<and> id_rel (db', k') a'"
proof -
  note u = InsertUser_Inr [OF ins]
  let ?db = "db\<lparr>users := users db @ [u]\<rparr>"
  have inv: "idb_inv db" using rel by (simp add: id_rel_def)
  have named: "user_named db (u_username u) = None" using u(1,4) by simp
  note look = add_user_lookups [OF named u(5)]
  let ?a = "a\<lparr>a_users := (a_users a)(name \<mapsto> (u_id u, h))\<rparr>"
  have rel1: "id_rel (?db, n) ?a"
    using rel add_user_inv [OF inv named u(5)] look u(1,2)
    by (auto simp: id_rel_def session_of_def fun_eq_iff)
  from gen [unfolded u(6)] obtain k t where
    kt: "CreateRefreshToken (id_jwx I) now (token_params (k_jws_message k) (k_id k)
        \<lparr>ui_userID = u_id u, ui_username = nm, ui_claims = cl\<rparr>) = Inr (t_plaintext t, t_expires_at t)"
      "key_of_id ?db (k_id k) = None" "t_private_key_id t = k_id k"
      "t_id t \<notin> t_id ` set (refresh_tokens ?db)" "user_by_id ?db (u_id u) \<noteq> None"
      "db' = add_session k (u_id u) t ?db"
    by (rule userGenerateTokens_Inr) simp
  have exp: "t_expires_at t = add_one_year now" by (rule CreateRefreshToken_expires [OF kt(1)])
  have free: "a_users a name = None" "a_sessions a (k_id k) = None"
    using rel u(4) kt(2) look(3) session_free [OF inv, of "k_id k"] by (auto simp: id_rel_def)
  have "\<forall>other h'. a_users a other \<noteq> Some (u_id u, h')"
  proof (intro allI notI)
    fix other h' assume "a_users a other = Some (u_id u, h')"
    then obtain v where "user_named db other = Some v" "u_id v = u_id u"
      using rel by (auto simp: id_rel_def)
    then have "u_id u \<in> u_id ` set (users db)" using user_named_Some(1) by (metis imageI)
    with u(5) show False by (simp add: user_by_id_def find_None_image)
  qed
  from step_register [OF free(1) this free(2) u(3) hash, of now "k_jws_message k" "t_plaintext t"]
    id_rel_add_session [OF rel1 kt(2-5), of k'] kt(6) exp show ?thesis by auto
qed

lemma register_rel:
  assumes rel: "id_rel (db, n) a"
  shows "\<exists>e c' a'. drop_status (RegisterUser I now name pw (db, n)) = (e, c')
    \<and> id_step I (Register now name pw) (e = None) a a' \<and> id_rel c' a'"
proof (cases "bcrypt_Generate I pw")
  case (Inl err)
  then show ?thesis using id_rel_refused [OF rel, of "(db, n)"] by (simp add: RegisterUser_def)
next
  case (Inr h)
  let ?body = "try_call (InsertUser (id_pg I) name h) (errorf ''Unable insert user record. Error: '')
    (\<lambda>user. userGenerateTokens I now \<lparr>ui_userID = u_id user, ui_username = u_username user,
       ui_claims = DEFAULT_CLAIMS\<rparr>)"
  obtain r2 db2 n2 where tx: "in_transaction (id_pg I) (errorf ''Unable start transaction, Error: '') (\<lambda>err. err)
      ?body (db, n) = (r2, db2, n2)" by (rule prod_cases3)
  have reg: "RegisterUser I now name pw (db, n) = status_of 500 201 (r2, db2, n2)"
    by (simp only: RegisterUser_def Inr sum.case tx)
  show ?thesis
  proof (cases r2)
    case (Inl e)
    then have "db2 = db" using tx by (auto dest: in_transaction_Inl)
    with reg Inl show ?thesis using id_rel_refused [OF rel, of "(db2, n2)"] by (simp add: status_of_def)
  next
    case (Inr r)
    then obtain db1 n1 where "?body (db, n + 1) = (Inr r, db1, n1)" "db2 = db1"
      using tx by (auto simp: in_transaction_Inr)
    then obtain u c1 where "InsertUser (id_pg I) name h (db, n + 1) = (Inr u, c1)"
      "userGenerateTokens I now \<lparr>ui_userID = u_id u, ui_username = u_username u, ui_claims = DEFAULT_CLAIMS\<rparr> c1
        = (Inr r, db2, n1)" by (auto simp: try_call_Inr)
    from register_step [OF rel \<open>bcrypt_Generate I pw = Inr h\<close> this, of n2] reg Inr show ?thesis
      by (auto simp: status_of_def)
  qed
qed

lemma exchange_step:
  assumes rel: "id_rel (db, n) a"
    and kid: "token_kid I raw = Some kid" "key_of_id db kid = Some k"
    and valid: "token_valid I now raw (k_jws_message k) = Some payload"
    and gen: "userRefreshTokens I now kid (db, m) = (Inr r, db', n')"
  shows "\<exists>a'. id_step I (Exchange now raw) True a a' \<and> id_rel (db', k') a'"
proof -
  have inv: "idb_inv db" using rel by (simp add: id_rel_def)
  from gen obtain uid u jws t where
    t: "owner_of db kid = Some uid" "user_by_id db uid = Some u"
      "map_option k_jws_message (key_of_id db kid) = Some jws"
      "CreateRefreshToken (id_jwx I) now (token_params jws kid
        \<lparr>ui_userID = u_id u, ui_username = u_username u, ui_claims = DEFAULT_CLAIMS\<rparr>)
        = Inr (t_plaintext t, t_expires_at t)"
      "t_private_key_id t = kid" "t_id t \<notin> t_id ` set (refresh_tokens (drop_token kid db))"
      "t_id t \<notin> ut_refresh_token_id ` set (user_refresh_tokens (drop_token kid db))"
      "db' = replace_token kid (u_id u) t db"
    by (rule userRefreshTokens_Inr) auto
  have uid: "u_id u = uid" using user_by_id_Some [OF t(2)] by simp
  have "session_of db kid \<noteq> None" using session_of_ex [OF inv, of kid] kid(2) by simp
  then obtain tok e where sess: "session_of db kid = Some (uid, jws, tok, e)"
    using t(1,3) by (auto simp: session_of_def split: option.splits)
  have jws: "jws = k_jws_message k" using t(3) kid(2) by simp
  have exp: "t_expires_at t = add_one_year now" by (rule CreateRefreshToken_expires [OF t(4)])
  have asess: "a_sessions a kid = Some (uid, jws, tok, e)" using rel sess by (simp add: id_rel_def)
  have "token_valid I now raw jws \<noteq> None" using valid jws by simp
  from step_exchange [OF kid(1) asess this, of "t_plaintext t"]
  have "id_step I (Exchange now raw) True a
     (a\<lparr>a_sessions := (a_sessions a)(kid \<mapsto> (uid, jws, t_plaintext t, add_one_year now))\<rparr>)" .
  moreover have "id_rel (db', k')
     (a\<lparr>a_sessions := (a_sessions a)(kid \<mapsto> (uid, jws, t_plaintext t, add_one_year now))\<rparr>)"
    using rel replace_token_inv [OF inv t(5,7,6), of uid] t(1,8) uid exp
      replace_token_session [OF inv t(5,7) sess, of "u_id u"] replace_token_lookups(3) [OF inv t(5,7), of "u_id u"]
    by (simp add: id_rel_def)
  ultimately show ?thesis by blast
qed

lemma exchange_rel:
  assumes rel: "id_rel (db, n) a"
  shows "\<exists>e c' a'. drop_result (UserExchangeAccessToken I now raw (db, n)) = (e, c')
    \<and> id_step I (Exchange now raw) (e = None) a a' \<and> id_rel c' a'"
proof -
  obtain r1 c1 where val: "ValidateToken I now raw (db, n) = (r1, c1)" by (metis prod.exhaust)
  have c1: "fst c1 = db" using ValidateToken_db [of I now raw "(db, n)"] val by simp
  show ?thesis
  proof (cases r1)
    case (Inl e)
    with val show ?thesis using id_rel_refused [OF rel, of c1]
      by (simp add: UserExchangeAccessToken_def try_call_def c1)
  next
    case (Inr payload)
    with val obtain kid k where
      kid: "token_kid I raw = Some kid" "key_of_id db kid = Some k"
        "token_valid I now raw (k_jws_message k) = Some payload" "c1 = (db, n + 1)"
      by (auto simp: ValidateToken_Inr)
    then have "GetUserKID I raw c1 = (Inr kid, c1)" by (simp add: GetUserKID_Inr)
    with val Inr have ex: "UserExchangeAccessToken I now raw (db, n) =
        in_transaction (id_pg I) (errorf ''Unable start transaction. Error: '')
          (errorf ''Unable refresh tokens. Error: '') (userRefreshTokens I now kid) (db, n + 1)"
      using kid(4) by (simp add: UserExchangeAccessToken_def try_call_def)
    obtain r2 db2 n2 where tx: "in_transaction (id_pg I) (errorf ''Unable start transaction. Error: '')
          (errorf ''Unable refresh tokens. Error: '') (userRefreshTokens I now kid) (db, n + 1) = (r2, db2, n2)"
      by (metis prod.exhaust)
    show ?thesis
    proof (cases r2)
      case (Inl e)
      then have "db2 = db" using tx by (auto dest: in_transaction_Inl)
      with ex tx Inl show ?thesis using id_rel_refused [OF rel, of "(db2, n2)"] by simp
    next
      case (Inr r)
      then obtain n1 where "userRefreshTokens I now kid (db, n + 2) = (Inr r, db2, n1)"
        using tx by (auto simp: in_transaction_Inr)
      from exchange_step [OF rel kid(1-3) this, of n2] ex tx Inr show ?thesis by auto
    qed
  qed
qed

lemma UserDeleteRefreshToken_Inr:
  assumes "UserDeleteRefreshToken I raw (db, n) = (Inr x, db', n')"
  obtains kid where "token_kid I raw = Some kid" "db' = drop_session kid db"
proof -
  from assms obtain kid c1 where kid: "token_kid I raw = Some kid" and
    c1: "in_transaction (id_pg I) (errorf ''Unable start transaction. Error: '') (\<lambda>err. err)
          (try_call (DeleteRefreshTokenByPrivateKey (id_pg I) kid)
             (errorf ''Unable delete refresh token. Error: '')
             (\<lambda>_. try_call (DeletePrivateKey (id_pg I) kid)
                (errorf ''Unable delete private key. Error: '') return)) (db, n) = (Inr x, db', n')"
    by (auto simp: UserDeleteRefreshToken_def try_call_Inr GetUserKID_Inr)
  then have "db' = drop_session kid db"
    by (auto simp: in_transaction_Inr try_call_Inr DeleteRefreshTokenByPrivateKey_def delete_token_stmt_def
        DeletePrivateKey_def delete_key_stmt_def exec_stmt_Inr Let_def drop_session_def drop_token_def split: if_splits)
  with kid show ?thesis by (rule that)
qed

lemma UserDeleteRefreshToken_Inl:
  assumes "UserDeleteRefreshToken I raw (db, n) = (Inl e, c)"
  shows "fst c = db"
proof -
  obtain r c1 where kid: "GetUserKID I raw (db, n) = (r, c1)" by (metis prod.exhaust)
  then have "c1 = (db, n)" using GetUserKID_state [of I raw "(db, n)"] by simp
  with assms kid show ?thesis
    by (cases r; cases c) (auto simp: UserDeleteRefreshToken_def try_call_def dest: in_transaction_Inl)
qed

lemma sign_out_rel:
  assumes rel: "id_rel (db, n) a"
  shows "\<exists>e c' a'. drop_result (UserDeleteRefreshToken I raw (db, n)) = (e, c')
    \<and> id_step I (SignOut raw) (e = None) a a' \<and> id_rel c' a'"
proof -
  obtain r db' n' where out: "UserDeleteRefreshToken I raw (db, n) = (r, db', n')" by (metis prod.exhaust)
  show ?thesis
  proof (cases r)
    case (Inl e)
    with out have "db' = db" using UserDeleteRefreshToken_Inl by fastforce
    with out Inl show ?thesis using id_rel_refused [OF rel, of "(db', n')"] by simp
  next
    case (Inr x)
    with out obtain kid where kid: "token_kid I raw = Some kid" "db' = drop_session kid db"
      by (auto elim: UserDeleteRefreshToken_Inr)
    have inv: "idb_inv db" using rel by (simp add: id_rel_def)
    have "id_rel (db', n') (a\<lparr>a_sessions := (a_sessions a)(kid := None)\<rparr>)"
      using rel drop_session_inv [OF inv] kid(2)
      by (simp add: id_rel_def drop_session_session drop_session_lookups)
    with step_sign_out [OF kid(1), of a] out Inr show ?thesis by auto
  qed
qed

interpretation ids: forward_simulation id_rel "\<lambda>_. True" "exec_id I" "id_step I" for I :: "'k identity"
proof unfold_locales
  fix c a oper
  assume rel: "id_rel c a"
  obtain db n where c: "c = (db, n)" by (cases c)
  note rels = register_rel [OF rel [unfolded c]] login_rel [OF rel [unfolded c]]
    exchange_rel [OF rel [unfolded c]] sign_out_rel [OF rel [unfolded c]]
  show "\<exists>e s' a'. exec_id I oper c = Some (e, s') \<and> id_step I oper (e = None) a a' \<and> id_rel s' a'"
    by (cases oper) (use rels in \<open>simp_all add: c\<close>)
qed

end
