(* ===== verification/IdentityProperties.thy ===== *)
theory IdentityProperties imports IdentityLifecycle begin

text \<open>
  The properties of the identity service: what a user gets from registering and logging in when
  nothing fails, what signing out does, and which tokens the service accepts.
\<close>

section \<open>The database after the migrations\<close>

definition admin_row :: user_row where
  "admin_row = \<lparr>u_id = ''00000000-0000-0000-0000-000000000000'', u_username = ''adminuser'',
     u_password = ''$2a$12$YlgVZGsNvr8WSG8Tl.aYlOigi/jYLocJBP/xUkyOP5H.LX/2W9v6K''\<rparr>"

definition migrated_db :: idb where
  "migrated_db = \<lparr>users = [admin_row], private_keys = [], user_private_keys = [], refresh_tokens = [],
     user_refresh_tokens = []\<rparr>"

definition migrated_abs :: abs_identity where
  "migrated_abs = \<lparr>a_users = [''adminuser'' \<mapsto> (u_id admin_row, u_password admin_row)], a_sessions = Map.empty\<rparr>"

lemma migrated_rel: "id_rel (migrated_db, n) migrated_abs"
  by (auto simp: id_rel_def migrated_db_def migrated_abs_def idb_inv_def owner_of_def key_of_id_def
      token_of_def session_of_def user_named_def admin_row_def fun_eq_iff)

section \<open>When nothing fails\<close>

definition fresh_ids :: "postgres \<Rightarrow> idb \<Rightarrow> nat \<Rightarrow> bool" where
  "fresh_ids pg db n \<longleftrightarrow> (\<forall>m\<ge>n. pg_uuid pg m \<notin> u_id ` set (users db) \<union> k_id ` set (private_keys db)
     \<union> t_id ` set (refresh_tokens db))"

definition healthy :: "'k identity \<Rightarrow> bool" where
  "healthy I \<longleftrightarrow> (\<forall>n. pg_fault (id_pg I) n = None) \<and> inj (pg_uuid (id_pg I))
     \<and> (\<forall>s. pg_json_ok (id_pg I) s) \<and> jwx_laws (id_jwx I) \<and> jwx_healthy (id_jwx I)
     \<and> (\<forall>n. uuid_Parse (id_jwx I) (pg_uuid (id_pg I) n) = (pg_uuid (id_pg I) n, None))"

lemma healthyD:
  assumes "healthy I"
  shows "pg_fault (id_pg I) n = None" "pg_uuid (id_pg I) m = pg_uuid (id_pg I) n \<longleftrightarrow> m = n"
    "pg_json_ok (id_pg I) s" "jwx_laws (id_jwx I)" "jwx_healthy (id_jwx I)"
    "uuid_Parse (id_jwx I) (pg_uuid (id_pg I) n) = (pg_uuid (id_pg I) n, None)"
  using assms by (auto simp: healthy_def inj_eq)

lemma CreatePrivateKey_ok:
  assumes "healthy I"
  shows "\<exists>jws k. CreatePrivateKeyAsJwsMessage (id_jwx I) n = Inr jws \<and> jwk_ParseKey (id_jwx I) jws = Inr k"
proof -
  from healthyD(5) [OF assms] obtain k m where "rsa_GenerateKey (id_jwx I) n = Inr k" "jwk_Marshal (id_jwx I) k = Inr m"
    unfolding jwx_healthy_def by blast
  with jwx_marshal [OF healthyD(4) [OF assms]] show ?thesis by (auto simp: CreatePrivateKeyAsJwsMessage_def)
qed

lemma create_tokens_ok:
  assumes "healthy I" and "jwk_ParseKey (id_jwx I) (ct_PrivateKeyJwsMessage params) = Inr k"
  shows "\<exists>s. CreateUserAccessToken (id_jwx I) now params = Inr s"
    "\<exists>s. CreateRefreshToken (id_jwx I) now params = Inr (s, add_one_year now)"
proof -
  have jwx: "jwt_Build (id_jwx I) c = None" "jwt_Set (id_jwx I) name = None"
    "\<exists>s. jwt_Sign (id_jwx I) c k i = Inr s" for c name i
    using healthyD(5) [OF assms(1)] unfolding jwx_healthy_def by blast+
  show "\<exists>s. CreateUserAccessToken (id_jwx I) now params = Inr s"
    "\<exists>s. CreateRefreshToken (id_jwx I) now params = Inr (s, add_one_year now)"
    using jwx assms(2)
    by (auto simp: CreateUserAccessToken_def CreateRefreshToken_def CreateToken_def signToken_def Let_def
        split: sum.split) (metis sum.distinct(1))+
qed

lemma exec_stmt_ok:
  "pg_fault pg n = None \<Longrightarrow> f n db = Inr (x, db1) \<Longrightarrow> exec_stmt pg f (db, n) = (Inr x, db1, n + 1)"
  by (simp add: exec_stmt_def)

lemma userGenerateRefreshToken_ok:
  assumes I: "healthy I" and key: "jwk_ParseKey (id_jwx I) jws = Inr k"
    and new: "pg_uuid (id_pg I) n \<notin> t_id ` set (refresh_tokens db)" "kid \<notin> t_private_key_id ` set (refresh_tokens db)"
      "pg_uuid (id_pg I) n \<notin> ut_refresh_token_id ` set (user_refresh_tokens db)"
    and ex: "kid \<in> k_id ` set (private_keys db)" "ui_userID user \<in> u_id ` set (users db)"
  shows "\<exists>s e db'. userGenerateRefreshToken I now jws kid user (db, n) = (Inr (s, e), db', n + 2)"
proof -
  obtain s where s: "CreateRefreshToken (id_jwx I) now (token_params jws kid user) = Inr (s, add_one_year now)"
    using create_tokens_ok(2) [OF I, of "token_params jws kid user" k now] key by (auto simp: token_params_def)
  let ?t = "\<lparr>t_id = pg_uuid (id_pg I) n, t_private_key_id = kid, t_plaintext = s, t_expires_at = add_one_year now\<rparr>"
  have ins: "InsertRefreshToken (id_pg I) kid s (add_one_year now) (db, n)
      = (Inr ?t, db\<lparr>refresh_tokens := refresh_tokens db @ [?t]\<rparr>, n + 1)"
    unfolding InsertRefreshToken_def
    by (rule exec_stmt_ok) (use healthyD(1) [OF I] new(1,2) ex(1) in \<open>simp_all add: insert_token_stmt_def Let_def\<close>)
  have att: "\<exists>db'. AttachRefreshToken (id_pg I) (ui_userID user) (t_id ?t)
      (db\<lparr>refresh_tokens := refresh_tokens db @ [?t]\<rparr>, n + 1) = (Inr (), db', n + 1 + 1)"
    unfolding AttachRefreshToken_def
    by (intro exI, rule exec_stmt_ok) (use healthyD(1) [OF I] new(3) ex(2) in \<open>simp_all add: attach_token_stmt_def\<close>)
  show ?thesis using s ins att
    by (auto simp: userGenerateRefreshToken_def try_call_def token_params_def)
qed

lemma userGenerateTokens_ok:
  assumes I: "healthy I" and inv: "idb_inv db" and fresh: "fresh_ids (id_pg I) db n"
    and user: "user_by_id db (ui_userID user) \<noteq> None"
  shows "\<exists>r db'. userGenerateTokens I now user (db, n) = (Inr r, db', n + 4)"
proof -
  let ?kid = "pg_uuid (id_pg I) n"
  obtain jws k where jws: "CreatePrivateKeyAsJwsMessage (id_jwx I) n = Inr jws" "jwk_ParseKey (id_jwx I) jws = Inr k"
    using CreatePrivateKey_ok [OF I] by blast
  let ?k = "\<lparr>k_id = ?kid, k_jws_message = jws\<rparr>"
  let ?db1 = "db\<lparr>private_keys := private_keys db @ [?k]\<rparr>"
  let ?db2 = "?db1\<lparr>user_private_keys := user_private_keys db @
    [\<lparr>uk_user_id = ui_userID user, uk_private_key_id = ?kid\<rparr>]\<rparr>"
  have kid: "?kid \<notin> k_id ` set (private_keys db)" using fresh by (auto simp: fresh_ids_def)
  then have none: "key_of_id db ?kid = None" by (simp add: key_of_id_iff)
  then have none2: "?kid \<notin> uk_private_key_id ` set (user_private_keys db)"
    "?kid \<notin> t_private_key_id ` set (refresh_tokens db)"
    using inv by (auto simp: idb_inv_def owner_of_def token_of_def find_None_image)
  have tid: "pg_uuid (id_pg I) (n + 2) \<notin> t_id ` set (refresh_tokens db)"
    using fresh by (auto simp: fresh_ids_def)
  then have tid2: "pg_uuid (id_pg I) (n + 2) \<notin> ut_refresh_token_id ` set (user_refresh_tokens db)"
    using inv by (auto simp: idb_inv_def)
  have uid: "ui_userID user \<in> u_id ` set (users db)" using user by (simp only: user_by_id_iff)
  have ins: "InsertPrivateKey (id_pg I) jws (db, n) = (Inr ?k, ?db1, n + 1)"
    unfolding InsertPrivateKey_def
    by (rule exec_stmt_ok) (use healthyD(1,3) [OF I] kid in \<open>simp_all add: insert_key_stmt_def Let_def\<close>)
  have att: "AttachPrivateKey (id_pg I) (ui_userID user) ?kid (?db1, n + 1) = (Inr (), ?db2, n + 1 + 1)"
    unfolding AttachPrivateKey_def
    by (rule exec_stmt_ok) (use healthyD(1) [OF I] none2(1) uid in \<open>simp_all add: attach_key_stmt_def\<close>)
  have "\<exists>s e db'. userGenerateRefreshToken I now jws ?kid user (?db2, n + 2) = (Inr (s, e), db', n + 2 + 2)"
    by (rule userGenerateRefreshToken_ok [OF I jws(2)]) (use tid tid2 none2 uid in simp_all)
  then obtain s e db' where ref: "userGenerateRefreshToken I now jws ?kid user (?db2, n + 2) = (Inr (s, e), db', n + 4)"
    by (simp add: numeral_eq_Suc) blast
  obtain a where "CreateUserAccessToken (id_jwx I) now (token_params jws ?kid user) = Inr a"
    using create_tokens_ok(1) [OF I, of "token_params jws ?kid user" k now] jws(2) by (auto simp: token_params_def)
  then have acc: "userGenerateAccessToken I now jws ?kid user (db', n + 4) = (Inr a, db', n + 4)"
    by (simp add: userGenerateAccessToken_def try_call_def token_params_def)
  show ?thesis using jws(1) ins att ref acc
    by (simp add: userGenerateTokens_def try_call_def)
qed

section \<open>The tokens that come out\<close>

definition claims_of :: "create_token_params \<Rightarrow> string \<Rightarrow> int \<Rightarrow> token_claims" where
  "claims_of params use e = \<lparr>tc_iss = ''0.0.0.0'', tc_aud = ct_Claims params, tc_sub = ct_Username params,
     tc_exp = e, tc_user_id = Some (ct_UserID params), tc_token_use = Some use\<rparr>"

lemma access_token_signed:
  assumes "CreateUserAccessToken j now params = Inr s"
  shows "\<exists>k. jwk_ParseKey j (ct_PrivateKeyJwsMessage params) = Inr k
    \<and> jwt_Sign j (claims_of params ''access_token'' (now + 60)) k (ct_Kid params) = Inr s"
  using assms by (auto simp: CreateUserAccessToken_def CreateToken_def signToken_def claims_of_def Let_def
      split: sum.splits option.splits)

lemma refresh_token_signed:
  assumes "CreateRefreshToken j now params = Inr (s, e)"
  shows "\<exists>k. jwk_ParseKey j (ct_PrivateKeyJwsMessage params) = Inr k \<and> e = add_one_year now
    \<and> jwt_Sign j (claims_of params ''refresh_token'' e) k (ct_Kid params) = Inr s"
  using assms by (auto simp: CreateRefreshToken_def CreateToken_def signToken_def claims_of_def Let_def
      split: sum.splits option.splits)

text \<open>A signed token is accepted under its key exactly until it expires, with or without \<open>Bearer\<close>.\<close>

lemma signed_accepted:
  assumes laws: "jwx_laws (id_jwx I)" and key: "jwk_ParseKey (id_jwx I) jws = Inr k"
    and sign: "jwt_Sign (id_jwx I) c k kid = Inr s" and kid: "uuid_Parse (id_jwx I) kid = (kid, None)"
  shows "\<exists>payload. jwt_Parse (id_jwx I) payload = Inr c \<and> (\<forall>raw\<in>{s, ''Bearer '' @ s}.
    token_kid I raw = Some kid \<and> (\<forall>now. token_valid I now raw jws = (if now < tc_exp c then Some payload else None)))"
proof -
  note s = jwx_signed [OF laws sign]
  from s(4) obtain payload where p: "jws_Verify (id_jwx I) [(kid, jwk_PublicKeyOf (id_jwx I) k)] s = Inr payload"
    "jwt_Parse (id_jwx I) payload = Inr c" by blast
  have trim: "TrimTokenBearer raw = s" if "raw \<in> {s, ''Bearer '' @ s}" for raw
    using that s(2) TrimTokenBearer_simps by auto
  have key': "JwkPrivateKey (id_jwx I) jws = Inr k" using key by (simp add: JwkPrivateKey_def)
  have "token_kid I raw = Some kid \<and> (\<forall>now. token_valid I now raw jws = (if now < tc_exp c then Some payload else None))"
    if "raw \<in> {s, ''Bearer '' @ s}" for raw
    using trim [OF that] s(1,3) p kid key' jwx_validate [OF laws]
    by (simp add: token_kid_def token_valid_def tokenutils_ValidateToken_def InsecureToken_def)
  with p(2) show ?thesis by blast
qed

lemma ValidateToken_ok:
  assumes "healthy I" "token_kid I raw = Some kid" "key_of_id db kid = Some k"
  shows "(token_valid I now raw (k_jws_message k) = Some payload) =
    (ValidateToken I now raw (db, n) = (Inr payload, db, n + 1))"
  using assms healthyD(1) [OF assms(1)] by (simp add: ValidateToken_Inr)

lemma in_transaction_ok:
  assumes "healthy I" and "body (db, n + 1) = (Inr x, db1, n1)"
  shows "in_transaction (id_pg I) be err body (db, n) = (Inr x, db1, n1 + 1)"
  using assms healthyD(1) [OF assms(1)] by (simp add: in_transaction_def)

text \<open>What a login, or the end of a registration, gives.\<close>

lemma tokens_of_session:
  assumes I: "healthy I" and inv: "idb_inv db" and fresh: "fresh_ids (id_pg I) db n"
    and user: "user_by_id db (ui_userID user) \<noteq> None"
    and gen: "userGenerateTokens I now user (db, n) = (Inr r, db', n')"
  shows "\<exists>kid k payload payload'. session_of db kid = None \<and> key_of_id db' kid = Some k
    \<and> session_of db' = (session_of db)(kid \<mapsto> (ui_userID user, k_jws_message k, ck_Value (RefreshToken r), add_one_year now))
    \<and> (\<forall>raw\<in>{AccessToken r, ''Bearer '' @ AccessToken r}. token_kid I raw = Some kid
         \<and> (\<forall>now'. token_valid I now' raw (k_jws_message k) = (if now' < now + 60 then Some payload else None)))
    \<and> (\<forall>raw\<in>{ck_Value (RefreshToken r), ''Bearer '' @ ck_Value (RefreshToken r)}. token_kid I raw = Some kid
         \<and> (\<forall>now'. token_valid I now' raw (k_jws_message k) = (if now' < add_one_year now then Some payload' else None)))
    \<and> jwt_Parse (id_jwx I) payload = Inr (claims_of (token_params (k_jws_message k) kid user) ''access_token'' (now + 60))
    \<and> jwt_Parse (id_jwx I) payload' = Inr (claims_of (token_params (k_jws_message k) kid user) ''refresh_token'' (add_one_year now))
    \<and> idb_inv db' \<and> (\<forall>name. user_named db' name = user_named db name)"
proof -
  from gen obtain k t where
    kt: "CreateRefreshToken (id_jwx I) now (token_params (k_jws_message k) (k_id k) user)
        = Inr (t_plaintext t, t_expires_at t)"
      "CreateUserAccessToken (id_jwx I) now (token_params (k_jws_message k) (k_id k) user) = Inr (AccessToken r)"
      "RefreshToken r = refresh_cookie (t_plaintext t) (t_expires_at t)"
      "key_of_id db (k_id k) = None" "t_private_key_id t = k_id k" "t_id t \<notin> t_id ` set (refresh_tokens db)"
      "db' = add_session k (ui_userID user) t db"
    and kid: "pg_uuid (id_pg I) n = k_id k"
    by (rule userGenerateTokens_Inr) simp
  let ?p = "token_params (k_jws_message k) (k_id k) user"
  have uuid: "uuid_Parse (id_jwx I) (k_id k) = (k_id k, None)" using healthyD(6) [OF I, of n] by (simp only: kid)
  obtain k1 where k1: "jwk_ParseKey (id_jwx I) (k_jws_message k) = Inr k1"
    "jwt_Sign (id_jwx I) (claims_of ?p ''access_token'' (now + 60)) k1 (k_id k) = Inr (AccessToken r)"
    using access_token_signed [OF kt(2)] by (auto simp: token_params_def)
  obtain k2 where k2: "jwk_ParseKey (id_jwx I) (k_jws_message k) = Inr k2" "t_expires_at t = add_one_year now"
    "jwt_Sign (id_jwx I) (claims_of ?p ''refresh_token'' (add_one_year now)) k2 (k_id k) = Inr (t_plaintext t)"
    using refresh_token_signed [OF kt(1)] by (auto simp: token_params_def)
  from signed_accepted [OF healthyD(4) [OF I] k1 uuid] obtain payload where
    acc: "jwt_Parse (id_jwx I) payload = Inr (claims_of ?p ''access_token'' (now + 60))"
      "\<forall>raw\<in>{AccessToken r, ''Bearer '' @ AccessToken r}. token_kid I raw = Some (k_id k)
         \<and> (\<forall>now'. token_valid I now' raw (k_jws_message k) = (if now' < now + 60 then Some payload else None))"
    by (auto simp: claims_of_def)
  from signed_accepted [OF healthyD(4) [OF I] k2(1,3) uuid] obtain payload' where
    ref: "jwt_Parse (id_jwx I) payload' = Inr (claims_of ?p ''refresh_token'' (add_one_year now))"
      "\<forall>raw\<in>{t_plaintext t, ''Bearer '' @ t_plaintext t}. token_kid I raw = Some (k_id k)
         \<and> (\<forall>now'. token_valid I now' raw (k_jws_message k) = (if now' < add_one_year now then Some payload' else None))"
    by (auto simp: claims_of_def)
  have val: "ck_Value (RefreshToken r) = t_plaintext t" by (simp add: kt(3) refresh_cookie_def)
  have new: "session_of db (k_id k) = None" using session_of_ex [OF inv] kt(4) by simp
  have look: "key_of_id db' (k_id k) = Some k" "\<forall>name. user_named db' name = user_named db name"
    unfolding kt(7) add_session_lookups [OF kt(4) inv kt(5,6)] by simp_all
  have sess: "session_of db' = (session_of db)(k_id k \<mapsto>
      (ui_userID user, k_jws_message k, ck_Value (RefreshToken r), add_one_year now))"
    unfolding kt(7) add_session_session [OF inv kt(4,5,6)] by (simp add: val k2(2))
  have "idb_inv db'" unfolding kt(7) by (rule add_session_inv [OF inv kt(4,5,6) user])
  with new look sess acc ref show ?thesis unfolding val
    by (intro exI [of _ "k_id k"] exI [of _ k] exI [of _ payload] exI [of _ payload'] conjI) assumption+
qed

end
