(* ===== verification/IdentityTheorems.thy ===== *)
theory IdentityTheorems imports IdentityProperties TokenExample begin

text \<open>
  The properties of the identity service, over any database the service may have built up, and their
  instances on a freshly migrated database.
\<close>

section \<open>Requests that fail\<close>

lemma RegisterUser_Inl: "drop_status (RegisterUser I now name pw (db, n)) = (Some e, db', n') \<Longrightarrow> db' = db"
  by (auto simp: RegisterUser_def status_of_def split: sum.splits prod.splits dest: in_transaction_Inl)

lemma UserLogin_Inl:
  assumes "drop_status (UserLogin I now name pw (db, n)) = (Some e, db', n')"
  shows "db' = db"
proof -
  obtain r m where find: "FindUserByUsername (id_pg I) name (db, n) = (r, db, m)"
    using FindUserByUsername_db [of "id_pg I" name "(db, n)"] by (metis fst_conv prod.collapse)
  with assms show ?thesis
    by (auto simp: UserLogin_def status_of_def split: sum.splits option.splits prod.splits dest: in_transaction_Inl)
qed

lemma UserExchangeAccessToken_Inl:
  assumes "UserExchangeAccessToken I now raw (db, n) = (Inl e, db', n')"
  shows "db' = db"
proof -
  obtain r m where val: "ValidateToken I now raw (db, n) = (r, db, m)"
    using ValidateToken_db [of I now raw "(db, n)"] by (metis fst_conv prod.collapse)
  obtain r2 where kid: "GetUserKID I raw (db, m) = (r2, db, m)"
    using GetUserKID_state [of I raw "(db, m)"] by (metis prod.collapse)
  from assms val kid show ?thesis
    by (cases r; cases r2) (auto simp: UserExchangeAccessToken_def try_call_def dest: in_transaction_Inl)
qed

lemma drop_result_Some:
  assumes "drop_result r = (Some e, c)"
  obtains e' where "r = (Inl e', c)"
  using assms by (cases r; cases "fst r") auto

section \<open>What a new session gives\<close>

definition user_claims :: "user_row \<Rightarrow> string \<Rightarrow> int \<Rightarrow> token_claims" where
  "user_claims u use e = \<lparr>tc_iss = ''0.0.0.0'', tc_aud = [''user'', ''broadcaster''], tc_sub = u_username u,
     tc_exp = e, tc_user_id = Some (u_id u), tc_token_use = Some use\<rparr>"

text \<open>The service accepts the token, with these claims, exactly before the given time.\<close>

definition accepted_until :: "'k identity \<Rightarrow> idb \<Rightarrow> string \<Rightarrow> token_claims \<Rightarrow> int \<Rightarrow> bool" where
  "accepted_until I db raw c e \<longleftrightarrow> (\<exists>payload. jwt_Parse (id_jwx I) payload = Inr c
     \<and> (\<forall>now m. (\<exists>c'. ValidateToken I now raw (db, m) = (Inr payload, c')) = (now < e)
          \<and> (now \<ge> e \<longrightarrow> (\<exists>err c'. ValidateToken I now raw (db, m) = (Inl err, c')))))"

lemma accepted_untilI:
  assumes I: "healthy I" and kid: "token_kid I raw = Some kid" "key_of_id db kid = Some k"
    and val: "\<And>now. token_valid I now raw (k_jws_message k) = (if now < e then Some payload else None)"
    and claims: "jwt_Parse (id_jwx I) payload = Inr c"
  shows "accepted_until I db raw c e"
proof -
  have ok: "(\<exists>c'. ValidateToken I now raw (db, m) = (Inr p, c')) = (now < e \<and> p = payload)" for now m p
    using healthyD(1) [OF I] kid val by (auto simp: ValidateToken_Inr)
  have "\<exists>err c'. ValidateToken I now raw (db, m) = (Inl err, c')" if "now \<ge> e" for now m
  proof -
    obtain r c' where val: "ValidateToken I now raw (db, m) = (r, c')" by (rule prod.exhaust)
    with ok [of now m] that show ?thesis by (cases r) auto
  qed
  with ok claims show ?thesis unfolding accepted_until_def by blast
qed

lemma new_session:
  assumes I: "healthy I" and inv: "idb_inv db" and fresh: "fresh_ids (id_pg I) db n"
    and u: "user_by_id db (u_id u) = Some u'"
  shows "\<exists>r db'. userGenerateTokens I now \<lparr>ui_userID = u_id u, ui_username = u_username u,
        ui_claims = DEFAULT_CLAIMS\<rparr> (db, n) = (Inr r, db', n + 4)
    \<and> accepted_until I db' (''Bearer '' @ AccessToken r) (user_claims u ''access_token'' (now + 60)) (now + 60)
    \<and> accepted_until I db' (ck_Value (RefreshToken r)) (user_claims u ''refresh_token'' (add_one_year now)) (add_one_year now)
    \<and> idb_inv db' \<and> (\<forall>name. user_named db' name = user_named db name)
    \<and> ck_HttpOnly (RefreshToken r) \<and> ck_Expires (RefreshToken r) = Some (add_one_year now)
    \<and> (\<exists>kid. token_kid I (''Bearer '' @ AccessToken r) = Some kid \<and> token_kid I (ck_Value (RefreshToken r)) = Some kid)"
proof -
  let ?u = "\<lparr>ui_userID = u_id u, ui_username = u_username u, ui_claims = DEFAULT_CLAIMS\<rparr>"
  have claims: "claims_of (token_params jws kid ?u) use e = user_claims u use e" for jws kid use e
    by (simp add: claims_of_def token_params_def user_claims_def DEFAULT_CLAIMS_def)
  obtain r db' where gen: "userGenerateTokens I now ?u (db, n) = (Inr r, db', n + 4)"
    using userGenerateTokens_ok [OF I inv fresh, of ?u now] u by auto
  have cookie: "ck_HttpOnly (RefreshToken r)" "ck_Expires (RefreshToken r) = Some (add_one_year now)"
    by (rule userGenerateTokens_Inr [OF gen], simp add: refresh_cookie_def CreateRefreshToken_expires)+
  from tokens_of_session [OF I inv fresh _ gen] u obtain kid k p p' where
    key: "key_of_id db' kid = Some k" and
    acc: "token_kid I (''Bearer '' @ AccessToken r) = Some kid"
      "\<And>now'. token_valid I now' (''Bearer '' @ AccessToken r) (k_jws_message k) = (if now' < now + 60 then Some p else None)" and
    ref: "token_kid I (ck_Value (RefreshToken r)) = Some kid"
      "\<And>now'. token_valid I now' (ck_Value (RefreshToken r)) (k_jws_message k)
        = (if now' < add_one_year now then Some p' else None)" and
    parse: "jwt_Parse (id_jwx I) p = Inr (claims_of (token_params (k_jws_message k) kid ?u) ''access_token'' (now + 60))"
      "jwt_Parse (id_jwx I) p' = Inr (claims_of (token_params (k_jws_message k) kid ?u) ''refresh_token'' (add_one_year now))" and
    db': "idb_inv db'" "\<forall>name. user_named db' name = user_named db name"
    by auto
  from accepted_untilI [OF I acc(1) key acc(2) parse(1) [unfolded claims]]
    accepted_untilI [OF I ref(1) key ref(2) parse(2) [unfolded claims]] gen cookie db' acc(1) ref(1)
  show ?thesis by blast
qed

section \<open>The example\<close>

lemma nat_str_not_admin [simp]: "nat_str m \<noteq> u_id admin_row"
proof
  assume "nat_str m = u_id admin_row"
  then have "digits_value 0 (u_id admin_row) = Some m" by (metis digits_value_nat_str)
  then show False by (simp add: admin_row_def char_digit_def)
qed

lemma toy_healthy [simp]: "healthy toy_identity"
  by (simp add: healthy_def inj_def)

lemma toy_fresh [simp]: "fresh_ids (id_pg toy_identity) migrated_db n"
  by (simp add: fresh_ids_def migrated_db_def)

lemma migrated_inv [simp]: "idb_inv migrated_db"
  using migrated_rel by (simp add: id_rel_def)

lemma migrated_users [simp]: "user_named migrated_db name = (if name = ''adminuser'' then Some admin_row else None)"
  by (simp add: user_named_def migrated_db_def admin_row_def)

lemma FindUserByUsername_healthy:
  "healthy I \<Longrightarrow> FindUserByUsername (id_pg I) name (db, n) =
    ((case user_named db name of None \<Rightarrow> Inl ErrNoRows | Some u \<Rightarrow> Inr u), db, n + 1)"
  by (simp add: FindUserByUsername_def exec_stmt_def healthyD(1) user_named_def split: option.split)

section \<open>Properties\<close>

text \<open>C10: whatever sequence of registrations, logins, exchanges and sign-outs reaches the service,
  with whatever statements and library calls failing, each is a step of the abstract machine of users
  and sessions, or is refused and changes nothing: user names stay unique and at most 30 characters,
  a login opens one new session of an existing user, an exchange renews only the session its valid
  token names, a sign-out closes only the session its token names.\<close>

theorem identity_refines_spec:
  "\<exists>es s' a'. forward_simulation.exec_all (exec_id I) ops (migrated_db, n) = Some (es, s')
    \<and> forward_simulation.spec_all (id_step I) ops (map (\<lambda>e. e = None) es) migrated_abs a' \<and> id_rel s' a'"
  by (rule ids.sim_all [OF migrated_rel]) (simp add: list_all_iff)

text \<open>C14: a request of the identity service that fails, at whatever statement, leaves the database as
  it was: nothing of a half-done registration, login, exchange or sign-out stays.\<close>

theorem failed_requests_roll_back:
  assumes "exec_id I oper (db, n) = Some (Some e, db', n')"
  shows "db' = db"
proof (cases oper)
  case (Register now name pw)
  then show ?thesis using assms RegisterUser_Inl by simp
next
  case (Login now name pw)
  then show ?thesis using assms UserLogin_Inl by simp
next
  case (Exchange now raw)
  with assms have "drop_result (UserExchangeAccessToken I now raw (db, n)) = (Some e, db', n')" by simp
  then show ?thesis by (rule drop_result_Some) (rule UserExchangeAccessToken_Inl)
next
  case (SignOut raw)
  with assms have "drop_result (UserDeleteRefreshToken I raw (db, n)) = (Some e, db', n')" by simp
  then show ?thesis by (rule drop_result_Some) (drule UserDeleteRefreshToken_Inl, simp)
qed


theorem failed_requests_roll_back_witness:
  "\<exists>e n'. exec_id toy_identity (Login 0 ''nobody'' ''secret'') (migrated_db, 0) = Some (Some e, migrated_db, n')"
proof -
  obtain e db' n' where run: "exec_id toy_identity (Login 0 ''nobody'' ''secret'') (migrated_db, 0) = Some (Some e, db', n')"
    using FindUserByUsername_healthy [OF toy_healthy, of "''nobody''" migrated_db 0] by (simp add: UserLogin_def)
  from failed_requests_roll_back [OF run] run show ?thesis by blast
qed

lemma login_ok:
  assumes "healthy I" and "idb_inv db" and "fresh_ids (id_pg I) db n"
    and named: "user_named db name = Some u" and pw: "bcrypt_Compare I (u_password u) pw = None"
  shows "\<exists>r db' n'. UserLogin I now name pw (db, n) = (Inr (r, 200), db', n') \<and> idb_inv db'
    \<and> accepted_until I db' (''Bearer '' @ AccessToken r) (user_claims u ''access_token'' (now + 60)) (now + 60)
    \<and> accepted_until I db' (ck_Value (RefreshToken r)) (user_claims u ''refresh_token'' (add_one_year now)) (add_one_year now)
    \<and> ck_HttpOnly (RefreshToken r) \<and> ck_Expires (RefreshToken r) = Some (add_one_year now)
    \<and> (\<exists>kid. token_kid I (''Bearer '' @ AccessToken r) = Some kid \<and> token_kid I (ck_Value (RefreshToken r)) = Some kid)"
proof -
  have find: "FindUserByUsername (id_pg I) name (db, n) = (Inr u, db, n + 1)"
    using FindUserByUsername_healthy [OF assms(1), of name db n] named by simp
  have "u \<in> set (users db)" using user_named_Some [OF named] by simp
  then have uid: "\<exists>u'. user_by_id db (u_id u) = Some u'" using user_by_id_iff [of db "u_id u"] by auto
  have fresh: "fresh_ids (id_pg I) db (n + 2)" using assms(3) by (auto simp: fresh_ids_def)
  from uid new_session [OF assms(1,2) fresh, of u _ now] obtain r db' where
    gen: "userGenerateTokens I now \<lparr>ui_userID = u_id u, ui_username = u_username u,
        ui_claims = DEFAULT_CLAIMS\<rparr> (db, n + 1 + 1) = (Inr r, db', n + 2 + 4)" and r: "idb_inv db'"
      "accepted_until I db' (''Bearer '' @ AccessToken r) (user_claims u ''access_token'' (now + 60)) (now + 60)"
      "accepted_until I db' (ck_Value (RefreshToken r)) (user_claims u ''refresh_token'' (add_one_year now)) (add_one_year now)"
      "ck_HttpOnly (RefreshToken r)" "ck_Expires (RefreshToken r) = Some (add_one_year now)"
      "\<exists>kid. token_kid I (''Bearer '' @ AccessToken r) = Some kid \<and> token_kid I (ck_Value (RefreshToken r)) = Some kid"
    by auto
  have tx: "in_transaction (id_pg I) be err (userGenerateTokens I now \<lparr>ui_userID = u_id u,
      ui_username = u_username u, ui_claims = DEFAULT_CLAIMS\<rparr>) (db, n + 1) = (Inr r, db', n + 2 + 4 + 1)" for be err
    by (rule in_transaction_ok [OF assms(1)]) (rule gen)
  have "UserLogin I now name pw (db, n) = (Inr (r, 200), db', n + 2 + 4 + 1)"
    by (simp only: UserLogin_def find pw prod.case sum.case option.case tx status_of_def)
  with r show ?thesis by blast
qed



text \<open>C12: registering a name that is free and at most 30 characters, when no statement fails, answers 201
  with tokens as a login does, and stores the user under that name with the hash of the password.\<close>

theorem registration_makes_user:
  assumes "healthy I" and "idb_inv db" and "fresh_ids (id_pg I) db n"
    and "user_named db name = None" and "length name \<le> 30"
    and "bcrypt_Generate I pw = Inr h" and "length h \<le> 200"
  shows "\<exists>u r db' n'. RegisterUser I now name pw (db, n) = (Inr (r, 201), db', n') \<and> idb_inv db'
    \<and> u_username u = name \<and> u_password u = h \<and> user_named db' = (user_named db)(name \<mapsto> u)
    \<and> accepted_until I db' (''Bearer '' @ AccessToken r) (user_claims u ''access_token'' (now + 60)) (now + 60)
    \<and> accepted_until I db' (ck_Value (RefreshToken r)) (user_claims u ''refresh_token'' (add_one_year now)) (add_one_year now)"
proof -
  let ?u = "\<lparr>u_id = pg_uuid (id_pg I) (n + 1), u_username = name, u_password = h\<rparr>"
  let ?db = "db\<lparr>users := users db @ [?u]\<rparr>"
  have new: "user_by_id db (u_id ?u) = None" "user_named db (u_username ?u) = None"
    using assms(3,4) user_by_id_iff [of db "u_id ?u"] by (auto simp: fresh_ids_def)
  have ins: "InsertUser (id_pg I) name h (db, n + 1) = (Inr ?u, ?db, n + 2)"
    using healthyD(1) [OF assms(1)] assms(5,7) new
    by (simp add: InsertUser_def insert_user_stmt_def exec_stmt_def Let_def user_named_def user_by_id_def find_None_image)
  note look = add_user_lookups [OF new(2,1)]
  have fresh: "fresh_ids (id_pg I) ?db (n + 2)"
    using assms(3) healthyD(2) [OF assms(1)] by (auto simp: fresh_ids_def)
  have "user_by_id ?db (u_id ?u) = Some ?u" using look(2) by simp
  from new_session [OF assms(1) add_user_inv [OF assms(2) new(2,1)] fresh this, of now] obtain r db' where
    gen: "userGenerateTokens I now \<lparr>ui_userID = u_id ?u, ui_username = u_username ?u,
        ui_claims = DEFAULT_CLAIMS\<rparr> (?db, n + 2) = (Inr r, db', n + 2 + 4)" and r:
      "accepted_until I db' (''Bearer '' @ AccessToken r) (user_claims ?u ''access_token'' (now + 60)) (now + 60)"
      "accepted_until I db' (ck_Value (RefreshToken r)) (user_claims ?u ''refresh_token'' (add_one_year now)) (add_one_year now)"
      "idb_inv db'" "\<forall>nm. user_named db' nm = user_named ?db nm" by auto
  let ?body = "try_call (InsertUser (id_pg I) name h) (errorf ''Unable insert user record. Error: '')
    (\<lambda>user. userGenerateTokens I now \<lparr>ui_userID = u_id user, ui_username = u_username user,
       ui_claims = DEFAULT_CLAIMS\<rparr>)"
  have "?body (db, n + 1) = (Inr r, db', n + 2 + 4)" using ins gen by (simp add: try_call_def)
  then have tx: "in_transaction (id_pg I) be err ?body (db, n) = (Inr r, db', n + 2 + 4 + 1)" for be err
    by (rule in_transaction_ok [OF assms(1)])
  have "RegisterUser I now name pw (db, n) = (Inr (r, 201), db', n + 2 + 4 + 1)"
    by (simp only: RegisterUser_def assms(6) sum.case tx prod.case status_of_def)
  moreover have "user_named db' = (user_named db)(name \<mapsto> ?u)" using r(4) look(1) by auto
  ultimately show ?thesis using r(1-3) by (intro exI [of _ ?u] exI [of _ r] exI [of _ db']) simp
qed

theorem registration_makes_user_witness:
  "\<exists>u r db' n'. RegisterUser toy_identity 0 ''alice'' ''secret'' (migrated_db, 0) = (Inr (r, 201), db', n')
    \<and> idb_inv db' \<and> u_username u = ''alice'' \<and> u_password u = ''hsecret''
    \<and> user_named db' = (user_named migrated_db)(''alice'' \<mapsto> u)
    \<and> accepted_until toy_identity db' (''Bearer '' @ AccessToken r) (user_claims u ''access_token'' 60) 60
    \<and> accepted_until toy_identity db' (ck_Value (RefreshToken r))
        (user_claims u ''refresh_token'' (add_one_year 0)) (add_one_year 0)"
  using registration_makes_user [OF toy_healthy migrated_inv toy_fresh, where name = "''alice''" and pw = "''secret''" and h = "''hsecret''" and now = 0 and n = 0]
  by simp

section \<open>Sign-out and exchange\<close>

lemma ValidateToken_keys:
  assumes "private_keys db' = private_keys db"
  shows "fst (ValidateToken I now raw (db', m)) = fst (ValidateToken I now raw (db, m))"
  using assms by (auto simp: ValidateToken_def getPrivateKey_def GetPrivateKeyById_def exec_stmt_def try_call_def Let_def
      split: sum.splits option.splits prod.splits)

lemma key_owner_token:
  assumes "idb_inv db" and "key_of_id db kid = Some k"
  obtains x u where "find (\<lambda>x. uk_private_key_id x = kid) (user_private_keys db) = Some x"
    "find (\<lambda>u. u_id u = uk_user_id x) (users db) = Some u"
proof -
  have "owner_of db kid \<noteq> None" using assms by (simp add: idb_inv_def)
  then obtain x where x: "find (\<lambda>x. uk_private_key_id x = kid) (user_private_keys db) = Some x"
    by (auto simp: owner_of_def)
  then have "owner_of db kid = Some (uk_user_id x)" by (simp add: owner_of_def)
  then have "user_by_id db (uk_user_id x) \<noteq> None" using assms(1) unfolding idb_inv_def by blast
  with x that show thesis by (auto simp: user_by_id_def)
qed

lemma userRefreshTokens_ok:
  assumes I: "healthy I" and inv: "idb_inv db" and fresh: "fresh_ids (id_pg I) db n"
    and key: "key_of_id db kid = Some k" "jwk_ParseKey (id_jwx I) (k_jws_message k) = Inr pk"
  shows "\<exists>r db'. userRefreshTokens I now kid (db, n) = (Inr r, db', n + 6)"
proof -
  obtain x u where rows: "find (\<lambda>x. uk_private_key_id x = kid) (user_private_keys db) = Some x"
    "find (\<lambda>u. u_id u = uk_user_id x) (users db) = Some u" by (rule key_owner_token [OF inv key(1)])
  let ?u = "\<lparr>ui_userID = u_id u, ui_username = u_username u, ui_claims = DEFAULT_CLAIMS\<rparr>"
  have user: "FindUserByPrivateKey (id_pg I) kid (db, n) = (Inr u, db, n + 1 + 1)"
    using rows healthyD(1) [OF I] by (simp add: FindUserByPrivateKey_def exec_stmt_def try_call_def)
  have pkey: "GetPrivateKey I kid (db, n + 1 + 1) = (Inr (k_jws_message k), db, n + 1 + 1 + 1)"
    using key(1) healthyD(1) [OF I]
    by (simp add: GetPrivateKey_def GetPrivateKeyById_def exec_stmt_def try_call_def key_of_id_def)
  obtain s where acc: "CreateUserAccessToken (id_jwx I) now (token_params (k_jws_message k) kid ?u) = Inr s"
    using create_tokens_ok(1) [OF I, of "token_params (k_jws_message k) kid ?u" pk now] key(2)
    by (auto simp: token_params_def)
  have del: "DeleteRefreshTokenByPrivateKey (id_pg I) kid (db, n + 1 + 1 + 1) = (Inr (), drop_token kid db, n + 4)"
    using healthyD(1) [OF I]
    by (simp add: DeleteRefreshTokenByPrivateKey_def delete_token_stmt_def exec_stmt_def drop_token_def Let_def)
  have "\<exists>s e db'. userGenerateRefreshToken I now (k_jws_message k) kid ?u (drop_token kid db, n + 4)
      = (Inr (s, e), db', n + 4 + 2)"
  proof (rule userGenerateRefreshToken_ok [OF I key(2)])
    have "pg_uuid (id_pg I) (n + 4) \<notin> t_id ` set (refresh_tokens db)" using fresh by (auto simp: fresh_ids_def)
    then show *: "pg_uuid (id_pg I) (n + 4) \<notin> t_id ` set (refresh_tokens (drop_token kid db))"
      by (auto simp: drop_token_def)
    with drop_token_attached [OF inv, of kid]
    show "pg_uuid (id_pg I) (n + 4) \<notin> ut_refresh_token_id ` set (user_refresh_tokens (drop_token kid db))" by blast
    show "kid \<notin> t_private_key_id ` set (refresh_tokens (drop_token kid db))" by (auto simp: drop_token_def)
    show "kid \<in> k_id ` set (private_keys (drop_token kid db))"
      using key(1) key_of_id_iff [of db kid] by (auto simp: drop_token_def)
    have "u \<in> set (users db)" using find_SomeD [OF rows(2)] by simp
    then show "ui_userID ?u \<in> u_id ` set (users (drop_token kid db))" by (simp add: drop_token_def)
  qed
  then obtain s2 e db' where "userGenerateRefreshToken I now (k_jws_message k) kid ?u (drop_token kid db, n + 4)
      = (Inr (s2, e), db', n + 6)" by auto
  with user pkey acc del show ?thesis
    by (simp add: userRefreshTokens_def try_call_def token_params_def)
qed

lemma replace_token_keys: "private_keys (replace_token kid uid t db) = private_keys db"
  by (simp add: replace_token_def drop_token_def Let_def)

text \<open>Any token the service accepts, an access token included, can be exchanged for a new refresh
  token, and the exchange revokes nothing: every token that was accepted, the exchanged refresh token
  among them, is accepted as long as before.\<close>

theorem exchange_revokes_nothing:
  assumes "healthy I" and "idb_inv db" and "fresh_ids (id_pg I) db n"
    and "ValidateToken I now raw (db, n) = (Inr payload, c)"
  shows "\<exists>r db' n'. UserExchangeAccessToken I now raw (db, n) = (Inr r, db', n')
    \<and> (\<forall>raw' now' m. fst (ValidateToken I now' raw' (db', m)) = fst (ValidateToken I now' raw' (db, m)))"
proof -
  from assms(4) obtain kid k where
    kid: "token_kid I raw = Some kid" "key_of_id db kid = Some k" "c = (db, n + 1)"
    and valid: "token_valid I now raw (k_jws_message k) = Some payload"
    by (auto simp: ValidateToken_Inr)
  obtain pk where pk: "jwk_ParseKey (id_jwx I) (k_jws_message k) = Inr pk"
    using valid by (auto simp: token_valid_Some JwkPrivateKey_def split: sum.splits)
  have fresh: "fresh_ids (id_pg I) db (n + 2)" using assms(3) by (auto simp: fresh_ids_def)
  obtain r db' where gen: "userRefreshTokens I now kid (db, n + 2) = (Inr r, db', n + 2 + 6)"
    using userRefreshTokens_ok [OF assms(1,2) fresh kid(2) pk] by blast
  have keys: "private_keys db' = private_keys db"
    by (rule userRefreshTokens_Inr [OF gen]) (simp add: replace_token_keys)
  have tx: "in_transaction (id_pg I) be err (userRefreshTokens I now kid) (db, n + 1) = (Inr r, db', n + 2 + 6 + 1)" for be err
    by (rule in_transaction_ok [OF assms(1)]) (use gen in simp)
  have "GetUserKID I raw c = (Inr kid, c)" using kid(1) by (simp add: GetUserKID_Inr)
  then have "UserExchangeAccessToken I now raw (db, n) = (Inr r, db', n + 2 + 6 + 1)"
    by (simp only: UserExchangeAccessToken_def try_call_def assms(4) prod.case sum.case kid(3) tx)
  with ValidateToken_keys [OF keys, of I] show ?thesis by blast
qed

text \<open>A session of the admin, as a concrete database.\<close>

definition admin_claims :: token_claims where
  "admin_claims = user_claims admin_row ''access_token'' 60"

definition admin_db :: idb where
  "admin_db = migrated_db\<lparr>private_keys := [\<lparr>k_id = ''k'', k_jws_message = enc_key 7\<rparr>],
     user_private_keys := [\<lparr>uk_user_id = u_id admin_row, uk_private_key_id = ''k''\<rparr>],
     refresh_tokens := [\<lparr>t_id = ''t'', t_private_key_id = ''k'', t_plaintext = toy_sign admin_claims 7 ''k'', t_expires_at = 60\<rparr>],
     user_refresh_tokens := [\<lparr>ut_user_id = u_id admin_row, ut_refresh_token_id = ''t''\<rparr>]\<rparr>"

lemma nat_str_not_letter [simp]: "nat_str m \<noteq> ''k''" "nat_str m \<noteq> ''t''"
proof -
  have "digits_value 0 ''k'' = None" "digits_value 0 ''t'' = None" by (simp_all add: char_digit_def)
  then show "nat_str m \<noteq> ''k''" "nat_str m \<noteq> ''t''" by (metis digits_value_nat_str option.distinct(1))+
qed

lemma admin_db_fresh [simp]: "fresh_ids (id_pg toy_identity) admin_db n"
  by (simp add: fresh_ids_def admin_db_def migrated_db_def)

lemma admin_db_inv [simp]: "idb_inv admin_db"
  by (auto simp: idb_inv_def admin_db_def migrated_db_def owner_of_def key_of_id_def token_of_def token_user_def
      user_by_id_def split: if_splits)

lemma toy_sign_trim [simp]: "TrimTokenBearer (toy_sign c k i) = toy_sign c k i" "toy_sign c k i \<noteq> []"
  by (simp_all add: toy_sign_def TrimTokenBearer_def trim_prefix_def has_prefix_def)

lemma toy_kid [simp]: "i \<noteq> [] \<Longrightarrow> token_kid toy_identity (toy_sign c k i) = Some i"
  by (simp add: token_kid_def)

lemma ValidateToken_admin:
  "ValidateToken toy_identity 0 (toy_sign admin_claims j ''k'') (admin_db, m) =
     (if j = 7 then Inr (enc_claims admin_claims) else Inl (errorf ''Not verified token. Error: ''
        (GoErr ''could not verify message'')), admin_db, m + 1)"
  by (simp add: ValidateToken_def getPrivateKey_def GetPrivateKeyById_def exec_stmt_def try_call_def Let_def
      InsecureJwsMessage_def JwkPrivateKey_def VerifyTokenByKeySet_def getKeySet_def tokenutils_ValidateToken_def
      InsecureToken_def admin_db_def admin_claims_def user_claims_def)

theorem exchange_revokes_nothing_witness:
  "\<exists>r db' n'. UserExchangeAccessToken toy_identity 0 (toy_sign admin_claims 7 ''k'') (admin_db, 0) = (Inr r, db', n')
    \<and> fst (ValidateToken toy_identity 0 (toy_sign admin_claims 7 ''k'') (db', 0)) = Inr (enc_claims admin_claims)"
proof -
  have "ValidateToken toy_identity 0 (toy_sign admin_claims 7 ''k'') (admin_db, 0) = (Inr (enc_claims admin_claims), admin_db, 1)"
    by (simp add: ValidateToken_admin)
  from exchange_revokes_nothing [OF toy_healthy admin_db_inv admin_db_fresh this] obtain r db' n' where
    "UserExchangeAccessToken toy_identity 0 (toy_sign admin_claims 7 ''k'') (admin_db, 0) = (Inr r, db', n')"
    "fst (ValidateToken toy_identity 0 (toy_sign admin_claims 7 ''k'') (db', 0))
      = fst (ValidateToken toy_identity 0 (toy_sign admin_claims 7 ''k'') (admin_db, 0))" by blast
  then show ?thesis by (auto simp: ValidateToken_admin)
qed

lemma dropped_session_refused:
  assumes "token_kid I raw = Some kid"
  shows "\<exists>e c. ValidateToken I now raw (drop_session kid db, m) = (Inl e, c)"
proof -
  have gone: "key_of_id (drop_session kid db) kid = None" by (simp add: drop_session_lookups)
  obtain r c where val: "ValidateToken I now raw (drop_session kid db, m) = (r, c)" by (rule prod.exhaust)
  with gone assms show ?thesis by (cases r) (auto simp: ValidateToken_Inr)
qed

text \<open>C13: after a successful sign-out no token of that session, access or refresh, is accepted any more, and
  the other sessions are as they were.\<close>

theorem sign_out_revokes_session:
  assumes "idb_inv db" and "UserDeleteRefreshToken I raw (db, n) = (Inr x, db', n')"
  shows "\<exists>kid. token_kid I raw = Some kid \<and> session_of db' = (session_of db)(kid := None)
    \<and> (\<forall>raw' now m. token_kid I raw' = Some kid \<longrightarrow> (\<exists>e c. ValidateToken I now raw' (db', m) = (Inl e, c)))"
proof (rule UserDeleteRefreshToken_Inr [OF assms(2)])
  fix kid assume "token_kid I raw = Some kid" and db': "db' = drop_session kid db"
  then show ?thesis using dropped_session_refused [of I _ kid _ db] drop_session_session [of kid db] by blast
qed

lemma sign_out_ok:
  assumes I: "healthy I" and kid: "token_kid I raw = Some kid"
  shows "\<exists>n'. UserDeleteRefreshToken I raw (db, n) = (Inr (), drop_session kid db, n')"
proof -
  let ?body = "try_call (DeleteRefreshTokenByPrivateKey (id_pg I) kid) (errorf ''Unable delete refresh token. Error: '')
      (\<lambda>_. try_call (DeletePrivateKey (id_pg I) kid) (errorf ''Unable delete private key. Error: '') return)"
  have "?body (db, n + 1) = (Inr (), drop_session kid db, n + 1 + 1 + 1)"
    using healthyD(1) [OF I]
    by (auto simp: DeleteRefreshTokenByPrivateKey_def delete_token_stmt_def DeletePrivateKey_def delete_key_stmt_def
        exec_stmt_def try_call_def Let_def drop_session_def drop_token_def)
  from in_transaction_ok [where body = ?body, OF I this] have
    tx: "in_transaction (id_pg I) be err ?body (db, n) = (Inr (), drop_session kid db, n + 1 + 1 + 1 + 1)" for be err .
  have "GetUserKID I raw (db, n) = (Inr kid, db, n)" using kid by (simp add: GetUserKID_Inr)
  then show ?thesis by (simp only: UserDeleteRefreshToken_def try_call_def prod.case sum.case tx) blast
qed

text \<open>The service closes a session for any string that parses as a token naming it: the signature and
  the expiry of the token are not checked, so a forged token signs the user out.\<close>

theorem sign_out_accepts_forged_token:
  assumes "healthy I" and "idb_inv db" and "token_kid I raw = Some kid"
  shows "\<exists>db' n'. UserDeleteRefreshToken I raw (db, n) = (Inr (), db', n') \<and> idb_inv db'
    \<and> session_of db' = (session_of db)(kid := None)"
  using sign_out_ok [OF assms(1,3)] drop_session_inv [OF assms(2)] drop_session_session by blast

theorem sign_out_accepts_forged_token_witness:
  "(\<exists>e c. ValidateToken toy_identity 0 (toy_sign admin_claims 8 ''k'') (admin_db, 0) = (Inl e, c))
    \<and> session_of admin_db ''k'' \<noteq> None
    \<and> (\<exists>db' n'. UserDeleteRefreshToken toy_identity (toy_sign admin_claims 8 ''k'') (admin_db, 0) = (Inr (), db', n')
        \<and> session_of db' ''k'' = None)"
proof (intro conjI)
  show "\<exists>e c. ValidateToken toy_identity 0 (toy_sign admin_claims 8 ''k'') (admin_db, 0) = (Inl e, c)"
    by (simp add: ValidateToken_admin)
  show "session_of admin_db ''k'' \<noteq> None"
    by (simp add: session_of_def admin_db_def key_of_id_def owner_of_def token_of_def)
  show "\<exists>db' n'. UserDeleteRefreshToken toy_identity (toy_sign admin_claims 8 ''k'') (admin_db, 0) = (Inr (), db', n')
        \<and> session_of db' ''k'' = None"
    using sign_out_accepts_forged_token [OF toy_healthy admin_db_inv, of "toy_sign admin_claims 8 ''k''" "''k''" 0]
    by fastforce
qed

theorem sign_out_revokes_session_witness:
  "\<exists>db' n'. UserDeleteRefreshToken toy_identity (toy_sign admin_claims 7 ''k'') (admin_db, 0) = (Inr (), db', n')
    \<and> (\<exists>e c. ValidateToken toy_identity 0 (toy_sign admin_claims 7 ''k'') (db', 5) = (Inl e, c))"
proof -
  obtain n' where "UserDeleteRefreshToken toy_identity (toy_sign admin_claims 7 ''k'') (admin_db, 0)
      = (Inr (), drop_session ''k'' admin_db, n')"
    using sign_out_ok [OF toy_healthy, of "toy_sign admin_claims 7 ''k''" "''k''" admin_db 0] by auto
  from this sign_out_revokes_session [OF admin_db_inv this] show ?thesis by fastforce
qed

end
