(* ===== verification/IdentityHandler.thy ===== *)
theory IdentityHandler imports UserService begin

text \<open>
  The two faces of the identity service: the HTTP handlers of
  \<open>services/identity/internal/handler/v1alpha/identity/handler.go\<close> and the gRPC service and
  interceptor of \<open>services/identity/internal/grpc/v1alpha/identity/handler.go\<close>.  A handler takes the
  request, the response writer and the connection; decoding a JSON body is a parameter, since the
  standard library does it.  gRPC metadata gives the list of values of a key, or nothing.
\<close>

section \<open>Requests\<close>

record http_request =
  rq_method :: string
  rq_path :: string
  rq_header :: "string \<Rightarrow> string"
  rq_cookie :: "string \<Rightarrow> string option"
  rq_body :: string
  rq_token :: "string option"

text \<open>\<open>rq_token\<close> is the value under \<open>TOKEN_CONTEXT_VALUE\<close> in the request's context.\<close>

record sign_request =
  sr_Username :: string
  sr_Password :: string

definition ErrNoCookie :: goerr where
  "ErrNoCookie = Sentinel ''http: named cookie not present''"

section \<open>Responses\<close>

definition json_error :: "nat \<Rightarrow> string \<Rightarrow> response_writer \<Rightarrow> response_writer" where
  "json_error code msg w =
     write_chunk (error_body msg) (write_header code (header_set ''Content-Type'' ''application/json'' w))"

definition access_token_body :: "string \<Rightarrow> chunk" where
  "access_token_body t = Json (JObj [(''access_token'', JStr t)])"

definition tokens_response :: "nat \<Rightarrow> user_tokens_result \<Rightarrow> response_writer \<Rightarrow> response_writer" where
  "tokens_response code r w =
     write_chunk (access_token_body (AccessToken r))
       (write_header code (header_set ''Content-Type'' ''application/json'' (set_cookie (RefreshToken r) w)))"

section \<open>HTTP handlers\<close>

definition IdentityServiceSignIn ::
  "'k identity \<Rightarrow> (string \<Rightarrow> goerr + sign_request) \<Rightarrow> int \<Rightarrow> http_request \<Rightarrow> response_writer \<Rightarrow> conn
    \<Rightarrow> response_writer \<times> conn" where
  "IdentityServiceSignIn I decode now r w c =
     (case decode (rq_body r) of
        Inl err \<Rightarrow> (json_error 412 (''Unable deserialize request body. Error: '' @ err_text err) w, c)
      | Inr request \<Rightarrow>
          (case UserLogin I now (sr_Username request) (sr_Password request) c of
             (Inl (err, status), c1) \<Rightarrow> (json_error status (err_text err) w, c1)
           | (Inr (result, status), c1) \<Rightarrow> (tokens_response status result w, c1)))"

definition IdentityServiceSignUp ::
  "'k identity \<Rightarrow> (string \<Rightarrow> goerr + sign_request) \<Rightarrow> int \<Rightarrow> http_request \<Rightarrow> response_writer \<Rightarrow> conn
    \<Rightarrow> response_writer \<times> conn" where
  "IdentityServiceSignUp I decode now r w c =
     (case decode (rq_body r) of
        Inl err \<Rightarrow> (json_error 412 (''Unable deserialize request body. Error: '' @ err_text err) w, c)
      | Inr request \<Rightarrow>
          (case RegisterUser I now (sr_Username request) (sr_Password request) c of
             (Inl (err, status), c1) \<Rightarrow> (json_error status (err_text err) w, c1)
           | (Inr (result, status), c1) \<Rightarrow> (tokens_response status result w, c1)))"

definition PublicKeyServicePublicKeyList ::
  "'k identity \<Rightarrow> http_request \<Rightarrow> response_writer \<Rightarrow> conn \<Rightarrow> response_writer \<times> conn" where
  "PublicKeyServicePublicKeyList I r w c =
     (let plainToken = rq_header r ''Authorization'' in
      if plainToken = '''' then (json_error 412 ''Empty token in authorization header'' w, c)
      else case GetPublciKeys I plainToken c of
             (Inl err, c1) \<Rightarrow> (json_error 500 (err_text err) w, c1)
           | (Inr keyset, c1) \<Rightarrow>
               (write_chunk (Raw keyset) (header_set ''Content-Type'' ''application/json'' w), c1))"

definition TokenRevocationServiceVerifyTokenRevocation ::
  "'k identity \<Rightarrow> int \<Rightarrow> http_request \<Rightarrow> response_writer \<Rightarrow> conn \<Rightarrow> response_writer \<times> conn" where
  "TokenRevocationServiceVerifyTokenRevocation I now r w c =
     (let plainToken = rq_header r ''Authorization'' in
      if plainToken = '''' then (json_error 412 ''Empty token in authorization header'' w, c)
      else case ValidateToken I now plainToken c of
             (Inl err, c1) \<Rightarrow> (json_error 500 (err_text err) w, c1)
           | (Inr verified, c1) \<Rightarrow>
               (write_chunk (Raw verified) (header_set ''Content-Type'' ''application/json'' w), c1))"

definition deleteRefreshTokenCookie :: "response_writer \<Rightarrow> response_writer" where
  "deleteRefreshTokenCookie w =
     set_cookie \<lparr>ck_Name = ''_refresh_token'', ck_Value = '''', ck_Path = ''/'', ck_MaxAge = -1,
       ck_Expires = None, ck_HttpOnly = True\<rparr> w"

definition GetRefreshTokenFromCookieOrAuthHeader :: "http_request \<Rightarrow> goerr + string" where
  "GetRefreshTokenFromCookieOrAuthHeader r =
     (case rq_cookie r ''_refresh_token'' of
        Some v \<Rightarrow> Inr v
      | None \<Rightarrow>
          (let plainToken = rq_header r ''Authorization'' in
           if plainToken = '''' then Inl (GoErr ''empty token'') else Inr plainToken))"

definition TokenServiceExchangeToken ::
  "'k identity \<Rightarrow> int \<Rightarrow> http_request \<Rightarrow> response_writer \<Rightarrow> conn \<Rightarrow> response_writer \<times> conn" where
  "TokenServiceExchangeToken I now r w c =
     (case GetRefreshTokenFromCookieOrAuthHeader r of
        Inl err \<Rightarrow> (json_error 412 (''Empty refresh token. Error: '' @ err_text err) (deleteRefreshTokenCookie w), c)
      | Inr plainToken \<Rightarrow>
          (case UserExchangeAccessToken I now plainToken c of
             (Inl err, c1) \<Rightarrow>
               (json_error 401 (''Bad refresh token. Error: '' @ err_text err) (deleteRefreshTokenCookie w), c1)
           | (Inr result, c1) \<Rightarrow> (tokens_response 201 result w, c1)))"

text \<open>
  In the second branch \<open>err\<close> is nil, which \<open>%s\<close> prints as \<open>%!s(<nil>)\<close>.  The last header is set
  after the status was sent.
\<close>

definition IdentityServiceSignOut ::
  "'k identity \<Rightarrow> http_request \<Rightarrow> response_writer \<Rightarrow> conn \<Rightarrow> response_writer \<times> conn" where
  "IdentityServiceSignOut I r w c =
     (case rq_cookie r ''_refresh_token'' of
        None \<Rightarrow> (json_error 412 (''Error when getting cookie from request. Error: '' @ err_text ErrNoCookie)
           (deleteRefreshTokenCookie w), c)
      | Some rawRefreshToken \<Rightarrow>
          if rawRefreshToken = '''' then
            (json_error 412 ''Empty refresh token. Error: %!s(<nil>)'' (deleteRefreshTokenCookie w), c)
          else
            (case UserDeleteRefreshToken I rawRefreshToken c of
               (Inl err, c1) \<Rightarrow> (json_error 500 (''Something went wrong. Error: '' @ err_text err) w, c1)
             | (Inr _, c1) \<Rightarrow>
                 (header_set ''Content-Type'' ''application/json''
                    (write_header 204 (deleteRefreshTokenCookie w)), c1)))"

section \<open>gRPC\<close>

type_synonym metadata = "string \<Rightarrow> string list option"

text \<open>\<open>None\<close> stands for a context without metadata; an index out of range panics.\<close>

definition index_panic :: "'a outcome" where
  "index_panic = Panic ''runtime error: index out of range [0] with length 0''"

definition PublicKeyList :: "'k identity \<Rightarrow> metadata option \<Rightarrow> conn \<Rightarrow> (goerr + string) outcome \<times> conn" where
  "PublicKeyList I md c =
     (case md of
        None \<Rightarrow> (Ret (Inl (StatusErr Internal ''Unable parse metadata for request.'')), c)
      | Some m \<Rightarrow>
          (case m ''authorization'' of
             None \<Rightarrow> (Ret (Inl (StatusErr FailedPrecondition ''The route require authorization metadata'')), c)
           | Some [] \<Rightarrow> (index_panic, c)
           | Some (rawToken # _) \<Rightarrow>
               (case GetPublciKeys I rawToken c of
                  (Inl err, c1) \<Rightarrow> (Ret (Inl (StatusErr Internal (err_text err))), c1)
                | (Inr result, c1) \<Rightarrow> (Ret (Inr result), c1))))"

definition ServiceName :: string where
  "ServiceName = ''identity.v1alpha.PublicKeyService''"

definition requireAuthMetaOnRequest ::
  "metadata option \<Rightarrow> string \<Rightarrow> ('s \<Rightarrow> (goerr + 'a) outcome \<times> 's) \<Rightarrow> 's \<Rightarrow> (goerr + 'a) outcome \<times> 's" where
  "requireAuthMetaOnRequest md fullMethod handler s =
     (case md of
        None \<Rightarrow> (Ret (Inl (StatusErr Internal ''Unable parse metadata for request.'')), s)
      | Some m \<Rightarrow>
          if has_prefix fullMethod (''/'' @ ServiceName) then handler s
          else
            (case m ''authorization'' of
               None \<Rightarrow> (Ret (Inl (StatusErr FailedPrecondition ''The route require authorization metadata'')), s)
             | Some [] \<Rightarrow> (index_panic, s)
             | Some (auth # _) \<Rightarrow>
                 if auth = '''' then
                   (Ret (Inl (StatusErr FailedPrecondition ''The route require authorization metadata'')), s)
                 else handler s))"

section \<open>Lemmas\<close>

named_theorems identity_http \<open>what the responses of the handlers carry\<close>

definition removed_cookie :: cookie where
  "removed_cookie = \<lparr>ck_Name = ''_refresh_token'', ck_Value = '''', ck_Path = ''/'', ck_MaxAge = -1,
     ck_Expires = None, ck_HttpOnly = True\<rparr>"

lemma resp_json_error [identity_http]:
  assumes "w_sent w = None"
  shows "resp_status (json_error code msg w) = code"
    "resp_body (json_error code msg w) = w_body w @ [error_body msg]"
    "resp_hdr (json_error code msg w) ''Content-Type'' = Some ''application/json''"
    "resp_cookies (json_error code msg w) = set_cookies (w_header w)"
  using assms by (simp_all add: json_error_def http_model)

lemma resp_tokens [identity_http]:
  assumes "w_sent w = None"
  shows "resp_status (tokens_response code r w) = code"
    "resp_body (tokens_response code r w) = w_body w @ [access_token_body (AccessToken r)]"
    "resp_hdr (tokens_response code r w) ''Content-Type'' = Some ''application/json''"
    "resp_cookies (tokens_response code r w) = set_cookies (w_header w) @ [RefreshToken r]"
  using assms by (simp_all add: tokens_response_def http_model)

lemma deleted_cookie [identity_http]:
  "w_sent (deleteRefreshTokenCookie w) = w_sent w" "w_body (deleteRefreshTokenCookie w) = w_body w"
  "set_cookies (w_header (deleteRefreshTokenCookie w)) = set_cookies (w_header w) @ [removed_cookie]"
  "hdr (w_header (deleteRefreshTokenCookie w)) = hdr (w_header w)"
  by (simp_all add: deleteRefreshTokenCookie_def removed_cookie_def http_model)

lemma new_writer_simps [identity_http]:
  "w_sent new_writer = None" "w_body new_writer = []" "set_cookies (w_header new_writer) = []"
  "hdr (w_header new_writer) = Map.empty"
  by (simp_all add: new_writer_def empty_header_def)

end
