(* ===== verification/IdentityHttp.thy ===== *)
theory IdentityHttp imports IdentityTheorems IdentityHandler begin

text \<open>
  The identity service as a client sees it over HTTP: a whole session from sign-in to sign-out, and
  what a failed exchange does to the client's cookie.
\<close>

section \<open>Lemmas\<close>

lemma resp_write_raw [identity_http]:
  assumes "w_sent w = None"
  shows "resp_status (write_chunk (Raw s) (header_set k v w)) = 200"
    "resp_body (write_chunk (Raw s) (header_set k v w)) = w_body w @ [Raw s]"
  using assms by (simp_all add: http_model)

lemma verify_accepted:
  assumes "accepted_until I db raw c e" and "now < e" and "rq_header r ''Authorization'' = raw" and "raw \<noteq> ''''"
  shows "resp_status (fst (TokenRevocationServiceVerifyTokenRevocation I now r new_writer (db, m))) = 200"
proof -
  obtain payload c' where "ValidateToken I now raw (db, m) = (Inr payload, c')"
    using assms(1,2) unfolding accepted_until_def by blast
  with assms(3,4) show ?thesis
    by (simp add: TokenRevocationServiceVerifyTokenRevocation_def identity_http)
qed

lemma verify_refused:
  assumes "ValidateToken I now raw (db, m) = (Inl err, c)" and "rq_header r ''Authorization'' = raw" and "raw \<noteq> ''''"
  shows "resp_status (fst (TokenRevocationServiceVerifyTokenRevocation I now r new_writer (db, m))) = 500"
  using assms by (simp add: TokenRevocationServiceVerifyTokenRevocation_def identity_http)

lemma accepted_not_empty:
  assumes "accepted_until I db raw c e"
  shows "raw \<noteq> ''''"
proof
  assume raw: "raw = ''''"
  have "e - 1 < e" by simp
  then obtain payload c' where "ValidateToken I (e - 1) raw (db, 0) = (Inr payload, c')"
    using assms unfolding accepted_until_def by blast
  with raw show False by (auto simp: ValidateToken_Inr token_valid_Some TrimTokenBearer_def trim_prefix_def has_prefix_def)
qed

lemma sign_out_http:
  assumes "UserDeleteRefreshToken I tok c = (Inr (), c')" and "rq_cookie r ''_refresh_token'' = Some tok" and "tok \<noteq> ''''"
  shows "\<exists>w. IdentityServiceSignOut I r new_writer c = (w, c') \<and> resp_status w = 204
    \<and> resp_cookies w = [removed_cookie] \<and> resp_hdr w ''Content-Type'' = None"
  using assms by (auto simp: IdentityServiceSignOut_def deleteRefreshTokenCookie_def removed_cookie_def http_model)

section \<open>Properties\<close>


definition admin_request :: http_request where
  "admin_request = \<lparr>rq_method = ''POST'', rq_path = ''/'', rq_header = (\<lambda>_. ''''), rq_cookie = Map.empty, rq_body = ''body'', rq_token = None\<rparr>"


text \<open>An exchange over HTTP either answers 201 with the new refresh cookie and the new access token,
  or changes nothing in the database, hands out no token and removes the client's cookie, with 412 when
  the request carries neither cookie nor authorization header and 401 when the token is refused.\<close>

theorem http_exchange:
  "\<exists>w db' n'. TokenServiceExchangeToken I now r new_writer (db, n) = (w, db', n')
    \<and> ((\<exists>res :: user_tokens_result. resp_status w = 201 \<and> resp_cookies w = [RefreshToken res]
          \<and> resp_body w = [access_token_body (AccessToken res)])
      \<or> (\<exists>msg. db' = db \<and> resp_cookies w = [removed_cookie] \<and> resp_body w = [error_body msg]
          \<and> resp_status w = (if rq_cookie r ''_refresh_token'' = None \<and> rq_header r ''Authorization'' = ''''
              then 412 else 401)))"
proof (cases "GetRefreshTokenFromCookieOrAuthHeader r")
  case (Inl err)
  then show ?thesis
    by (auto simp: TokenServiceExchangeToken_def GetRefreshTokenFromCookieOrAuthHeader_def Let_def identity_http
        split: option.splits if_splits)
next
  case get: (Inr raw)
  then have some: "\<not> (rq_cookie r ''_refresh_token'' = None \<and> rq_header r ''Authorization'' = '''')"
    by (auto simp: GetRefreshTokenFromCookieOrAuthHeader_def)
  obtain res db' n' where ex: "UserExchangeAccessToken I now raw (db, n) = (res, db', n')" by (rule prod_cases3)
  show ?thesis
  proof (cases res)
    case (Inl err)
    then have "db' = db" using ex UserExchangeAccessToken_Inl by blast
    with Inl ex get some show ?thesis by (auto simp: TokenServiceExchangeToken_def identity_http)
  next
    case (Inr x)
    with ex get show ?thesis by (auto simp: TokenServiceExchangeToken_def identity_http)
  qed
qed

end
