(* ===== verification/Auth.thy ===== *)
theory Auth imports IdentityHandler begin

text \<open>
  Authentication in the services that are not the identity service: \<open>pkg/auth/asymmetric.go\<close> fetches
  the public keys of a token over gRPC and verifies the token against them, \<open>pkg/auth/websocket.go\<close>
  does so for the token a websocket client sends, \<open>pkg/auth/container.go\<close> reads the verified payload
  back, and \<open>pkg/auth/auth.go\<close> holds the authenticator that the identity service itself uses.
  A resolver of keys is a call on the state it needs (the identity service's connection).
\<close>

section \<open>pkg/auth/asymmetric.go\<close>

definition GetSecurityErrorPrefix :: string where
  "GetSecurityErrorPrefix = '': Security Error''"

definition NewSecurityError :: "goerr \<Rightarrow> goerr" where
  "NewSecurityError err = GoErr (err_text err @ '' '' @ GetSecurityErrorPrefix)"

text \<open>\<open>PublicKeyList\<close> is the generated gRPC client: the metadata is sent with the call.\<close>

definition GetKeys ::
  "'k jwx \<Rightarrow> (metadata \<Rightarrow> ('s, string) call) \<Rightarrow> string \<Rightarrow> ('s, 'k key_set) call" where
  "GetKeys j client token =
     try_call (client [''authorization'' \<mapsto> [token]])
       (errorf ''Unable get public keyset from identity service. Error: '')
       (\<lambda>rawKeyset. try_call (lift (jwk_ParseSet j rawKeyset)) (errorf ''Unable parse keyset. Error: '') return)"

type_synonym ('s, 'k) resolver = "string \<Rightarrow> ('s, 'k key_set) call"

definition quoted :: "string \<Rightarrow> string" where
  "quoted s = CHR 0x27 # s @ [CHR 0x27]"

definition scheme_error :: "string \<Rightarrow> goerr" where
  "scheme_error name = GoErr (''security scheme '' @ name @ '' != '' @ quoted ''BearerAuth'')"

definition authenticator ::
  "'k jwx \<Rightarrow> int \<Rightarrow> ('s, 'k) resolver \<Rightarrow> string \<Rightarrow> http_request \<Rightarrow> ('s, http_request) call" where
  "authenticator j now resolver schemeName request =
     (if schemeName \<noteq> ''BearerAuth'' then
        fail (scheme_error schemeName)
      else
        let rawToken = rq_header request ''Authorization'' in
        if rawToken = '''' then fail (GoErr ''empty bearer token'')
        else
          let plainToken = TrimTokenBearer rawToken in
          try_call (resolver plainToken) (errorf ''Not found keyset for token. Error: '')
            (\<lambda>keyset. try_call (lift (VerifyTokenByKeySet j keyset plainToken))
               (errorf ''Not verified token. Error: '')
               (\<lambda>verifiedPayload. case tokenutils_ValidateToken j now verifiedPayload of
                  Some err \<Rightarrow> fail (errorf ''Invalid token. Error: '' err)
                | None \<Rightarrow> return (request\<lparr>rq_token := Some verifiedPayload\<rparr>))))"

definition NewAsymmetricEncryptionAuthenticator ::
  "'k jwx \<Rightarrow> int \<Rightarrow> ('s, 'k) resolver \<Rightarrow> string \<Rightarrow> http_request \<Rightarrow> ('s, http_request) call" where
  "NewAsymmetricEncryptionAuthenticator j now resolver schemeName request =
     try_call (authenticator j now resolver schemeName request) NewSecurityError return"

section \<open>pkg/auth/websocket.go\<close>

text \<open>
  The error of \<open>GetKeys\<close> is overwritten: the verification runs with a nil key set.  What the library
  does with that is a parameter.
\<close>

definition RefreshTokenAuthenticator_Validate ::
  "'k jwx \<Rightarrow> (string \<Rightarrow> (goerr + string) outcome) \<Rightarrow> int \<Rightarrow> ('s, 'k) resolver \<Rightarrow> string \<Rightarrow> 's
    \<Rightarrow> (goerr + string) outcome \<times> 's" where
  "RefreshTokenAuthenticator_Validate j verify_nil now resolver plainToken s =
     (let (r, s1) = resolver plainToken s;
          verified = (case r of Inl _ \<Rightarrow> verify_nil plainToken
                              | Inr keyset \<Rightarrow> Ret (VerifyTokenByKeySet j keyset plainToken))
      in case verified of
           Panic m \<Rightarrow> (Panic m, s1)
         | Ret (Inl err) \<Rightarrow> (Ret (Inl (errorf ''Not verified token. Error: '' err)), s1)
         | Ret (Inr verifiedPayload) \<Rightarrow>
             (case tokenutils_ValidateToken j now verifiedPayload of
                Some err \<Rightarrow> (Ret (Inl (errorf ''Invalid token. Error: '' err)), s1)
              | None \<Rightarrow> (Ret (Inr verifiedPayload), s1)))"

section \<open>pkg/auth/container.go\<close>

record token_payload =
  tp_Aud :: "string list"
  tp_Exp :: int
  tp_Iss :: string
  tp_Sub :: string
  tp_TokenUse :: string
  tp_UserID :: uuid

text \<open>\<open>json.Unmarshal\<close> into the struct is the parameter \<open>unmarshal\<close>.\<close>

definition WithRawTokenPayload :: "(string \<Rightarrow> goerr + token_payload) \<Rightarrow> string \<Rightarrow> goerr + token_payload" where
  "WithRawTokenPayload unmarshal tokenPayload =
     (case unmarshal tokenPayload of
        Inl _ \<Rightarrow> Inl (GoErr ''unable deserialize token payload.'')
      | Inr payload \<Rightarrow> Inr payload)"

definition WithTokenPayload :: "(string \<Rightarrow> goerr + token_payload) \<Rightarrow> http_request \<Rightarrow> goerr + token_payload" where
  "WithTokenPayload unmarshal r =
     (case rq_token r of
        None \<Rightarrow> Inl (GoErr ''unable get token payload. Usere may not be logged in.'')
      | Some tokenPayload \<Rightarrow>
          (case unmarshal tokenPayload of
             Inl _ \<Rightarrow> Inl (GoErr ''unable deserialize token payload.'')
           | Inr payload \<Rightarrow> Inr payload))"

section \<open>pkg/auth/auth.go\<close>

definition ErrNoAuthHeader :: goerr where
  "ErrNoAuthHeader = Sentinel ''Authorization header is missing''"

definition ErrInvalidAuthHeader :: goerr where
  "ErrInvalidAuthHeader = Sentinel ''Authorization header is malformed''"

definition ErrClaimsInvalid :: goerr where
  "ErrClaimsInvalid = Sentinel ''Provided claims do not match expected scopes''"

definition GetJWSFromRequest :: "http_request \<Rightarrow> goerr + string" where
  "GetJWSFromRequest req =
     (let authHdr = rq_header req ''Authorization''; prefix = ''Bearer '' in
      if authHdr = '''' then Inl ErrNoAuthHeader
      else if \<not> has_prefix authHdr prefix then Inl ErrInvalidAuthHeader
      else Inr (trim_prefix authHdr prefix))"

definition PermissionsClaim :: string where
  "PermissionsClaim = ''perm''"

text \<open>A token is read through its claims, each a JSON value.\<close>

type_synonym jwt_token = "string \<Rightarrow> json option"

fun claim_strings :: "nat \<Rightarrow> json list \<Rightarrow> goerr + string list" where
  "claim_strings i [] = Inr []"
| "claim_strings i (JStr s # js) = map_sum (\<lambda>e. e) ((#) s) (claim_strings (i + 1) js)"
| "claim_strings i (_ # js) = Inl (GoErr (PermissionsClaim @ ''['' @ nat_str i @ ''] is not a string''))"

definition GetClaimsFromToken :: "jwt_token \<Rightarrow> goerr + string list" where
  "GetClaimsFromToken t =
     (case t PermissionsClaim of
        None \<Rightarrow> Inr []
      | Some (JArr rawList) \<Rightarrow> claim_strings 0 rawList
      | Some _ \<Rightarrow> Inl (GoErr (quoted PermissionsClaim @ '' claim is unexpected type'' @ [CHR 0x27])))"

definition CheckTokenClaims :: "string list \<Rightarrow> jwt_token \<Rightarrow> goerr option" where
  "CheckTokenClaims expectedClaims t =
     (case GetClaimsFromToken t of
        Inl err \<Rightarrow> Some (errorf ''getting claims from token: '' err)
      | Inr claims \<Rightarrow>
          (let claimsMap = fold (\<lambda>c m. m(c \<mapsto> True)) claims Map.empty in
           if list_all (\<lambda>e. claimsMap e = Some True) expectedClaims then None else Some ErrClaimsInvalid))"

text \<open>\<open>parse\<close> is \<open>jwt.Parse\<close> without options, which neither verifies nor validates.\<close>

definition FakeAuthenticator_ValidateJWS :: "(string \<Rightarrow> goerr + jwt_token) \<Rightarrow> string \<Rightarrow> goerr + jwt_token" where
  "FakeAuthenticator_ValidateJWS parse jwsString = parse jwsString"

definition Authenticate ::
  "(string \<Rightarrow> goerr + jwt_token) \<Rightarrow> string \<Rightarrow> string list \<Rightarrow> http_request \<Rightarrow> goerr option" where
  "Authenticate ValidateJWS schemeName scopes req =
     (if schemeName \<noteq> ''BearerAuth'' then
        Some (scheme_error schemeName)
      else case GetJWSFromRequest req of
             Inl err \<Rightarrow> Some (errorf ''getting jws: '' err)
           | Inr jws \<Rightarrow>
               (case ValidateJWS jws of
                  Inl err \<Rightarrow> Some (errorf ''validating JWS: '' err)
                | Inr token \<Rightarrow>
                    (case CheckTokenClaims scopes token of
                       Some err \<Rightarrow> Some (errorf (''token claims don'' @ CHR 0x27 # ''t match: '') err)
                     | None \<Rightarrow> None)))"

section \<open>Lemmas\<close>

text \<open>The key fetch as the identity service serves it: its interceptor, then its handler.\<close>

definition identity_client :: "'k identity \<Rightarrow> metadata \<Rightarrow> (conn, string) call" where
  "identity_client I md c =
     (case requireAuthMetaOnRequest (Some md) (''/'' @ ServiceName @ ''/PublicKeyList'') (PublicKeyList I (Some md)) c of
        (Ret r, c1) \<Rightarrow> (r, c1)
      | (Panic m, c1) \<Rightarrow> (Inl (StatusErr Unavailable m), c1))"

lemma has_prefix_self_append [simp]: "has_prefix (p @ s) p"
  by (simp add: has_prefix_def)

lemma identity_client_token:
  "identity_client I [''authorization'' \<mapsto> [tok]] c =
     (case GetPublciKeys I tok c of
        (Inl err, c1) \<Rightarrow> (Inl (StatusErr Internal (err_text err)), c1)
      | (Inr result, c1) \<Rightarrow> (Inr result, c1))"
proof -
  have "has_prefix (''/'' @ ServiceName @ ''/PublicKeyList'') (''/'' @ ServiceName)"
    using has_prefix_self_append [of "''/'' @ ServiceName" "''/PublicKeyList''"] by (simp only: append_assoc)
  then show ?thesis
    by (simp add: identity_client_def requireAuthMetaOnRequest_def PublicKeyList_def
        split: prod.split sum.split outcome.split)
qed

lemma claim_strings_JStr [simp]: "claim_strings i (map JStr cs) = Inr cs"
  by (induction cs arbitrary: i) auto

lemma claims_map: "fold (\<lambda>c m. m(c \<mapsto> True)) claims m e = Some True \<longleftrightarrow> e \<in> set claims \<or> m e = Some True"
  by (induction claims arbitrary: m) auto

lemma CheckTokenClaims_None:
  "CheckTokenClaims expected t = None \<longleftrightarrow> (\<exists>cs. GetClaimsFromToken t = Inr cs \<and> set expected \<subseteq> set cs)"
  by (auto simp: CheckTokenClaims_def claims_map list_all_iff Let_def split: sum.split)

end
