(* ===== verification/OpenapiMiddleware.thy ===== *)
theory OpenapiMiddleware imports Auth begin

text \<open>
  The request validation in front of every HTTP handler, \<open>pkg/middleware/openapi\<close>.  Finding the route
  and validating the request are the kin-openapi library's, so they are parameters; the library calls
  the authentication function it is given.  The messages of several validation errors are taken apart
  again with a regular expression, which is written out here as the search it stands for.
\<close>

section \<open>The regular expression for several errors\<close>

definition newline :: char where
  "newline = CHR 0x0A"

definition schema_mark :: string where
  "schema_mark = newline # ''Schema:'' @ [newline]"

definition value_mark :: string where
  "value_mark = newline # ''Value:'' @ [newline]"

text \<open>\<open>((?:.|\n)+?)\<close> and what follows it: the shortest non-empty prefix after which \<open>stop\<close> matches.\<close>

fun lazy1 :: "(string \<Rightarrow> 'a option) \<Rightarrow> string \<Rightarrow> (string \<times> 'a) option" where
  "lazy1 stop [] = None"
| "lazy1 stop (c # s) =
     (case stop s of
        Some x \<Rightarrow> Some ([c], x)
      | None \<Rightarrow> map_option (\<lambda>(m, x). (c # m, x)) (lazy1 stop s))"

text \<open>\<open>(?:\n.\| |$)\<close>; the result is what is left of the text.\<close>

fun stop_value :: "string \<Rightarrow> string option" where
  "stop_value [] = Some []"
| "stop_value (a # b # c # d # s) =
     (if a = newline \<and> b \<noteq> newline \<and> c = CHR ''|'' \<and> d = CHR '' '' then Some s else None)"
| "stop_value s = None"

definition match_value :: "string \<Rightarrow> (string \<times> string) option" where
  "match_value s = (if has_prefix s value_mark then lazy1 stop_value (drop (length value_mark) s) else None)"

text \<open>The first match at the start of the text: the groups 1, 2, 3 and the rest of the text.\<close>

definition match_error :: "string \<Rightarrow> (string \<times> string \<times> string \<times> string) option" where
  "match_error s =
     (let line = takeWhile (\<lambda>c. c \<noteq> newline) s; rest = dropWhile (\<lambda>c. c \<noteq> newline) s in
      if has_prefix rest schema_mark then
        map_option (\<lambda>(schema, v, r). (line, schema, v, r)) (lazy1 match_value (drop (length schema_mark) rest))
      else map_option (\<lambda>(v, r). (line, '''', v, r)) (match_value rest))"

lemma lazy1_split: "lazy1 stop s = Some (m, x) \<Longrightarrow> \<exists>t. s = m @ t \<and> m \<noteq> [] \<and> stop t = Some x"
proof (induction s arbitrary: m)
  case (Cons c s)
  show ?case
  proof (cases "stop s")
    case None
    with Cons.prems obtain m' where "lazy1 stop s = Some (m', x)" "m = c # m'" by auto
    with Cons.IH [of m'] show ?thesis by auto
  next
    case (Some y)
    with Cons.prems show ?thesis by auto
  qed
qed simp

lemma stop_value_split: "stop_value t = Some r \<Longrightarrow> \<exists>u. t = u @ r"
  by (induction t rule: stop_value.induct) (auto split: if_splits)

lemma has_prefix_split: "has_prefix s p \<Longrightarrow> s = p @ drop (length p) s"
  by (metis append_take_drop_id has_prefix_def)

lemma match_value_split:
  assumes "match_value s = Some (v, r)"
  shows "\<exists>u. s = u @ r \<and> u \<noteq> []"
proof -
  from assms have pre: "s = value_mark @ drop (length value_mark) s"
    and lazy: "lazy1 stop_value (drop (length value_mark) s) = Some (v, r)"
    by (auto simp: match_value_def has_prefix_split split: if_splits)
  from lazy1_split [OF lazy] stop_value_split obtain t u where "drop (length value_mark) s = v @ t" "t = u @ r" by metis
  with pre have "s = (value_mark @ v @ u) @ r" by simp
  then show ?thesis by (intro exI [of _ "value_mark @ v @ u"]) (simp add: value_mark_def)
qed

lemma match_error_split:
  assumes "match_error s = Some (m1, m2, m3, r)"
  shows "\<exists>u. s = u @ r \<and> u \<noteq> []"
proof -
  let ?line = "takeWhile (\<lambda>c. c \<noteq> newline) s" and ?rest = "dropWhile (\<lambda>c. c \<noteq> newline) s"
  have s: "s = ?line @ ?rest" by simp
  have "\<exists>u. ?rest = u @ r \<and> u \<noteq> []"
  proof (cases "has_prefix ?rest schema_mark")
    case True
    then have lazy: "lazy1 match_value (drop (length schema_mark) ?rest) = Some (m2, m3, r)"
      using assms by (auto simp: match_error_def Let_def)
    from lazy1_split [OF lazy] match_value_split obtain t u where
      "drop (length schema_mark) ?rest = m2 @ t" "t = u @ r" by metis
    with has_prefix_split [OF True] have "?rest = (schema_mark @ m2 @ u) @ r" by simp
    then show ?thesis by (metis append_is_Nil_conv list.distinct(1) schema_mark_def)
  next
    case False
    then show ?thesis using assms match_value_split by (auto simp: match_error_def Let_def)
  qed
  with s show ?thesis by (metis append_assoc append_is_Nil_conv)
qed

lemma replace_first_prefix: "p \<noteq> [] \<Longrightarrow> replace_first (p @ s) p new = new @ s"
  by (cases p) (auto simp: has_prefix_def)

lemma match_error_replace:
  assumes "match_error s = Some (m1, m2, m3, r)"
  shows "replace_first s (take (length s - length r) s) [] = r" "length r < length s"
proof -
  from match_error_split [OF assms] obtain u where u: "s = u @ r" "u \<noteq> []" by blast
  then show "length r < length s" by simp
  from u have "take (length s - length r) s = u" by simp
  with u show "replace_first s (take (length s - length r) s) [] = r" by (simp add: replace_first_prefix)
qed

section \<open>error.go\<close>

record openapi_error =
  oae_Message :: string
  oae_Value :: json
  oae_Schema :: json

definition openapi_error_of :: "(string \<Rightarrow> json option) \<Rightarrow> string \<Rightarrow> string \<Rightarrow> string \<Rightarrow> openapi_error" where
  "openapi_error_of unmarshal t1 t2 t3 =
     \<lparr>oae_Message = t1, oae_Value = (case unmarshal t3 of Some v \<Rightarrow> v | None \<Rightarrow> JNull),
      oae_Schema = (case unmarshal t2 of Some v \<Rightarrow> v | None \<Rightarrow> JStr t2)\<rparr>"

text \<open>
  The expression is anchored at the start of the text, so there is at most one match.  \<open>unmarshal\<close> is
  \<open>json.Unmarshal\<close> into an interface value, nil being \<open>JNull\<close>.
\<close>

function Parse :: "(string \<Rightarrow> json option) \<Rightarrow> string \<Rightarrow> openapi_error list \<Rightarrow> openapi_error list" where
  "Parse unmarshal message container =
     (case match_error message of
        None \<Rightarrow> container
      | Some (t1, t2, t3, rest) \<Rightarrow>
          (let t0 = take (length message - length rest) message in
           Parse unmarshal (replace_first message t0 []) (container @ [openapi_error_of unmarshal t1 t2 t3])))"
  by pat_completeness auto
termination
  by (relation "measure (\<lambda>(_, message, _). length message)") (auto simp: match_error_replace)

declare Parse.simps [simp del]

section \<open>middleware.go\<close>

datatype filter_error =
  MultiError string | SecurityRequirementsError string | RequestError string | OtherError string

fun filter_text :: "filter_error \<Rightarrow> string" where
  "filter_text (MultiError s) = s"
| "filter_text (SecurityRequirementsError s) = s"
| "filter_text (RequestError s) = s"
| "filter_text (OtherError s) = s"

definition openapi_error_json :: "openapi_error \<Rightarrow> json" where
  "openapi_error_json e = JObj [(''message'', JStr (oae_Message e)), (''value'', oae_Value e), (''schema'', oae_Schema e)]"

definition MultipleErrorResponse :: "openapi_error list \<Rightarrow> chunk" where
  "MultipleErrorResponse ms = Json (JObj [(''messages'', JArr (map openapi_error_json ms))])"

text \<open>
  \<open>find_route\<close> and \<open>validate\<close> are the library's; \<open>validate\<close> gets the authentication function of the
  options and returns the request as that function left it.
\<close>

type_synonym 's auth_func = "string \<Rightarrow> http_request \<Rightarrow> ('s, http_request) call"

record ('s, 'r) openapi_lib =
  find_route :: "http_request \<Rightarrow> goerr + 'r"
  validate :: "'s auth_func \<Rightarrow> 'r \<Rightarrow> http_request \<Rightarrow> 's \<Rightarrow> (filter_error + http_request) \<times> 's"
  json_Unmarshal :: "string \<Rightarrow> json option"

definition validateRequest ::
  "('s, 'r) openapi_lib \<Rightarrow> 's auth_func \<Rightarrow> http_request \<Rightarrow> 's \<Rightarrow> (http_request \<times> nat \<times> chunk option) \<times> 's" where
  "validateRequest lib auth req s =
     (case find_route lib req of
        Inl err \<Rightarrow> ((req, 404, Some (error_body (err_text err))), s)
      | Inr route \<Rightarrow>
          (case validate lib auth route req s of
             (Inr req1, s1) \<Rightarrow> ((req1, 0, None), s1)
           | (Inl err, s1) \<Rightarrow>
               (if has_suffix (filter_text err) GetSecurityErrorPrefix then
                  ((req, 401, Some (error_body (filter_text err))), s1)
                else
                  (case err of
                     MultiError e \<Rightarrow>
                       (let messages = Parse (json_Unmarshal lib) e [] in
                        if messages = [] then ((req, 400, Some (error_body e)), s1)
                        else ((req, 400, Some (MultipleErrorResponse messages)), s1))
                   | SecurityRequirementsError e \<Rightarrow> ((req, 401, Some (error_body e)), s1)
                   | RequestError e \<Rightarrow> ((req, 400, Some (error_body e)), s1)
                   | OtherError e \<Rightarrow> ((req, 500, Some (error_body e)), s1)))))"

definition emptyBearerToken :: "string \<Rightarrow> goerr option" where
  "emptyBearerToken header =
     (let prefix = ''Bearer '' in
      if header = '''' \<and> \<not> has_prefix header prefix then Some (GoErr ''empty bearer token'')
      else if trim_prefix header prefix = '''' then Some (GoErr ''bad token format'')
      else None)"

text \<open>A handler may panic, which ends the request without an answer.\<close>

type_synonym 's http_handler = "http_request \<Rightarrow> response_writer \<Rightarrow> 's \<Rightarrow> response_writer outcome \<times> 's"

definition NewOpenAPIRequestMiddleware ::
  "('s, 'r) openapi_lib \<Rightarrow> 's auth_func \<Rightarrow> 's http_handler \<Rightarrow> 's http_handler" where
  "NewOpenAPIRequestMiddleware lib auth next_handler r w s =
     (let ((nextReq, status, errorResponse), s1) = validateRequest lib auth r s in
      case errorResponse of
        Some body \<Rightarrow>
          (Ret (write_chunk body (write_header status (header_set ''Content-Type'' ''application/json'' w))), s1)
      | None \<Rightarrow> next_handler nextReq w s1)"

end
