(* ===== verification/AuthTheorems.thy ===== *)
theory AuthTheorems imports IdentityTheorems OpenapiMiddleware begin

text \<open>
  What authentication in the other services amounts to: the tokens they accept are those the identity
  service itself accepts, the request middleware lets a request through to a secured handler only with
  such a token, and the texts of several validation errors are taken apart as they were put together.
\<close>

section \<open>Fetching the keys of a token\<close>

lemma case_wrap_Inr: "(case r of Inl e \<Rightarrow> Inl (f e) | Inr x \<Rightarrow> Inr x) = Inr y \<longleftrightarrow> r = Inr y"
  by (cases r) auto

lemma GetPublciKeys_Inr:
  "GetPublciKeys I raw (db, n) = (Inr m, c) \<longleftrightarrow> TrimTokenBearer raw \<noteq> [] \<and> pg_fault (id_pg I) n = None \<and> c = (db, n + 1)
     \<and> (\<exists>kid row k. jws_Parse_kid (id_jwx I) (TrimTokenBearer raw) = Inr kid
          \<and> key_of_id db (fst (uuid_Parse (id_jwx I) kid)) = Some row
          \<and> JwkPrivateKey (id_jwx I) (k_jws_message row) = Inr k
          \<and> jwk_MarshalSet (id_jwx I) [(kid, jwk_PublicKeyOf (id_jwx I) k)] = Inr m)"
  by (auto simp: GetPublciKeys_def try_call_Inr getPrivateKey_Inr InsecureJwsMessage_def SerializeKeyset_def
      getKeySet_def Let_def case_prod_unfold case_wrap_Inr)

definition keys_of :: "'k identity \<Rightarrow> (conn, 'k) resolver" where
  "keys_of I = GetKeys (id_jwx I) (identity_client I)"

text \<open>A key id that is no UUID finds no key: the laws under which the fetched set is the right one.\<close>

definition fetch_laws :: "'k identity \<Rightarrow> idb \<Rightarrow> bool" where
  "fetch_laws I db \<longleftrightarrow> jwx_laws (id_jwx I) \<and> (\<forall>ks. \<exists>m. jwk_MarshalSet (id_jwx I) ks = Inr m)
     \<and> (\<forall>s u e. uuid_Parse (id_jwx I) s = (u, Some e) \<longrightarrow> key_of_id db u = None)"

lemma keys_of_Inr:
  assumes laws: "fetch_laws I db" and plain: "\<not> has_prefix tok ''Bearer ''"
  shows "keys_of I tok (db, n) = (Inr ks, c) \<longleftrightarrow> tok \<noteq> [] \<and> pg_fault (id_pg I) n = None \<and> c = (db, n + 1)
    \<and> (\<exists>kid u row k. jws_Parse_kid (id_jwx I) tok = Inr kid \<and> uuid_Parse (id_jwx I) kid = (u, None)
         \<and> key_of_id db u = Some row \<and> JwkPrivateKey (id_jwx I) (k_jws_message row) = Inr k
         \<and> ks = [(kid, jwk_PublicKeyOf (id_jwx I) k)])"
proof -
  have client: "identity_client I [''authorization'' \<mapsto> [tok]] (db, n) = (Inr m, c) \<longleftrightarrow> GetPublciKeys I tok (db, n) = (Inr m, c)" for m c
    by (auto simp: identity_client_token split: prod.splits sum.splits)
  have set: "ks = ks' \<longleftrightarrow> (\<exists>m. jwk_MarshalSet (id_jwx I) ks' = Inr m \<and> jwk_ParseSet (id_jwx I) m = Inr ks)" for ks'
  proof -
    obtain m where "jwk_MarshalSet (id_jwx I) ks' = Inr m" using laws unfolding fetch_laws_def by blast
    moreover from this have "jwk_ParseSet (id_jwx I) m = Inr ks'" using laws unfolding fetch_laws_def jwx_laws_def by blast
    ultimately show ?thesis by auto
  qed
  have uuid: "key_of_id db (fst (uuid_Parse (id_jwx I) kid)) = Some row \<longleftrightarrow>
      (\<exists>u. uuid_Parse (id_jwx I) kid = (u, None) \<and> key_of_id db u = Some row)" for kid row
  proof -
    have none: "key_of_id db u = None" if "uuid_Parse (id_jwx I) kid = (u, Some e)" for u e
      using laws that unfolding fetch_laws_def by blast
    obtain u e where "uuid_Parse (id_jwx I) kid = (u, e)" by (rule prod.exhaust)
    then show ?thesis using none by (cases e) auto
  qed
  have "keys_of I tok (db, n) = (Inr ks, c) \<longleftrightarrow> (\<exists>m. GetPublciKeys I tok (db, n) = (Inr m, c) \<and> jwk_ParseSet (id_jwx I) m = Inr ks)"
    by (cases c) (auto simp: keys_of_def GetKeys_def try_call_Inr client)
  then show ?thesis
    unfolding GetPublciKeys_Inr TrimTokenBearer_simps(2) [OF plain] uuid
    unfolding set by blast
qed

section \<open>The same tokens\<close>

lemma authenticator_Inr:
  "authenticator j now resolver ''BearerAuth'' request s = (Inr req', s') \<longleftrightarrow>
     (let raw = rq_header request ''Authorization''; plain = TrimTokenBearer raw in
      raw \<noteq> [] \<and> (\<exists>ks payload. resolver plain s = (Inr ks, s') \<and> jws_Verify j ks plain = Inr payload
        \<and> tokenutils_ValidateToken j now payload = None \<and> req' = request\<lparr>rq_token := Some payload\<rparr>))"
  by (auto simp: authenticator_def try_call_Inr VerifyTokenByKeySet_def Let_def case_invalid_Inr)

lemma TrimTokenBearer_Nil [simp]: "TrimTokenBearer [] = []"
  by (simp add: TrimTokenBearer_def trim_prefix_def has_prefix_def)

lemma authenticator_iff:
  assumes laws: "fetch_laws I db" and plain: "\<not> has_prefix (TrimTokenBearer raw) ''Bearer ''"
    and raw: "rq_header request ''Authorization'' = raw"
  shows "authenticator (id_jwx I) now (keys_of I) ''BearerAuth'' request (db, n) = (Inr req', c)
    \<longleftrightarrow> (\<exists>payload. ValidateToken I now raw (db, n) = (Inr payload, c) \<and> req' = request\<lparr>rq_token := Some payload\<rparr>)"
  unfolding authenticator_Inr Let_def raw keys_of_Inr [OF laws plain] ValidateToken_Inr token_kid_Some token_valid_Some
  by (cases c) auto

section \<open>Validation in front of a secured handler\<close>

text \<open>
  What kin-openapi documents for an operation with the security requirement \<open>BearerAuth\<close>, when it
  collects errors: the authentication function is called, its error is the first of the reported ones,
  and a request without other faults (\<open>ok\<close>) is passed on as that function left it.
\<close>

definition secures :: "('s, 'r) openapi_lib \<Rightarrow> 'r \<Rightarrow> (http_request \<Rightarrow> bool) \<Rightarrow> bool" where
  "secures lib route ok \<longleftrightarrow> (\<forall>auth r s.
     (case auth ''BearerAuth'' r s of
        (Inl e, s1) \<Rightarrow> \<exists>others. validate lib auth route r s =
            (Inl (MultiError (''security requirements failed: '' @ err_text e @ others)), s1) \<and> (ok r \<longrightarrow> others = [])
      | (Inr r1, s1) \<Rightarrow> if ok r then validate lib auth route r s = (Inr r1, s1)
          else \<exists>e. validate lib auth route r s = (Inl (MultiError e), s1)))"

lemma keys_of_db: "fst (snd (keys_of I tok c)) = fst c"
proof -
  have "fst (snd (GetPublciKeys I tok c)) = fst c"
    using getPrivateKey_db [of I _ c]
    by (auto simp: GetPublciKeys_def try_call_def Let_def split: prod.splits sum.splits if_splits) (metis fst_conv snd_conv)+
  then show ?thesis
    by (auto simp: keys_of_def GetKeys_def try_call_def identity_client_token split: prod.splits sum.splits)
qed

lemma authenticator_db: "fst (snd (authenticator j now (keys_of I) scheme r c)) = fst c"
  using keys_of_db [of I _ c]
  by (auto simp: authenticator_def try_call_def Let_def split: prod.splits sum.splits option.splits)
    (metis fst_conv snd_conv)+

lemma NewAsymmetric_cases:
  "NewAsymmetricEncryptionAuthenticator j now resolver scheme r s =
     (case authenticator j now resolver scheme r s of
        (Inl e, s1) \<Rightarrow> (Inl (NewSecurityError e), s1) | (Inr r1, s1) \<Rightarrow> (Inr r1, s1))"
  by (simp add: NewAsymmetricEncryptionAuthenticator_def try_call_def split: prod.split sum.split)

lemma has_suffix_append [simp]: "has_suffix (s @ p) p"
  by (simp add: has_suffix_def)

lemma NewSecurityError_suffix: "has_suffix (s @ err_text (NewSecurityError e)) GetSecurityErrorPrefix"
  using has_suffix_append [of "s @ err_text e @ '' ''" GetSecurityErrorPrefix]
  by (simp add: NewSecurityError_def)

text \<open>The middleware on an error the library reports.\<close>

lemma middleware_error:
  assumes "find_route lib r = Inr route" and "validate lib auth route r s = (Inl (MultiError e), s1)"
  shows "\<exists>w. (\<forall>next_handler. NewOpenAPIRequestMiddleware lib auth next_handler r new_writer s = (Ret w, s1))
    \<and> resp_status w = (if has_suffix e GetSecurityErrorPrefix then 401 else 400)"
  using assms
  by (simp add: NewOpenAPIRequestMiddleware_def validateRequest_def Let_def http_model)

lemma middleware_pass:
  assumes "find_route lib r = Inr route" and "validate lib auth route r s = (Inr r1, s1)"
  shows "NewOpenAPIRequestMiddleware lib auth next_handler r new_writer s = next_handler r1 new_writer s1"
  using assms by (simp add: NewOpenAPIRequestMiddleware_def validateRequest_def)

section \<open>Properties\<close>


text \<open>Behind the request middleware a secured handler runs exactly for the requests whose token the
  identity service validates, and with that token's payload; any other request is answered without
  running the handler or changing the identity database, with 401 unless it has further faults, which
  may turn the answer into 400.\<close>

theorem secured_handler_runs_only_with_valid_token:
  assumes laws: "fetch_laws I db" and plain: "\<not> has_prefix (TrimTokenBearer (rq_header r ''Authorization'')) ''Bearer ''"
    and route: "find_route lib r = Inr route" and sec: "secures lib route ok"
    and auth: "auth = NewAsymmetricEncryptionAuthenticator (id_jwx I) now (GetKeys (id_jwx I) (identity_client I))"
  shows "case ValidateToken I now (rq_header r ''Authorization'') (db, n) of
      (Inr payload, c) \<Rightarrow> if ok r
        then \<forall>next_handler. NewOpenAPIRequestMiddleware lib auth next_handler r new_writer (db, n)
          = next_handler (r\<lparr>rq_token := Some payload\<rparr>) new_writer c
        else \<exists>w. (\<forall>next_handler. NewOpenAPIRequestMiddleware lib auth next_handler r new_writer (db, n) = (Ret w, c))
          \<and> resp_status w \<in> {400, 401}
    | (Inl _, _) \<Rightarrow> \<exists>w n'. (\<forall>next_handler. NewOpenAPIRequestMiddleware lib auth next_handler r new_writer (db, n) = (Ret w, db, n'))
          \<and> resp_status w \<in> {400, 401} \<and> (ok r \<longrightarrow> resp_status w = 401)"
proof -
  note sec = sec [unfolded secures_def, rule_format, of auth r "(db, n)"]
  note iff = authenticator_iff [OF laws plain refl, where now = now and n = n]
  have auth': "auth ''BearerAuth'' r (db, n) = (case authenticator (id_jwx I) now (keys_of I) ''BearerAuth'' r (db, n) of
      (Inl e, s1) \<Rightarrow> (Inl (NewSecurityError e), s1) | (Inr r1, s1) \<Rightarrow> (Inr r1, s1))"
    unfolding auth NewAsymmetric_cases keys_of_def ..
  obtain v c where val: "ValidateToken I now (rq_header r ''Authorization'') (db, n) = (v, c)" by (rule prod.exhaust)
  obtain a ca where au: "authenticator (id_jwx I) now (keys_of I) ''BearerAuth'' r (db, n) = (a, ca)" by (rule prod.exhaust)
  show ?thesis
  proof (cases v)
    case (Inr payload)
    with val iff have "authenticator (id_jwx I) now (keys_of I) ''BearerAuth'' r (db, n)
        = (Inr (r\<lparr>rq_token := Some payload\<rparr>), c)" by simp
    with sec auth' have sec: "if ok r then validate lib auth route r (db, n) = (Inr (r\<lparr>rq_token := Some payload\<rparr>), c)
          else \<exists>e. validate lib auth route r (db, n) = (Inl (MultiError e), c)" by simp
    show ?thesis
    proof (cases "ok r")
      case True
      with sec middleware_pass [OF route] val Inr show ?thesis by simp
    next
      case False
      with sec obtain e where "validate lib auth route r (db, n) = (Inl (MultiError e), c)" by auto
      from middleware_error [OF route this] val Inr False show ?thesis by auto
    qed
  next
    case (Inl err)
    have "a \<noteq> Inr r1" for r1
    proof
      assume "a = Inr r1"
      with au have "authenticator (id_jwx I) now (keys_of I) ''BearerAuth'' r (db, n) = (Inr r1, ca)" by simp
      from iff [THEN iffD1, OF this] val Inl show False by auto
    qed
    then obtain e where a: "a = Inl e" by (cases a) auto
    have "fst ca = db" using authenticator_db [of "id_jwx I" now I "''BearerAuth''" r "(db, n)"] au by simp
    then obtain n' where ca: "ca = (db, n')" by (cases ca) auto
    from sec auth' au a ca obtain others where
      "validate lib auth route r (db, n) = (Inl (MultiError (''security requirements failed: '' @ err_text (NewSecurityError e) @ others)), db, n')"
      "ok r \<longrightarrow> others = []" by auto
    with middleware_error [OF route this(1)] NewSecurityError_suffix [of "''security requirements failed: ''" e] val Inl
    show ?thesis by (auto split: if_splits)
  qed
qed

section \<open>The example\<close>

lemma admin_fetch_laws [simp]: "fetch_laws toy_identity admin_db"
  by (auto simp: fetch_laws_def key_of_id_def admin_db_def)

definition bearer_request :: "string \<Rightarrow> http_request" where
  "bearer_request tok = \<lparr>rq_method = ''POST'', rq_path = ''/'', rq_header = (\<lambda>k. if k = ''Authorization'' then ''Bearer '' @ tok else []),
     rq_cookie = Map.empty, rq_body = [], rq_token = None\<rparr>"

lemma bearer_request_header [simp]: "rq_header (bearer_request tok) ''Authorization'' = ''Bearer '' @ tok"
  by (simp add: bearer_request_def)

lemma ValidateToken_bearer: "\<not> has_prefix tok ''Bearer '' \<Longrightarrow> ValidateToken I now (''Bearer '' @ tok) c = ValidateToken I now tok c"
  unfolding ValidateToken_def TrimTokenBearer_simps by simp

lemma toy_sign_plain [simp]: "\<not> has_prefix (toy_sign c k i) ''Bearer ''"
  by (simp add: toy_sign_def has_prefix_def)

lemma admin_bearer:
  "\<not> has_prefix (TrimTokenBearer (rq_header (bearer_request (toy_sign c k i)) ''Authorization'')) ''Bearer ''"
  unfolding bearer_request_header TrimTokenBearer_simps by simp

lemma ValidateToken_admin_bearer:
  "ValidateToken toy_identity 0 (rq_header (bearer_request (toy_sign admin_claims j ''k'')) ''Authorization'') (admin_db, m) =
     (if j = 7 then Inr (enc_claims admin_claims) else Inl (errorf ''Not verified token. Error: ''
        (GoErr ''could not verify message'')), admin_db, m + 1)"
  unfolding bearer_request_header ValidateToken_bearer [OF toy_sign_plain] ValidateToken_admin ..


definition toy_openapi :: "(conn, unit) openapi_lib" where
  "toy_openapi = \<lparr>find_route = \<lambda>_. Inr (),
     validate = \<lambda>auth _ r s. (case auth ''BearerAuth'' r s of
        (Inl e, s1) \<Rightarrow> (Inl (MultiError (''security requirements failed: '' @ err_text e)), s1) | (Inr r1, s1) \<Rightarrow> (Inr r1, s1)),
     json_Unmarshal = \<lambda>_. None\<rparr>"

lemma toy_openapi_secures: "find_route toy_openapi r = Inr ()" "secures toy_openapi () (\<lambda>_. True)"
  by (auto simp: secures_def toy_openapi_def split: prod.split sum.split)

theorem secured_handler_runs_only_with_valid_token_witness:
  "\<exists>w n'. NewOpenAPIRequestMiddleware toy_openapi
      (NewAsymmetricEncryptionAuthenticator toy_jwx 0 (GetKeys toy_jwx (identity_client toy_identity)))
      (\<lambda>r w s. (Ret (write_header 204 w), s)) (bearer_request (toy_sign admin_claims 8 ''k'')) new_writer (admin_db, 0)
    = (Ret w, admin_db, n') \<and> resp_status w = 401"
  using secured_handler_runs_only_with_valid_token [where r = "bearer_request (toy_sign admin_claims 8 ''k'')" and now = 0 and n = 0,
      OF admin_fetch_laws admin_bearer toy_openapi_secures refl]
  by (simp add: ValidateToken_admin_bearer del: bearer_request_header) blast

section \<open>The identity service's own routes\<close>

lemma map_sum_Inr: "map_sum f g r = Inr y \<longleftrightarrow> (\<exists>x. r = Inr x \<and> y = g x)"
  by (cases r) auto


section \<open>Several validation errors\<close>

text \<open>A text in which every line after the first is indented, as the library prints JSON.\<close>

fun indented :: "string \<Rightarrow> bool" where
  "indented [] = True"
| "indented (c # s) = ((c = newline \<longrightarrow> take 2 s = ''  '') \<and> indented s)"

definition openapi_text :: "string \<times> string \<times> string \<Rightarrow> string" where
  "openapi_text e = (case e of (m, sc, v) \<Rightarrow>
     m @ schema_mark @ (sc @ [newline]) @ value_mark @ v @ [newline])"

definition plain_error :: "string \<times> string \<times> string \<Rightarrow> bool" where
  "plain_error e = (case e of (m, sc, v) \<Rightarrow> newline \<notin> set m \<and> indented sc \<and> indented v \<and> v \<noteq> [])"

lemma lazy1_exact:
  assumes "m \<noteq> []" and "\<And>u t. m = u @ t \<Longrightarrow> u \<noteq> [] \<Longrightarrow> t \<noteq> [] \<Longrightarrow> stop (t @ rest) = None" and "stop rest = Some x"
  shows "lazy1 stop (m @ rest) = Some (m, x)"
  using assms
proof (induction m)
  case (Cons c m)
  show ?case
  proof (cases m)
    case Nil
    with Cons.prems show ?thesis by simp
  next
    case (Cons d m')
    have "stop (m @ rest) = None" using Cons.prems(2) [of "[c]" m] Cons by simp
    moreover have "lazy1 stop (m @ rest) = Some (m, x)"
    proof (rule Cons.IH)
      fix u t assume "m = u @ t" "u \<noteq> []" "t \<noteq> []"
      then show "stop (t @ rest) = None" using Cons.prems(2) [of "c # u" t] by simp
    qed (use Cons Cons.prems in auto)
    ultimately show ?thesis by simp
  qed
qed simp

lemma newline_marks [simp]: "schema_mark = newline # ''Schema:'' @ [newline]" "value_mark = newline # ''Value:'' @ [newline]"
  by (simp_all add: schema_mark_def value_mark_def)

lemma newline_distinct [simp]: "newline \<noteq> CHR '' ''" "CHR '' '' \<noteq> newline" "newline \<noteq> CHR ''V''" "newline \<noteq> CHR ''S''"
  by (simp_all add: newline_def)

lemma indented_suffix: "indented (u @ t) \<Longrightarrow> indented t"
  by (induction u) auto

text \<open>Inside an indented text, and at the newline that ends it, no mark and no separator begins.\<close>

lemma indented_newline:
  assumes "indented (newline # t)"
  obtains r where "t = CHR '' '' # CHR '' '' # r"
proof -
  from assms have "take 2 t = ''  ''" by simp
  then show ?thesis by (cases t; cases "tl t") (auto intro: that)
qed

lemma no_value_mark:
  assumes "indented t" and "t \<noteq> []"
  shows "match_value (t @ rest) = None"
proof (cases t)
  case (Cons c s)
  show ?thesis
  proof (cases "c = newline")
    case True
    with assms(1) Cons obtain r where "s = CHR '' '' # CHR '' '' # r" using indented_newline by blast
    with Cons True show ?thesis by (simp add: match_value_def has_prefix_def)
  next
    case False
    with Cons show ?thesis by (simp add: match_value_def has_prefix_def)
  qed
qed (use assms in simp)

lemma no_separator:
  assumes "indented t" and "t \<noteq> []"
  shows "stop_value (t @ newline # rest) = None"
proof (cases t)
  case (Cons c s)
  show ?thesis
  proof (cases "c = newline")
    case True
    with assms(1) Cons obtain r where "s = CHR '' '' # CHR '' '' # r" using indented_newline by blast
    with Cons True show ?thesis by (cases r) auto
  next
    case False
    with Cons have "\<exists>d e. t @ newline # rest = c # d # e" by (cases s) auto
    with False Cons show ?thesis by (cases "s @ newline # rest"; cases "tl (s @ newline # rest)"; cases "tl (tl (s @ newline # rest))") auto
  qed
qed (use assms in simp)

lemma split_snoc: "u @ t = m @ [c] \<Longrightarrow> t \<noteq> [] \<Longrightarrow> \<exists>t'. t = t' @ [c] \<and> m = u @ t'"
  by (induction t rule: rev_induct) auto

lemma match_value_exact:
  assumes "indented v" and "v \<noteq> []"
  shows "match_value (value_mark @ v @ [newline]) = Some (v @ [newline], [])"
    and "match_value (value_mark @ v @ newline # '' | '' @ rest) = Some (v, rest)"
proof -
  have "lazy1 stop_value (v @ newline # '' | '' @ rest) = Some (v, rest)"
  proof (rule lazy1_exact [OF assms(2)])
    show "stop_value (t @ newline # '' | '' @ rest) = None" if "v = u @ t" "t \<noteq> []" for u t
      using no_separator [OF _ that(2)] assms(1) that(1) indented_suffix by blast
  qed simp
  then show "match_value (value_mark @ v @ newline # '' | '' @ rest) = Some (v, rest)"
    by (simp add: match_value_def has_prefix_def)
  have "lazy1 stop_value ((v @ [newline]) @ []) = Some (v @ [newline], [])"
  proof (rule lazy1_exact)
    fix u t assume ut: "v @ [newline] = u @ t" "t \<noteq> []"
    then obtain t' where t': "t = t' @ [newline]" "v = u @ t'" using split_snoc [of u t v newline] by auto
    then show "stop_value (t @ []) = None"
      using no_separator [of t' "[]"] assms(1) indented_suffix [of u t'] by (cases "t' = []") auto
  qed simp_all
  then show "match_value (value_mark @ v @ [newline]) = Some (v @ [newline], [])"
    by (simp add: match_value_def has_prefix_def)
qed

lemma match_error_exact:
  assumes m: "newline \<notin> set m" and sc: "indented sc" and v: "match_value (value_mark @ v) = Some (v', r)"
  shows "match_error (m @ schema_mark @ (sc @ [newline]) @ value_mark @ v) = Some (m, sc @ [newline], v', r)"
proof -
  have line1: "takeWhile (\<lambda>c. c \<noteq> newline) (m @ newline # x) = m" for x using m by (induction m) auto
  have line2: "dropWhile (\<lambda>c. c \<noteq> newline) (m @ newline # x) = newline # x" for x using m by (induction m) auto
  have "lazy1 match_value ((sc @ [newline]) @ value_mark @ v) = Some (sc @ [newline], v', r)"
  proof (rule lazy1_exact)
    fix u t assume "sc @ [newline] = u @ t" "t \<noteq> []"
    then obtain t' where t': "t = t' @ [newline]" "sc = u @ t'" using split_snoc [of u t sc newline] by auto
    show "match_value (t @ value_mark @ v) = None"
    proof (cases "t' = []")
      case True
      with t'(1) show ?thesis by (simp add: match_value_def has_prefix_def)
    next
      case False
      with t' no_value_mark [of t' "[newline] @ value_mark @ v"] sc indented_suffix [of u t'] show ?thesis by simp
    qed
  qed (use v in simp_all)
  then show ?thesis by (simp add: match_error_def line1 line2 has_prefix_def)
qed

lemma Parse_step:
  assumes "match_error message = Some (t1, t2, t3, rest)"
  shows "Parse unmarshal message container = Parse unmarshal rest (container @ [openapi_error_of unmarshal t1 t2 t3])"
  by (subst Parse.simps) (simp add: assms match_error_replace [OF assms] Let_def)

lemma Parse_Nil: "Parse unmarshal [] container = container"
  by (subst Parse.simps) (simp add: match_error_def match_value_def has_prefix_def)

lemma Parse_texts:
  assumes "list_all plain_error errs" and "\<forall>s. unmarshal (s @ [newline]) = unmarshal s"
  shows "Parse unmarshal (join (map openapi_text errs) '' | '') container
    = container @ map (\<lambda>(m, sc, v). openapi_error_of unmarshal m (sc @ [newline]) v) errs"
  using assms(1)
proof (induction errs arbitrary: container rule: induct_list012)
  case 1
  then show ?case by (simp add: Parse_Nil)
next
  case (2 e)
  obtain m sc v where e: "e = (m, sc, v)" by (cases e) auto
  with 2 have ok: "newline \<notin> set m" "indented sc" "indented v" "v \<noteq> []" by (auto simp: plain_error_def)
  note match_error_exact [OF ok(1,2) match_value_exact(1) [OF ok(3,4)]]
  from Parse_step [OF this] show ?case
    by (simp add: e openapi_text_def Parse_Nil openapi_error_of_def assms(2) [rule_format] del: newline_marks)
next
  case (3 e e' errs)
  obtain m sc v where e: "e = (m, sc, v)" by (cases e) auto
  with 3(3) have ok: "newline \<notin> set m" "indented sc" "indented v" "v \<noteq> []" by (auto simp: plain_error_def)
  let ?rest = "join (map openapi_text (e' # errs)) '' | ''"
  note match_error_exact [OF ok(1,2) match_value_exact(2) [OF ok(3,4), of ?rest]]
  note step = Parse_step [OF this, of unmarshal container]
  have joined: "join (map openapi_text (e # e' # errs)) '' | ''
      = m @ schema_mark @ (sc @ [newline]) @ value_mark @ v @ newline # '' | '' @ ?rest"
    by (simp add: e openapi_text_def)
  have "list_all plain_error (e' # errs)" using 3(3) by simp
  from 3(2) [OF this] show ?case unfolding joined step by (simp add: e del: join.simps)
qed

text \<open>C17: the error handler takes the text the validation library makes of several errors, each a line, an
  indented schema and an indented value, apart again into exactly those errors in their order: none is
  lost, merged or repeated.\<close>

theorem Parse_recovers_errors:
  assumes "list_all plain_error errs" and "\<forall>s. unmarshal (s @ [newline]) = unmarshal s"
  shows "Parse unmarshal (join (map openapi_text errs) '' | '') []
    = map (\<lambda>(m, sc, v). \<lparr>oae_Message = m, oae_Value = (case unmarshal v of Some x \<Rightarrow> x | None \<Rightarrow> JNull),
        oae_Schema = (case unmarshal sc of Some x \<Rightarrow> x | None \<Rightarrow> JStr (sc @ [newline]))\<rparr>) errs"
  using Parse_texts [OF assms, where container = "[]"] by (simp add: openapi_error_of_def assms(2) [rule_format])

definition toy_errors :: "(string \<times> string \<times> string) list" where
  "toy_errors = [(''Error at /username'', ''  {}'', ''  5''), (''Error at /password'', ''  {'' @ newline # ''  }'', ''  null'')]"

theorem Parse_recovers_errors_witness:
  "map oae_Message (Parse (\<lambda>_. None) (join (map openapi_text toy_errors) '' | '') [])
    = [''Error at /username'', ''Error at /password'']"
  by (subst Parse_recovers_errors) (auto simp: toy_errors_def plain_error_def newline_def)

end
