(* ===== verification/StreamDb.thy ===== *)
theory StreamDb imports Postgres begin

text \<open>
  The stream service's database: the tables and constraints of \<open>services/stream/migrations\<close> and the
  statements of \<open>services/stream/internal/storage/postgress/repository\<close>.  A row of
  \<open>active_streams\<close> also has the time it was made, which nothing reads.  An insert of several rows
  numbers their ids; what the database does with an insert of no rows, and the orders that SQL leaves
  open in a grouped join, are parameters.
\<close>

section \<open>Tables\<close>

record active_stream =
  as_ID :: uuid
  as_Running :: bool
  as_Deployed :: bool
  as_BroadcasterID :: uuid
  as_Username :: string
  as_Namespace :: string
  as_Deployment :: string

record egress_row =
  eg_ID :: uuid
  eg_ActiveStreamID :: uuid
  eg_Type :: string

record sdb =
  active_streams :: "active_stream list"
  stream_egresses :: "egress_row list"

type_synonym sconn = "sdb \<times> nat"

record stream_pg = postgres +
  pg_row_uuid :: "nat \<Rightarrow> nat \<Rightarrow> uuid"
  pg_insert_none :: goerr
  pg_groups :: "nat \<Rightarrow> active_stream list \<Rightarrow> active_stream list"
  pg_agg :: "nat \<Rightarrow> egress_row list \<Rightarrow> egress_row list"

definition egress_enum :: "string list" where
  "egress_enum = [''STREAM_TYPE_HLS'', ''STREAM_TYPE_WEBRTC'']"

definition invalid_enum :: "string \<Rightarrow> goerr" where
  "invalid_enum t = GoErr (''pq: invalid input value for enum egress: '' @ t)"

section \<open>active_stream.go\<close>

definition insert_stream_stmt ::
  "stream_pg \<Rightarrow> uuid \<Rightarrow> string \<Rightarrow> string \<Rightarrow> string \<Rightarrow> nat \<Rightarrow> sdb \<Rightarrow> goerr + active_stream \<times> sdb" where
  "insert_stream_stmt pg broadcasterID username namespace deployment n db =
     (let row = \<lparr>as_ID = pg_uuid pg n, as_Running = False, as_Deployed = False, as_BroadcasterID = broadcasterID,
            as_Username = username, as_Namespace = namespace, as_Deployment = deployment\<rparr> in
      if length username > 30 \<or> length namespace > 50 \<or> length deployment > 50 then Inl too_long
      else if as_ID row \<in> as_ID ` set (active_streams db)
         \<or> broadcasterID \<in> as_BroadcasterID ` set (active_streams db)
         \<or> username \<in> as_Username ` set (active_streams db)
         \<or> deployment \<in> as_Deployment ` set (active_streams db) then Inl unique_violation
      else Inr (row, db\<lparr>active_streams := active_streams db @ [row]\<rparr>))"

definition InsertActiveStream ::
  "stream_pg \<Rightarrow> uuid \<Rightarrow> string \<Rightarrow> string \<Rightarrow> string \<Rightarrow> (sconn, active_stream) call" where
  "InsertActiveStream pg broadcasterID username namespace deployment =
     exec_stmt pg (insert_stream_stmt pg broadcasterID username namespace deployment)"

text \<open>Deleting a stream deletes its egresses.\<close>

definition delete_stream_stmt :: "uuid \<Rightarrow> nat \<Rightarrow> sdb \<Rightarrow> goerr + unit \<times> sdb" where
  "delete_stream_stmt broadcasterID n db =
     (let gone = as_ID ` set (filter (\<lambda>s. as_BroadcasterID s = broadcasterID) (active_streams db)) in
      Inr ((), db\<lparr>active_streams := filter (\<lambda>s. as_BroadcasterID s \<noteq> broadcasterID) (active_streams db),
         stream_egresses := filter (\<lambda>e. eg_ActiveStreamID e \<notin> gone) (stream_egresses db)\<rparr>))"

definition DeleteActiveStreamByBroadcasterId :: "stream_pg \<Rightarrow> uuid \<Rightarrow> (sconn, unit) call" where
  "DeleteActiveStreamByBroadcasterId pg broadcasterID = exec_stmt pg (delete_stream_stmt broadcasterID)"

text \<open>The caller passes its transaction, or nil for the connection itself.\<close>

definition update_deployed_stmt :: "uuid \<Rightarrow> bool \<Rightarrow> nat \<Rightarrow> sdb \<Rightarrow> goerr + active_stream \<times> sdb" where
  "update_deployed_stmt broadcasterID deployed n db =
     (let streams = map (\<lambda>s. if as_BroadcasterID s = broadcasterID then s\<lparr>as_Deployed := deployed\<rparr> else s)
            (active_streams db)
      in case find (\<lambda>s. as_BroadcasterID s = broadcasterID) streams of
           None \<Rightarrow> Inl ErrNoRows
         | Some s \<Rightarrow> Inr (s, db\<lparr>active_streams := streams\<rparr>))"

definition UpdateDeployedStatusByBroadcasterId ::
  "stream_pg \<Rightarrow> uuid \<Rightarrow> bool \<Rightarrow> (sconn, active_stream) call" where
  "UpdateDeployedStatusByBroadcasterId pg broadcasterID deployed =
     exec_stmt pg (update_deployed_stmt broadcasterID deployed)"

definition GetActiveStreamByBroadcasterId :: "stream_pg \<Rightarrow> uuid \<Rightarrow> (sconn, active_stream) call" where
  "GetActiveStreamByBroadcasterId pg broadcasterID = exec_stmt pg (\<lambda>n db.
     case find (\<lambda>s. as_BroadcasterID s = broadcasterID) (active_streams db) of
       None \<Rightarrow> Inl ErrNoRows
     | Some s \<Rightarrow> Inr (s, db))"

record running_stream =
  rs_ID :: uuid
  rs_Username :: string
  rs_Egresses :: "(uuid \<times> string) list"

text \<open>One group of the inner join; a stream without egresses has none.\<close>

definition running_stream_of :: "stream_pg \<Rightarrow> nat \<Rightarrow> sdb \<Rightarrow> active_stream \<Rightarrow> running_stream" where
  "running_stream_of pg n db s = \<lparr>rs_ID = as_ID s, rs_Username = as_Username s,
     rs_Egresses = map (\<lambda>e. (eg_ID e, eg_Type e))
       (pg_agg pg n (filter (\<lambda>e. eg_ActiveStreamID e = as_ID s) (stream_egresses db)))\<rparr>"

definition has_egress :: "sdb \<Rightarrow> active_stream \<Rightarrow> bool" where
  "has_egress db s \<longleftrightarrow> as_ID s \<in> eg_ActiveStreamID ` set (stream_egresses db)"

definition GetAllRunningActiveStreams :: "stream_pg \<Rightarrow> (sconn, running_stream list) call" where
  "GetAllRunningActiveStreams pg = exec_stmt pg (\<lambda>n db.
     Inr (map (running_stream_of pg n db) (pg_groups pg n (filter (has_egress db) (active_streams db))), db))"

definition GetActiveStreamByUsername :: "stream_pg \<Rightarrow> string \<Rightarrow> (sconn, running_stream) call" where
  "GetActiveStreamByUsername pg username = exec_stmt pg (\<lambda>n db.
     case filter (\<lambda>s. has_egress db s \<and> as_Username s = username) (active_streams db) of
       [] \<Rightarrow> Inl ErrNoRows
     | s # _ \<Rightarrow> Inr (running_stream_of pg n db s, db))"

section \<open>stream_egress.go\<close>

definition egress_rows :: "stream_pg \<Rightarrow> nat \<Rightarrow> (string \<times> uuid) list \<Rightarrow> egress_row list" where
  "egress_rows pg n egresses = map (\<lambda>(i, t, sid). \<lparr>eg_ID = pg_row_uuid pg n i, eg_ActiveStreamID = sid, eg_Type = t\<rparr>)
     (enumerate 0 egresses)"

definition insert_egresses_stmt ::
  "stream_pg \<Rightarrow> (string \<times> uuid) list \<Rightarrow> nat \<Rightarrow> sdb \<Rightarrow> goerr + egress_row list \<times> sdb" where
  "insert_egresses_stmt pg egresses n db =
     (let rows = egress_rows pg n egresses in
      if egresses = [] then Inl (pg_insert_none pg)
      else case find (\<lambda>(t, _). t \<notin> set egress_enum) egresses of
             Some (t, _) \<Rightarrow> Inl (invalid_enum t)
           | None \<Rightarrow>
               (if \<not> distinct (map eg_ID (stream_egresses db @ rows)) then Inl unique_violation
                else if \<not> eg_ActiveStreamID ` set rows \<subseteq> as_ID ` set (active_streams db) then Inl fk_violation
                else Inr (rows, db\<lparr>stream_egresses := stream_egresses db @ rows\<rparr>)))"

definition InsertManyActiveStreamEgresses ::
  "stream_pg \<Rightarrow> (string \<times> uuid) list \<Rightarrow> (sconn, egress_row list) call" where
  "InsertManyActiveStreamEgresses pg egresses = exec_stmt pg (insert_egresses_stmt pg egresses)"

section \<open>The constraints of the schema\<close>

definition sdb_inv :: "sdb \<Rightarrow> bool" where
  "sdb_inv db \<longleftrightarrow> distinct (map as_ID (active_streams db)) \<and> distinct (map as_BroadcasterID (active_streams db))
     \<and> distinct (map as_Username (active_streams db)) \<and> distinct (map as_Deployment (active_streams db))
     \<and> list_all (\<lambda>s. length (as_Username s) \<le> 30 \<and> length (as_Namespace s) \<le> 50 \<and> length (as_Deployment s) \<le> 50)
         (active_streams db)
     \<and> distinct (map eg_ID (stream_egresses db))
     \<and> list_all (\<lambda>e. eg_Type e \<in> set egress_enum \<and> eg_ActiveStreamID e \<in> as_ID ` set (active_streams db))
         (stream_egresses db)"

lemma empty_sdb_inv: "sdb_inv \<lparr>active_streams = [], stream_egresses = []\<rparr>"
  by (simp add: sdb_inv_def)

lemma insert_stream_inv:
  assumes "sdb_inv db" and "insert_stream_stmt pg b u ns d n db = Inr (s, db')"
  shows "sdb_inv db'"
  using assms by (auto simp: insert_stream_stmt_def sdb_inv_def Let_def list_all_iff split: if_splits)

lemma delete_stream_inv:
  assumes inv: "sdb_inv db" and del: "delete_stream_stmt b n db = Inr (x, db')"
  shows "sdb_inv db'"
proof -
  let ?keep = "filter (\<lambda>s. as_BroadcasterID s \<noteq> b) (active_streams db)"
  have db': "active_streams db' = ?keep" "stream_egresses db' = filter (\<lambda>e. eg_ActiveStreamID e \<notin>
      as_ID ` set (filter (\<lambda>s. as_BroadcasterID s = b) (active_streams db))) (stream_egresses db)"
    using del by (auto simp: delete_stream_stmt_def Let_def)
  have "distinct (map f ?keep)" if "distinct (map f (active_streams db))" for f :: "active_stream \<Rightarrow> string"
    using that by (induction "active_streams db") (auto simp: distinct_map inj_on_def)
  moreover have "distinct (map eg_ID (stream_egresses db'))"
    using inv unfolding db' sdb_inv_def by (auto simp: distinct_map inj_on_def)
  moreover have "eg_ActiveStreamID e \<in> as_ID ` set ?keep" if "e \<in> set (stream_egresses db')" for e
  proof -
    from that inv obtain s where "s \<in> set (active_streams db)" "as_ID s = eg_ActiveStreamID e"
      unfolding sdb_inv_def db' by (auto simp: list_all_iff)
    with that have "as_BroadcasterID s \<noteq> b" unfolding db' by (force simp: image_iff)
    with \<open>s \<in> set (active_streams db)\<close> \<open>as_ID s = eg_ActiveStreamID e\<close> show ?thesis by (force simp: image_iff)
  qed
  ultimately show ?thesis using inv unfolding sdb_inv_def db' by (auto simp: list_all_iff)
qed

lemma update_deployed_inv:
  assumes "sdb_inv db" and "update_deployed_stmt b d n db = Inr (s, db')"
  shows "sdb_inv db'"
proof -
  let ?f = "\<lambda>s. if as_BroadcasterID s = b then s\<lparr>as_Deployed := d\<rparr> else s"
  have db': "active_streams db' = map ?f (active_streams db)" "stream_egresses db' = stream_egresses db"
    using assms(2) by (auto simp: update_deployed_stmt_def Let_def split: option.splits)
  have "map as_ID (map ?f xs) = map as_ID xs" "map as_BroadcasterID (map ?f xs) = map as_BroadcasterID xs"
    "map as_Username (map ?f xs) = map as_Username xs" "map as_Deployment (map ?f xs) = map as_Deployment xs"
    "map as_Namespace (map ?f xs) = map as_Namespace xs" for xs by simp_all
  note maps = this
  have ids: "as_ID ` set (map ?f xs) = as_ID ` set xs" for xs
    using maps(1) [of xs] by (simp only: set_map [symmetric])
  show ?thesis using assms(1) unfolding sdb_inv_def db' maps ids by (auto simp: list_all_iff)
qed

lemma insert_egresses_inv:
  assumes "sdb_inv db" and "insert_egresses_stmt pg es n db = Inr (rows, db')"
  shows "sdb_inv db'"
proof -
  have ok: "list_all (\<lambda>(t, _). t \<in> set egress_enum) es" "distinct (map eg_ID (stream_egresses db @ egress_rows pg n es))"
    "eg_ActiveStreamID ` set (egress_rows pg n es) \<subseteq> as_ID ` set (active_streams db)"
    "db' = db\<lparr>stream_egresses := stream_egresses db @ egress_rows pg n es\<rparr>"
    using assms(2) by (auto simp: insert_egresses_stmt_def Let_def list_all_iff find_None_iff'
        split: if_splits option.splits)
  have "list_all (\<lambda>e. eg_Type e \<in> set egress_enum) (egress_rows pg n es)"
    using ok(1) by (auto simp: egress_rows_def list_all_iff in_set_enumerate_eq) (metis nth_mem case_prodD)
  with ok assms(1) show ?thesis unfolding sdb_inv_def by (auto simp: list_all_iff)
qed

end
