(* ===== verification/StreamService.thy ===== *)
theory StreamService imports StreamDb Auth OperatorService begin

text \<open>
  The stream service proper: \<open>internal/streamsvc\<close> starts and stops the ingest of a broadcaster and
  keeps its record, \<open>internal/ingestcontroller\<close> is the stand-in for the operator when it is absent,
  \<open>internal/streamchannelssvc\<close> lists the streams and where to watch them.  The operator is a
  \<open>controller\<close>; the state is the database connection and the controller's world.
\<close>

section \<open>The ingest controller\<close>

record 'w controller =
  ctl_StartServer :: "start_request \<Rightarrow> 'w \<Rightarrow> (goerr + string \<times> string) \<times> 'w"
  ctl_StopServer :: "start_request \<Rightarrow> 'w \<Rightarrow> (goerr + unit) \<times> 'w"

text \<open>
  A stop request carries the deployment, the namespace and the meta; its template is empty.  A started
  server answers with its deployment and its namespace.
\<close>

record stream_env =
  se_pg :: stream_pg
  se_config :: stream_system_config

section \<open>streamsvc/streamservice.go\<close>

definition NotFoundActiveStream :: goerr where
  "NotFoundActiveStream = Sentinel ''Not found active stream record.''"

definition UnableInsertStream :: goerr where
  "UnableInsertStream = Sentinel ''Unable insert stream.''"

definition UnableStopStream :: goerr where
  "UnableStopStream = Sentinel ''Unable stop stream.''"

definition UnableDeleteStream :: goerr where
  "UnableDeleteStream = Sentinel ''Unable delete stream.''"

definition StreamAlredyExists :: goerr where
  "StreamAlredyExists = Sentinel ''Stream already exists.''"

definition token_meta :: "token_payload \<Rightarrow> ingest_meta" where
  "token_meta token = \<lparr>im_BroadcasterId = tp_UserID token, im_Username = tp_Sub token\<rparr>"

definition stop_request :: "token_payload \<Rightarrow> string \<Rightarrow> string \<Rightarrow> start_request" where
  "stop_request token ns dep = \<lparr>req_IngestTemplate = [], req_Deployment = dep, req_Namespace = ns,
     req_Meta = Some (token_meta token)\<rparr>"

definition StopIngestServer ::
  "stream_env \<Rightarrow> 'w controller \<Rightarrow> token_payload \<Rightarrow> sconn \<times> 'w \<Rightarrow> goerr option \<times> sconn \<times> 'w" where
  "StopIngestServer E ctl token s =
     (let (c, w) = s in
      case GetActiveStreamByBroadcasterId (se_pg E) (tp_UserID token) c of
        (Inl err, c1) \<Rightarrow> (Some NotFoundActiveStream, c1, w)
      | (Inr stream, c1) \<Rightarrow>
          (case DeleteActiveStreamByBroadcasterId (se_pg E) (as_BroadcasterID stream) c1 of
             (Inl err, c2) \<Rightarrow> (Some UnableDeleteStream, c2, w)
           | (Inr _, c2) \<Rightarrow>
               (case ctl_StopServer ctl (stop_request token (as_Namespace stream) (as_Deployment stream)) w of
                  (Inl err, w1) \<Rightarrow> (Some UnableStopStream, c2, w1)
                | (Inr _, w1) \<Rightarrow> (None, c2, w1))))"

definition StartIngestServer ::
  "stream_env \<Rightarrow> 'w controller \<Rightarrow> token_payload \<Rightarrow> sconn \<times> 'w \<Rightarrow> goerr option \<times> sconn \<times> 'w" where
  "StartIngestServer E ctl token s =
     (let (c, w) = s; config = IngestStandalone (se_config E) in
      case ctl_StartServer ctl \<lparr>req_IngestTemplate = isa_IngestTemplate config, req_Deployment = tp_Sub token,
          req_Namespace = isa_Namespace config, req_Meta = Some (token_meta token)\<rparr> w of
        (Inl err, w1) \<Rightarrow> (Some err, snd (StopIngestServer E ctl token (c, w1)))
      | (Inr (dep, ns), w1) \<Rightarrow>
          (case InsertActiveStream (se_pg E) (tp_UserID token) (tp_Sub token) ns dep c of
             (Inr _, c1) \<Rightarrow> (None, c1, w1)
           | (Inl err, c1) \<Rightarrow>
               (if contains (err_text err) ''duplicate key value violates unique constraint'' then
                  (Some StreamAlredyExists, c1, w1)
                else (Some UnableInsertStream, c1, snd (ctl_StopServer ctl (stop_request token ns dep) w1)))))"

section \<open>streamsvc/stream\_status.go\<close>

record stream_status =
  ss_Running :: bool
  ss_Deployed :: bool

definition IsRunning :: "stream_env \<Rightarrow> token_payload \<Rightarrow> sconn \<Rightarrow> stream_status \<times> sconn" where
  "IsRunning E token c =
     (case GetActiveStreamByBroadcasterId (se_pg E) (tp_UserID token) c of
        (Inl err, c1) \<Rightarrow> (\<lparr>ss_Running = False, ss_Deployed = False\<rparr>, c1)
      | (Inr s, c1) \<Rightarrow> (\<lparr>ss_Running = as_Running s, ss_Deployed = as_Deployed s\<rparr>, c1))"

section \<open>ingestcontroller/ingestcontroller.go\<close>

text \<open>Both calls dereference the meta of the request; the stream service always sends one.\<close>

definition Stub_StartServer ::
  "'w bus \<Rightarrow> stream_system_config \<Rightarrow> start_request \<Rightarrow> 'w \<Rightarrow> (goerr + string \<times> string) outcome \<times> 'w" where
  "Stub_StartServer b config req w =
     (case req_Meta req of
        None \<Rightarrow> (nil_deref, w)
      | Some m \<Rightarrow>
          (let (_, w1) = PublishProtobuf b (NewIngestDeployed (im_BroadcasterId m))
             (MDeployed \<lparr>Deployed = True,
                Deployed_Meta = Some \<lparr>BroadcasterId = im_BroadcasterId m, Username = im_Username m\<rparr>,
                Egresses = [STREAM_TYPE_WEBRTC, STREAM_TYPE_HLS]\<rparr>) w
           in (Ret (Inr (im_Username m, isa_Namespace (IngestStandalone config))), w1)))"

definition Stub_StopServer :: "'w bus \<Rightarrow> start_request \<Rightarrow> 'w \<Rightarrow> (goerr + unit) outcome \<times> 'w" where
  "Stub_StopServer b req w =
     (case req_Meta req of
        None \<Rightarrow> (nil_deref, w)
      | Some m \<Rightarrow>
          (let (_, w1) = JsPublishProtobufWithID b (NewIngestDestroyed (im_BroadcasterId m)) (im_BroadcasterId m)
             (MDestroyed \<lparr>Destroyed = True,
                Destroyed_Meta = Some \<lparr>BroadcasterId = im_BroadcasterId m, Username = im_Username m\<rparr>\<rparr>) w
           in (Ret (Inr ()), w1)))"

section \<open>streamchannelssvc/streamchannelssvc.go\<close>

definition UnableGetActiveStreamsListError :: goerr where
  "UnableGetActiveStreamsListError = Sentinel ''Unable get active streams.''"

definition UnableGetActiveStreamError :: goerr where
  "UnableGetActiveStreamError = Sentinel ''Unable get active stream.''"

definition NotFoundGetActiveStreamError :: goerr where
  "NotFoundGetActiveStreamError = Sentinel ''Not found active stream.''"

definition StandaloneOnlyOperationError :: goerr where
  "StandaloneOnlyOperationError = Sentinel ''Operation support only in standalone mode''"

definition GetActiveStreamsList :: "stream_env \<Rightarrow> (sconn, running_stream list) call" where
  "GetActiveStreamsList E =
     try_call (GetAllRunningActiveStreams (se_pg E)) (\<lambda>_. UnableGetActiveStreamsListError) return"

text \<open>
  \<open>StreamEgressType_value\<close> is a Go map: a name it does not have gives 0, the unspecified type, whose
  route stays empty.
\<close>

definition StreamEgressType_value :: "string \<Rightarrow> int" where
  "StreamEgressType_value t =
     (if t = ''STREAM_TYPE_HLS'' then STREAM_TYPE_HLS
      else if t = ''STREAM_TYPE_WEBRTC'' then STREAM_TYPE_WEBRTC else STREAM_TYPE_UNSPECIFIED)"

record egress_with_route =
  er_ID :: uuid
  er_Type :: string
  er_Route :: string

definition egress_route :: "stream_system_config \<Rightarrow> uuid \<times> string \<Rightarrow> egress_with_route" where
  "egress_route config e =
     (let config' = IngestStandalone config; t = StreamEgressType_value (snd e) in
      \<lparr>er_ID = fst e, er_Type = snd e,
       er_Route = (if t = STREAM_TYPE_HLS then IngestUri config' @ IngestHLSRoute config'
                   else if t = STREAM_TYPE_WEBRTC then IngestUri config' @ IngestWebrtcRoute config' else [])\<rparr>)"

definition getEgressesRoutes :: "stream_system_config \<Rightarrow> running_stream \<Rightarrow> goerr + egress_with_route list" where
  "getEgressesRoutes config channel =
     (if Standalone config then Inr (map (egress_route config) (rs_Egresses channel))
      else Inl StandaloneOnlyOperationError)"

record stream_with_routes =
  sr_ID :: uuid
  sr_User :: string
  sr_Egresses :: "egress_with_route list"

definition GetActiveStream :: "stream_env \<Rightarrow> string \<Rightarrow> (sconn, stream_with_routes) call" where
  "GetActiveStream E username =
     try_call (GetActiveStreamByUsername (se_pg E) username)
       (\<lambda>err. if has_prefix (err_text err) ''qrm: no rows in result set'' then NotFoundGetActiveStreamError
              else UnableGetActiveStreamError)
       (\<lambda>channel. try_call (lift (getEgressesRoutes (se_config E) channel)) (\<lambda>err. err)
          (\<lambda>egresses. return \<lparr>sr_ID = rs_ID channel, sr_User = rs_Username channel, sr_Egresses = egresses\<rparr>))"

end
