(* ===== verification/StreamLifecycle.thy ===== *)
theory StreamLifecycle imports StreamService begin

text \<open>
  The stream service on top of an ingest controller: the contract of a controller as a locale, the
  invariant that the recorded streams are the running ingests, proved once from the contract, and the
  operator as an interpretation of it.
\<close>

section \<open>Histories\<close>

text \<open>Starts and stops, one after another, each on behalf of the holder of a token.\<close>

datatype stream_op = StreamStart (op_token: token_payload) | StreamStop (op_token: token_payload)

fun stream_step ::
  "stream_env \<Rightarrow> 'w controller \<Rightarrow> stream_op \<Rightarrow> sconn \<times> 'w \<Rightarrow> goerr option \<times> sconn \<times> 'w" where
  "stream_step E ctl (StreamStart token) s = StartIngestServer E ctl token s"
| "stream_step E ctl (StreamStop token) s = StopIngestServer E ctl token s"

definition stream_run :: "stream_env \<Rightarrow> 'w controller \<Rightarrow> stream_op list \<Rightarrow> sconn \<times> 'w \<Rightarrow> sconn \<times> 'w" where
  "stream_run E ctl ops s = fold (\<lambda>oper s. snd (stream_step E ctl oper s)) ops s"

text \<open>The broadcaster has a stream.\<close>

definition recorded :: "uuid \<Rightarrow> sdb \<Rightarrow> bool" where
  "recorded i db \<longleftrightarrow> i \<in> as_BroadcasterID ` set (active_streams db)"

text \<open>
  What the records look like: the constraints of the schema, ids that the database made, and the names
  that the service gives the streams of the broadcasters \<open>U\<close>.
\<close>

definition stream_rows :: "stream_env \<Rightarrow> uuid set \<Rightarrow> (uuid \<Rightarrow> string) \<Rightarrow> sconn \<Rightarrow> bool" where
  "stream_rows E U name c \<longleftrightarrow> sdb_inv (fst c)
   \<and> (\<forall>x\<in>set (active_streams (fst c)). (\<exists>m < snd c. as_ID x = pg_uuid (se_pg E) m)
        \<and> as_BroadcasterID x \<in> U \<and> as_Username x = name (as_BroadcasterID x) \<and> as_Deployment x = as_Username x
        \<and> as_Namespace x = isa_Namespace (IngestStandalone (se_config E)))"

lemma stream_rowsD:
  assumes "stream_rows E U name (db, n)"
  shows "sdb_inv db"
    and "x \<in> set (active_streams db) \<Longrightarrow> (\<exists>m<n. as_ID x = pg_uuid (se_pg E) m)
      \<and> as_BroadcasterID x \<in> U \<and> as_Username x = name (as_BroadcasterID x) \<and> as_Deployment x = as_Username x
      \<and> as_Namespace x = isa_Namespace (IngestStandalone (se_config E))"
  using assms by (auto simp: stream_rows_def)

lemma stream_rows_later: "stream_rows E U name (db, n) \<Longrightarrow> n \<le> m \<Longrightarrow> stream_rows E U name (db, m)"
  by (auto simp: stream_rows_def) (meson less_le_trans)

section \<open>The contract of an ingest controller\<close>

text \<open>
  \<open>running w d\<close>: an ingest runs under the deployment name \<open>d\<close>.  A successful start answers with what
  was asked for and the ingest runs; a failed one, an internal error, may have stopped the ingest of
  that name; a stop leaves it stopped, and succeeds if it ran.  Other ingests are untouched.
\<close>

locale ingest_controller =
  fixes ctl :: "'w controller"
    and inv :: "'w \<Rightarrow> bool"
    and running :: "'w \<Rightarrow> string \<Rightarrow> bool"
    and adm :: "start_request \<Rightarrow> bool"
    and stoppable :: "start_request \<Rightarrow> bool"
  assumes start_ok: "inv w \<Longrightarrow> adm req \<Longrightarrow> ctl_StartServer ctl req w = (Inr (dep, ns), w') \<Longrightarrow>
      inv w' \<and> dep = req_Deployment req \<and> ns = req_Namespace req \<and> running w' = (running w)(req_Deployment req := True)"
    and start_fail: "inv w \<Longrightarrow> adm req \<Longrightarrow> ctl_StartServer ctl req w = (Inl e, w') \<Longrightarrow>
      inv w' \<and> (\<exists>m. e = StatusErr Internal m) \<and> (running w' = running w \<or> running w' = (running w)(req_Deployment req := False))"
    and stop_done: "inv w \<Longrightarrow> stoppable req \<Longrightarrow> ctl_StopServer ctl req w = (r, w') \<Longrightarrow>
      inv w' \<and> running w' = (running w)(req_Deployment req := False) \<and> (running w (req_Deployment req) \<longrightarrow> r = Inr ())"
begin

text \<open>
  The broadcasters \<open>U\<close> have distinct user names; their requests are ones the controller can serve;
  the database fails for its constraints only and makes fresh ids.
\<close>

definition linked :: "stream_env \<Rightarrow> uuid set \<Rightarrow> (uuid \<Rightarrow> string) \<Rightarrow> sconn \<times> 'w \<Rightarrow> bool" where
  "linked E U name s \<longleftrightarrow> (case s of ((db, n), w) \<Rightarrow>
     inv w \<and> sdb_inv db
   \<and> (\<forall>x\<in>set (active_streams db). (\<exists>m<n. as_ID x = pg_uuid (se_pg E) m)
        \<and> as_BroadcasterID x \<in> U \<and> as_Username x = name (as_BroadcasterID x) \<and> as_Deployment x = as_Username x
        \<and> as_Namespace x = isa_Namespace (IngestStandalone (se_config E)))
   \<and> (\<forall>d. running w d = (d \<in> as_Deployment ` set (active_streams db))))"

definition served :: "stream_env \<Rightarrow> uuid set \<Rightarrow> (uuid \<Rightarrow> string) \<Rightarrow> bool" where
  "served E U name \<longleftrightarrow> inj_on name U \<and> (\<forall>n. pg_fault (se_pg E) n = None) \<and> inj (pg_uuid (se_pg E))
   \<and> length (isa_Namespace (IngestStandalone (se_config E))) \<le> 50
   \<and> (\<forall>i\<in>U. adm \<lparr>req_IngestTemplate = isa_IngestTemplate (IngestStandalone (se_config E)),
          req_Deployment = name i, req_Namespace = isa_Namespace (IngestStandalone (se_config E)),
          req_Meta = Some \<lparr>im_BroadcasterId = i, im_Username = name i\<rparr>\<rparr>
        \<and> stoppable \<lparr>req_IngestTemplate = [], req_Deployment = name i,
          req_Namespace = isa_Namespace (IngestStandalone (se_config E)),
          req_Meta = Some \<lparr>im_BroadcasterId = i, im_Username = name i\<rparr>\<rparr>)"

definition token_ok :: "uuid set \<Rightarrow> (uuid \<Rightarrow> string) \<Rightarrow> token_payload \<Rightarrow> bool" where
  "token_ok U name token \<longleftrightarrow> tp_UserID token \<in> U \<and> tp_Sub token = name (tp_UserID token)"

lemma stop_linked:
  assumes sv: "served E U name" and tok: "token_ok U name token"
    and db: "sdb_inv db" "inv w"
      "\<And>x. x \<in> set (active_streams db) \<Longrightarrow> (\<exists>m<n. as_ID x = pg_uuid (se_pg E) m)
        \<and> as_BroadcasterID x \<in> U \<and> as_Username x = name (as_BroadcasterID x) \<and> as_Deployment x = as_Username x
        \<and> as_Namespace x = isa_Namespace (IngestStandalone (se_config E))"
      "\<And>d. d \<noteq> tp_Sub token \<Longrightarrow> running w d = (d \<in> as_Deployment ` set (active_streams db))"
      "tp_Sub token \<notin> as_Deployment ` set (active_streams db) \<Longrightarrow> \<not> running w (tp_Sub token)"
  shows "linked E U name (snd (StopIngestServer E ctl token ((db, n), w)))"
proof -
  have nf: "pg_fault (se_pg E) k = None" for k using sv by (simp add: served_def)
  show ?thesis
  proof (cases "find (\<lambda>s. as_BroadcasterID s = tp_UserID token) (active_streams db)")
    case None
    then have "tp_Sub token \<notin> as_Deployment ` set (active_streams db)"
      using db(3) tok sv by (auto simp: token_ok_def served_def find_None_iff' inj_eq inj_on_eq_iff)
    with db(5) have "running w d = (d \<in> as_Deployment ` set (active_streams db))" for d using db(4) by metis
    moreover have "snd (StopIngestServer E ctl token ((db, n), w)) = ((db, n + 1), w)"
      using None nf by (simp add: StopIngestServer_def GetActiveStreamByBroadcasterId_def exec_stmt_def)
    moreover have "\<exists>m<n + 1. as_ID x = pg_uuid (se_pg E) m" if "x \<in> set (active_streams db)" for x
      using db(3) [OF that] by (auto intro: less_SucI)
    ultimately show ?thesis using db(1,2,3) by (auto simp: linked_def)
  next
    case (Some x)
    then have x: "x \<in> set (active_streams db)" "as_BroadcasterID x = tp_UserID token" by (auto dest: find_SomeD)
    with db(3) [OF x(1)] tok have dep: "as_Deployment x = tp_Sub token" by (simp add: token_ok_def)
    obtain db' where del: "delete_stream_stmt (tp_UserID token) (n + 1) db = Inr ((), db')"
      by (simp add: delete_stream_stmt_def Let_def)
    then have keep: "active_streams db' = filter (\<lambda>s. as_BroadcasterID s \<noteq> tp_UserID token) (active_streams db)"
      by (auto simp: delete_stream_stmt_def Let_def)
    have inv': "sdb_inv db'" by (rule delete_stream_inv [OF db(1) del])
    let ?req = "stop_request token (as_Namespace x) (as_Deployment x)"
    obtain r w' where stop: "ctl_StopServer ctl ?req w = (r, w')" by (rule prod.exhaust)
    have "stoppable ?req" using sv db(3) [OF x(1)] x(2) dep tok by (simp add: served_def stop_request_def token_meta_def token_ok_def)
    from stop_done [OF db(2) this stop] have w': "inv w'" "running w' = (running w)(tp_Sub token := False)"
      by (simp_all add: stop_request_def dep)
    have run: "running w' d = (d \<in> as_Deployment ` set (active_streams db'))" for d
    proof (cases "d = tp_Sub token")
      case True
      have "d \<notin> as_Deployment ` set (active_streams db')"
      proof
        assume "d \<in> as_Deployment ` set (active_streams db')"
        then obtain y where "y \<in> set (active_streams db)" "as_BroadcasterID y \<noteq> tp_UserID token" "as_Deployment y = d"
          by (auto simp: keep)
        with db(3) [of y] True tok sv show False by (auto simp: token_ok_def served_def inj_eq inj_on_eq_iff)
      qed
      with True w'(2) show ?thesis by simp
    next
      case False
      have "d \<in> as_Deployment ` set (active_streams db') \<longleftrightarrow> d \<in> as_Deployment ` set (active_streams db)"
        using False db(3) tok by (auto simp: keep token_ok_def image_iff)
      with False w'(2) db(4) show ?thesis by simp
    qed
    have "snd (StopIngestServer E ctl token ((db, n), w)) = ((db', n + 2), w')"
      using Some nf del stop x(2)
      by (simp add: StopIngestServer_def GetActiveStreamByBroadcasterId_def DeleteActiveStreamByBroadcasterId_def
          exec_stmt_def split: sum.split)
    moreover have "\<exists>m<n + 2. as_ID y = pg_uuid (se_pg E) m" if "y \<in> set (active_streams db')" for y
      using db(3) [of y] that by (auto simp: keep intro: less_SucI)
    ultimately show ?thesis using inv' w'(1) run db(3) by (auto simp: linked_def keep)
  qed
qed

text \<open>What a start and a stop answer, and whose stream is recorded after.\<close>

lemma stop_db:
  assumes nf: "\<And>k. pg_fault (se_pg E) k = None"
    and stop: "StopIngestServer E ctl token ((db, n), w) = (e, (db', n'), w')"
  shows "\<not> recorded (tp_UserID token) db'" "\<not> recorded (tp_UserID token) db \<Longrightarrow> e = Some NotFoundActiveStream"
proof -
  let ?find = "find (\<lambda>s. as_BroadcasterID s = tp_UserID token) (active_streams db)"
  show "\<not> recorded (tp_UserID token) db \<Longrightarrow> e = Some NotFoundActiveStream"
  proof -
    assume "\<not> recorded (tp_UserID token) db"
    then have "?find = None" unfolding recorded_def find_None_iff' by (metis imageI)
    with stop nf show ?thesis by (simp add: StopIngestServer_def GetActiveStreamByBroadcasterId_def exec_stmt_def)
  qed
  show "\<not> recorded (tp_UserID token) db'"
  proof (cases ?find)
    case None
    with stop nf have "db' = db" by (simp add: StopIngestServer_def GetActiveStreamByBroadcasterId_def exec_stmt_def)
    with None show ?thesis by (auto simp: recorded_def find_None_iff')
  next
    case (Some x)
    then have "as_BroadcasterID x = tp_UserID token" by (auto dest: find_SomeD)
    with stop nf Some have "active_streams db' = filter (\<lambda>s. as_BroadcasterID s \<noteq> tp_UserID token) (active_streams db)"
      by (auto simp: StopIngestServer_def GetActiveStreamByBroadcasterId_def DeleteActiveStreamByBroadcasterId_def
          exec_stmt_def delete_stream_stmt_def Let_def split: sum.splits prod.splits)
    then show ?thesis by (auto simp: recorded_def)
  qed
qed

lemma linked_rows: "linked E U name ((db, n), w) \<Longrightarrow> stream_rows E U name (db, n)"
  by (auto simp: linked_def stream_rows_def)

lemma rows_recorded:
  assumes "served E U name" and "token_ok U name token" and "stream_rows E U name (db, n)"
  shows "recorded (tp_UserID token) db \<longleftrightarrow> tp_Sub token \<in> as_Deployment ` set (active_streams db)"
proof -
  have x: "as_Deployment x = tp_Sub token \<longleftrightarrow> as_BroadcasterID x = tp_UserID token" if "x \<in> set (active_streams db)" for x
    using assms(1,2) stream_rowsD(2) [OF assms(3) that] by (auto simp: served_def token_ok_def inj_on_eq_iff)
  show ?thesis unfolding recorded_def using x by (metis (no_types, lifting) image_iff)
qed

lemma linked_recorded:
  assumes "served E U name" and "token_ok U name token" and "linked E U name ((db, n), w)"
  shows "recorded (tp_UserID token) db \<longleftrightarrow> tp_Sub token \<in> as_Deployment ` set (active_streams db)"
    and "recorded (tp_UserID token) db \<longleftrightarrow> running w (tp_Sub token)"
proof -
  show *: "recorded (tp_UserID token) db \<longleftrightarrow> tp_Sub token \<in> as_Deployment ` set (active_streams db)"
    by (rule rows_recorded [OF assms(1,2) linked_rows [OF assms(3)]])
  from assms(3) show "recorded (tp_UserID token) db \<longleftrightarrow> running w (tp_Sub token)" unfolding * by (simp add: linked_def)
qed

lemma stop_result:
  assumes sv: "served E U name" and tok: "token_ok U name token" and link: "linked E U name ((db, n), w)"
    and stop: "StopIngestServer E ctl token ((db, n), w) = (e, (db', n'), w')"
  shows "e = (if recorded (tp_UserID token) db then None else Some NotFoundActiveStream) \<and> \<not> recorded (tp_UserID token) db'"
proof -
  have nf: "pg_fault (se_pg E) k = None" for k using sv by (simp add: served_def)
  show ?thesis
  proof (cases "find (\<lambda>s. as_BroadcasterID s = tp_UserID token) (active_streams db)")
    case None
    then show ?thesis using stop_db [OF nf stop] by (auto simp: recorded_def find_None_iff')
  next
    case (Some x)
    then have x: "x \<in> set (active_streams db)" "as_BroadcasterID x = tp_UserID token" by (auto dest: find_SomeD)
    let ?req = "stop_request token (as_Namespace x) (as_Deployment x)"
    have row: "as_Deployment x = tp_Sub token" "as_Namespace x = isa_Namespace (IngestStandalone (se_config E))"
      using link x tok by (auto simp: linked_def token_ok_def)
    obtain r w1 where ctl: "ctl_StopServer ctl ?req w = (r, w1)" by (rule prod.exhaust)
    have "stoppable ?req" "inv w"
      using sv tok row link by (auto simp: served_def stop_request_def token_meta_def token_ok_def linked_def)
    moreover have "running w (req_Deployment ?req)"
      using link x(1) by (simp add: linked_def stop_request_def)
    ultimately have "r = Inr ()" using stop_done [OF _ _ ctl] by blast
    with stop nf Some ctl x have "e = None"
      by (auto simp: StopIngestServer_def GetActiveStreamByBroadcasterId_def DeleteActiveStreamByBroadcasterId_def
          exec_stmt_def delete_stream_stmt_def Let_def)
    with x stop_db [OF nf stop] show ?thesis by (auto simp: recorded_def)
  qed
qed

lemma contains_dup [simp]:
  "contains (err_text unique_violation) ''duplicate key value violates unique constraint''"
  "\<not> contains (err_text too_long) ''duplicate key value violates unique constraint''"
proof -
  show "contains (err_text unique_violation) ''duplicate key value violates unique constraint''"
    using contains_infix [of "''pq: ''" "''duplicate key value violates unique constraint''" "[]"]
    by (simp add: unique_violation_def)
  show "\<not> contains (err_text too_long) ''duplicate key value violates unique constraint''"
    by (simp add: too_long_def has_prefix_def)
qed

lemma linkedD:
  assumes "linked E U name ((db, n), w)"
  shows "sdb_inv db" "inv w"
    and "x \<in> set (active_streams db) \<Longrightarrow> (\<exists>m<n. as_ID x = pg_uuid (se_pg E) m)
      \<and> as_BroadcasterID x \<in> U \<and> as_Username x = name (as_BroadcasterID x) \<and> as_Deployment x = as_Username x
      \<and> as_Namespace x = isa_Namespace (IngestStandalone (se_config E))"
    and "running w d = (d \<in> as_Deployment ` set (active_streams db))"
  using assms by (auto simp: linked_def)

lemma insert_effect:
  assumes sv: "served E U name" and tok: "token_ok U name token" and rows: "stream_rows E U name (db, n)"
  defines "ns \<equiv> isa_Namespace (IngestStandalone (se_config E))"
  shows "(\<exists>x db'. insert_stream_stmt (se_pg E) (tp_UserID token) (tp_Sub token) ns (tp_Sub token) n db = Inr (x, db')
      \<and> \<not> recorded (tp_UserID token) db \<and> sdb_inv db' \<and> active_streams db' = active_streams db @ [x]
      \<and> as_ID x = pg_uuid (se_pg E) n \<and> as_BroadcasterID x = tp_UserID token \<and> as_Username x = tp_Sub token
      \<and> as_Deployment x = tp_Sub token \<and> as_Namespace x = ns)
    \<or> (insert_stream_stmt (se_pg E) (tp_UserID token) (tp_Sub token) ns (tp_Sub token) n db = Inl too_long
      \<and> \<not> recorded (tp_UserID token) db)
    \<or> (insert_stream_stmt (se_pg E) (tp_UserID token) (tp_Sub token) ns (tp_Sub token) n db = Inl unique_violation
      \<and> recorded (tp_UserID token) db)"
proof -
  note row = stream_rowsD(2) [OF rows] note db = stream_rowsD(1) [OF rows] note rec = rows_recorded [OF sv tok rows]
  have ns: "length ns \<le> 50" using sv by (simp add: served_def ns_def)
  have user: "as_Username ` set (active_streams db) = as_Deployment ` set (active_streams db)"
    using row by (intro image_cong) auto
  have fresh: "pg_uuid (se_pg E) n \<notin> as_ID ` set (active_streams db)"
  proof
    assume "pg_uuid (se_pg E) n \<in> as_ID ` set (active_streams db)"
    then obtain x m where "m < n" "pg_uuid (se_pg E) n = pg_uuid (se_pg E) m" using row by fastforce
    with sv show False by (auto simp: served_def inj_eq)
  qed
  consider "length (tp_Sub token) > 30" | "length (tp_Sub token) \<le> 30" "recorded (tp_UserID token) db"
    | "length (tp_Sub token) \<le> 30" "\<not> recorded (tp_UserID token) db" by linarith
  then show ?thesis
  proof cases
    case 1
    then have "\<not> recorded (tp_UserID token) db" using db row unfolding rec by (auto simp: sdb_inv_def list_all_iff)
    with 1 show ?thesis by (simp add: insert_stream_stmt_def Let_def)
  next
    case 2
    with ns show ?thesis by (simp add: insert_stream_stmt_def recorded_def Let_def)
  next
    case 3
    then have "tp_Sub token \<notin> as_Deployment ` set (active_streams db)" unfolding rec by simp
    moreover from this have "tp_Sub token \<notin> as_Username ` set (active_streams db)" by (simp add: user)
    moreover from 3 have "tp_UserID token \<notin> as_BroadcasterID ` set (active_streams db)" by (simp add: recorded_def)
    ultimately obtain x db' where ins: "insert_stream_stmt (se_pg E) (tp_UserID token) (tp_Sub token) ns (tp_Sub token) n db = Inr (x, db')"
      "active_streams db' = active_streams db @ [x]" "as_ID x = pg_uuid (se_pg E) n" "as_BroadcasterID x = tp_UserID token"
      "as_Username x = tp_Sub token" "as_Deployment x = tp_Sub token" "as_Namespace x = ns"
      using 3(1) ns fresh by (simp add: insert_stream_stmt_def Let_def)
    with 3 insert_stream_inv [OF db ins(1)] show ?thesis by blast
  qed
qed

lemma start_linked:
  assumes sv: "served E U name" and tok: "token_ok U name token" and link: "linked E U name ((db, n), w)"
    and start: "StartIngestServer E ctl token ((db, n), w) = (e, (db', n'), w')"
  shows "linked E U name ((db', n'), w')
    \<and> ((e = None \<and> \<not> recorded (tp_UserID token) db \<and> recorded (tp_UserID token) db')
     \<or> (e = Some StreamAlredyExists \<and> recorded (tp_UserID token) db \<and> recorded (tp_UserID token) db')
     \<or> ((e = Some UnableInsertStream \<or> (\<exists>m. e = Some (StatusErr Internal m))) \<and> \<not> recorded (tp_UserID token) db'))"
proof -
  let ?cfg = "IngestStandalone (se_config E)"
  let ?req = "\<lparr>req_IngestTemplate = isa_IngestTemplate ?cfg, req_Deployment = tp_Sub token,
      req_Namespace = isa_Namespace ?cfg, req_Meta = Some (token_meta token)\<rparr>"
  have nf: "pg_fault (se_pg E) k = None" for k using sv by (simp add: served_def)
  have adm: "adm ?req" using sv tok by (simp add: served_def token_meta_def token_ok_def)
  note db = linkedD [OF link] note rec = linked_recorded(1) [OF sv tok link]
  obtain r w1 where ctl: "ctl_StartServer ctl ?req w = (r, w1)" by (rule prod.exhaust)
  show ?thesis
  proof (cases r)
    case (Inl err)
    from start_fail [OF db(2) adm ctl [unfolded Inl]] have w1: "inv w1" "\<exists>m. err = StatusErr Internal m"
      "running w1 = running w \<or> running w1 = (running w)(tp_Sub token := False)" by auto
    from start ctl Inl obtain e1 where e: "e = Some err" and
      stop: "StopIngestServer E ctl token ((db, n), w1) = (e1, (db', n'), w')"
      by (cases "StopIngestServer E ctl token ((db, n), w1)") (auto simp: StartIngestServer_def Let_def)
    have "linked E U name (snd (StopIngestServer E ctl token ((db, n), w1)))"
      by (rule stop_linked [OF sv tok db(1) w1(1) db(3)]) (use w1(3) db(4) in auto)
    with stop e w1(2) stop_db(1) [OF nf stop] show ?thesis by simp
  next
    case (Inr q)
    obtain dep ns where "q = (dep, ns)" by (rule prod.exhaust)
    with start_ok [OF db(2) adm, of dep ns w1] ctl Inr have q: "q = (tp_Sub token, isa_Namespace ?cfg)"
      and w1: "inv w1" "running w1 = (running w)(tp_Sub token := True)" by auto
    let ?ins = "insert_stream_stmt (se_pg E) (tp_UserID token) (tp_Sub token) (isa_Namespace ?cfg) (tp_Sub token) n db"
    have run: "StartIngestServer E ctl token ((db, n), w) =
        (case ?ins of
           Inr (x, db') \<Rightarrow> (None, (db', n + 1), w1)
         | Inl err \<Rightarrow> if contains (err_text err) ''duplicate key value violates unique constraint''
             then (Some StreamAlredyExists, (db, n + 1), w1)
             else (Some UnableInsertStream, (db, n + 1), snd (ctl_StopServer ctl (stop_request token (isa_Namespace ?cfg) (tp_Sub token)) w1)))"
      using ctl Inr q nf
      by (simp add: StartIngestServer_def InsertActiveStream_def exec_stmt_def Let_def split: sum.split)
    have later: "\<exists>m<n + 1. as_ID x = pg_uuid (se_pg E) m" if "x \<in> set (active_streams db)" for x
      using db(3) [OF that] by (auto intro: less_SucI)
    from insert_effect [OF sv tok linked_rows [OF link]] consider
        (ok) x db1 where "?ins = Inr (x, db1)" "\<not> recorded (tp_UserID token) db" "sdb_inv db1"
          "active_streams db1 = active_streams db @ [x]" "as_ID x = pg_uuid (se_pg E) n" "as_BroadcasterID x = tp_UserID token"
          "as_Username x = tp_Sub token" "as_Deployment x = tp_Sub token" "as_Namespace x = isa_Namespace ?cfg"
      | (long) "?ins = Inl too_long" "\<not> recorded (tp_UserID token) db"
      | (dup) "?ins = Inl unique_violation" "recorded (tp_UserID token) db" by blast
    then show ?thesis
    proof cases
      case ok
      with run start have "e = None" "db' = db1" "n' = n + 1" "w' = w1" by simp_all
      with ok w1 db(3,4) later tok show ?thesis by (auto simp: linked_def token_ok_def recorded_def)
    next
      case long
      let ?stop = "stop_request token (isa_Namespace ?cfg) (tp_Sub token)"
      obtain r2 w2 where stop: "ctl_StopServer ctl ?stop w1 = (r2, w2)" by (rule prod.exhaust)
      have "stoppable ?stop" using sv tok by (simp add: served_def stop_request_def token_meta_def token_ok_def)
      from stop_done [OF w1(1) this stop] w1(2) have w2: "inv w2" "running w2 = (running w)(tp_Sub token := False)"
        by (auto simp: stop_request_def)
      from run start long stop have "e = Some UnableInsertStream" "db' = db" "n' = n + 1" "w' = w2" by simp_all
      with long rec w2 db(1,3,4) later show ?thesis by (auto simp: linked_def)
    next
      case dup
      with run start have "e = Some StreamAlredyExists" "db' = db" "n' = n + 1" "w' = w1" by simp_all
      with dup rec w1 db(1,3,4) later show ?thesis by (auto simp: linked_def)
    qed
  qed
qed

lemma run_linked:
  assumes sv: "served E U name" and "linked E U name s" and "list_all (\<lambda>oper. token_ok U name (op_token oper)) ops"
  shows "linked E U name (stream_run E ctl ops s)"
  using assms(2,3)
proof (induction ops arbitrary: s)
  case (Cons oper ops)
  obtain db n w where s: "s = ((db, n), w)" by (metis prod.exhaust)
  have tok: "token_ok U name (op_token oper)" using Cons.prems(2) by simp
  have link: "linked E U name ((db, n), w)" using Cons.prems(1) s by simp
  have "linked E U name (snd (stream_step E ctl oper s))"
  proof (cases oper)
    case (StreamStart token)
    obtain e db' n' w' where "StartIngestServer E ctl token ((db, n), w) = (e, (db', n'), w')" by (metis prod.exhaust)
    with start_linked [OF sv _ link this] tok s StreamStart show ?thesis by simp
  next
    case (StreamStop token)
    with tok have "token_ok U name token" by simp
    from stop_linked [OF sv this, of db w n] link have "linked E U name (snd (StopIngestServer E ctl token ((db, n), w)))"
      by (auto simp: linked_def)
    with StreamStop s show ?thesis by simp
  qed
  from Cons.IH [OF this] Cons.prems(2) show ?case by (simp add: stream_run_def)
qed (simp add: stream_run_def)

end

section \<open>The operator behind its client\<close>

text \<open>
  The world of the client is the operator and the number of its calls, which picks the schedules of
  the operator's goroutines.  A panic of the operator closes the connection; so does no answer at
  all, which does not happen while the operator's ports are well-formed.
\<close>

definition operator_client ::
  "'w operator_env \<Rightarrow> (nat \<Rightarrow> nat list \<times> bool \<times> nat list) \<Rightarrow> ('w operator_state \<times> nat) controller" where
  "operator_client env sch =
     \<lparr>ctl_StartServer = (\<lambda>req (s, k). case sch k of (ss, df, ts) \<Rightarrow>
          (case StartServer env ss df ts req s of
             Some (Ret r, s') \<Rightarrow> (r, s', k + 1)
           | Some (Panic m, s') \<Rightarrow> (Inl (StatusErr Unavailable m), s', k + 1)
           | None \<Rightarrow> (Inl (StatusErr Unavailable ''no answer''), s, k + 1))),
      ctl_StopServer = (\<lambda>req (s, k). case sch k of (ss, df, _) \<Rightarrow>
          (let (r, s') = StopServer env ss df (req_Deployment req) (req_Namespace req) s in (r, s', k + 1)))\<rparr>"

definition operator_inv ::
  "'w operator_env \<Rightarrow> ('w \<Rightarrow> obj_key \<Rightarrow> k8s_object option) \<Rightarrow> (nat \<Rightarrow> nat list \<times> bool \<times> nat list)
    \<Rightarrow> string set \<Rightarrow> string \<Rightarrow> port \<Rightarrow> port \<Rightarrow> (string \<Rightarrow> ingest_template option) \<Rightarrow> 'w operator_state \<times> nat \<Rightarrow> bool" where
  "operator_inv env cl sch A ns lo hi tmpl s \<longleftrightarrow>
     (\<forall>k. schedule (fst (sch k)) \<and> schedule (snd (snd (sch k)))) \<and> os_templates (fst s) = tmpl
   \<and> (\<exists>run. sys_rel env cl A ns lo hi (op_state (fst s)) run)"

definition deployed_in ::
  "('w \<Rightarrow> obj_key \<Rightarrow> k8s_object option) \<Rightarrow> string set \<Rightarrow> string \<Rightarrow> 'w operator_state \<times> nat \<Rightarrow> string \<Rightarrow> bool" where
  "deployed_in cl A ns s d \<longleftrightarrow> d \<in> A \<and> cl (os_world (fst s)) (KDeployment, ns, d) \<noteq> None"

definition stop_served :: "string set \<Rightarrow> string \<Rightarrow> start_request \<Rightarrow> bool" where
  "stop_served A ns req \<longleftrightarrow> req_Deployment req \<in> A \<and> req_Namespace req = ns"

definition start_served :: "string set \<Rightarrow> string \<Rightarrow> (string \<Rightarrow> ingest_template option) \<Rightarrow> start_request \<Rightarrow> bool" where
  "start_served A ns tmpl req \<longleftrightarrow> stop_served A ns req
     \<and> (\<exists>t m. tmpl (req_IngestTemplate req) = Some t \<and> template_ok t \<and> req_Meta req = Some m \<and> im_BroadcasterId m \<noteq> [])"

lemma deployed_in_run:
  assumes "sys_rel env cl A ns lo hi (op_state (fst s)) run"
  shows "deployed_in cl A ns s = (\<lambda>d. run d \<noteq> None)"
proof
  fix d
  show "deployed_in cl A ns s d = (run d \<noteq> None)"
  proof (cases "run d")
    case None
    then show ?thesis using sys_relD(11) [OF assms, of d "(KDeployment, ns, d)"]
      by (auto simp: deployed_in_def ingest_keys_def)
  next
    case (Some x)
    then obtain params p where run: "run d = Some (params, p)" by (cases x) auto
    note facts = sys_relD(7-9) [OF assms run]
    then have "cl (os_world (fst s)) (KDeployment, ns, d) \<noteq> None"
      using ingest_stored_keys [OF facts(3)] by (auto simp: params_ok_def ingest_keys_def)
    with facts run show ?thesis by (auto simp: deployed_in_def params_ok_def)
  qed
qed

lemma StartServer_templates:
  "StartServer env ss df ts req s = Some (r, s') \<Longrightarrow> os_templates s' = os_templates s"
  by (auto simp: StartServer_def Let_def split: sum.splits prod.splits option.splits)

lemma operator_start_run:
  assumes inv: "operator_inv env cl sch A ns lo hi tmpl w" and adm: "start_served A ns tmpl req"
    and start: "ctl_StartServer (operator_client env sch) req w = (r, w')"
  obtains run run' where "sys_rel env cl A ns lo hi (op_state (fst w)) run" "operator_inv env cl sch A ns lo hi tmpl w'"
    "\<forall>b. b \<noteq> req_Deployment req \<longrightarrow> run' b = run b"
    "if {lo..hi} \<subseteq> ports_in_use (run(req_Deployment req := None))
     then (\<exists>msg. r = Inl (StatusErr Internal msg)) \<and> run' (req_Deployment req) = None \<and> run (req_Deployment req) = None
     else r = Inr (req_Deployment req, req_Namespace req) \<and> run' (req_Deployment req) \<noteq> None"
    "deployed_in cl A ns w = (\<lambda>d. run d \<noteq> None)" "deployed_in cl A ns w' = (\<lambda>d. run' d \<noteq> None)"
proof -
  obtain s k ss df ts where w: "w = (s, k)" and sch: "sch k = (ss, df, ts)" by (metis prod.exhaust)
  from inv w obtain run where rel: "sys_rel env cl A ns lo hi (op_state s) run" by (auto simp: operator_inv_def)
  from adm obtain t m where tm: "tmpl (req_IngestTemplate req) = Some t" "template_ok t" "req_Meta req = Some m"
    "im_BroadcasterId m \<noteq> []" "req_Deployment req \<in> A" "req_Namespace req = ns"
    by (auto simp: start_served_def stop_served_def)
  have "schedule ss" "schedule ts" using inv sch by (auto simp: operator_inv_def dest: spec [of _ k])
  note spec = StartServer_spec [OF rel this, of req t m df]
  have "os_templates s (req_IngestTemplate req) = Some t" using inv w tm(1) by (simp add: operator_inv_def)
  from spec [OF this tm(2-6)] obtain r' s' run' where
    s': "StartServer env ss df ts req s = Some (Ret r', s')" "sys_rel env cl A ns lo hi (op_state s') run'"
      "\<forall>b. b \<noteq> req_Deployment req \<longrightarrow> run' b = run b"
      "if {lo..hi} \<subseteq> ports_in_use (run(req_Deployment req := None))
       then (\<exists>msg. r' = Inl (StatusErr Internal msg)) \<and> run' (req_Deployment req) = None
            \<and> run (req_Deployment req) = None
       else r' = Inr (req_Deployment req, req_Namespace req)
            \<and> (\<exists>p. run' (req_Deployment req) = Some (req_params req t m, p))" by blast
  have keep: "os_templates s' = os_templates s" by (rule StartServer_templates [OF s'(1)])
  have w': "r = r'" "w' = (s', k + 1)" using start w sch s'(1) by (simp_all add: operator_client_def)
  show ?thesis
  proof (rule that [of run run'])
    show "operator_inv env cl sch A ns lo hi tmpl w'" using inv w w' s'(2) keep by (auto simp: operator_inv_def)
    show "deployed_in cl A ns w = (\<lambda>d. run d \<noteq> None)" "deployed_in cl A ns w' = (\<lambda>d. run' d \<noteq> None)"
      using deployed_in_run [of env cl A ns lo hi w run] deployed_in_run [of env cl A ns lo hi w' run'] rel s'(2) w w' by simp_all
  qed (use rel w w' s'(3,4) in \<open>auto split: if_splits\<close>)
qed

lemma operator_start:
  assumes "operator_inv env cl sch A ns lo hi tmpl w" and "start_served A ns tmpl req"
    and "ctl_StartServer (operator_client env sch) req w = (r, w')"
  shows "operator_inv env cl sch A ns lo hi tmpl w' \<and>
    (case r of
       Inr (dep, ns') \<Rightarrow> dep = req_Deployment req \<and> ns' = req_Namespace req
         \<and> deployed_in cl A ns w' = (deployed_in cl A ns w)(req_Deployment req := True)
     | Inl e \<Rightarrow> (\<exists>m. e = StatusErr Internal m)
         \<and> deployed_in cl A ns w' = (deployed_in cl A ns w)(req_Deployment req := False))"
  by (rule operator_start_run [OF assms]) (auto simp: fun_eq_iff split: if_splits)

lemma card_ports_in_use:
  assumes "sys_rel env cl A ns lo hi (ports, w) run"
  shows "card (ports_in_use run) = card (dom run)"
proof -
  have "bij_betw (\<lambda>a. snd (the (run a))) (dom run) (ports_in_use run)"
  proof (rule bij_betw_imageI)
    show "inj_on (\<lambda>a. snd (the (run a))) (dom run)"
      using sys_relD(10) [OF assms] by (fastforce simp: inj_on_def)
    show "(\<lambda>a. snd (the (run a))) ` dom run = ports_in_use run"
      by (force simp: ports_in_use_iff image_iff)
  qed
  then show ?thesis by (simp add: bij_betw_same_card)
qed

text \<open>A start succeeds if it replaces an ingest, or the ingests leave a port free.\<close>

lemma operator_start_capacity:
  assumes "operator_inv env cl sch A ns lo hi tmpl w" and "start_served A ns tmpl req"
    and "ctl_StartServer (operator_client env sch) req w = (r, w')"
  shows "card {d. deployed_in cl A ns w d} \<le> card {lo..hi}"
    and "(\<exists>q. r = Inr q) \<longleftrightarrow> deployed_in cl A ns w (req_Deployment req) \<or> card {d. deployed_in cl A ns w d} < card {lo..hi}"
proof -
  obtain run run' where run: "sys_rel env cl A ns lo hi (op_state (fst w)) run" "operator_inv env cl sch A ns lo hi tmpl w'"
    "\<forall>b. b \<noteq> req_Deployment req \<longrightarrow> run' b = run b"
    "if {lo..hi} \<subseteq> ports_in_use (run(req_Deployment req := None))
     then (\<exists>msg. r = Inl (StatusErr Internal msg)) \<and> run' (req_Deployment req) = None \<and> run (req_Deployment req) = None
     else r = Inr (req_Deployment req, req_Namespace req) \<and> run' (req_Deployment req) \<noteq> None"
    "deployed_in cl A ns w = (\<lambda>d. run d \<noteq> None)" "deployed_in cl A ns w' = (\<lambda>d. run' d \<noteq> None)"
    by (rule operator_start_run [OF assms])
  obtain ports c where st: "op_state (fst w) = (ports, c)" by (rule prod.exhaust)
  note rel = run(1) [unfolded st]
  have dep: "{d. deployed_in cl A ns w d} = dom run" using run(5) by (auto simp: dom_def)
  note card = card_ports_in_use [OF rel]
  have sub: "ports_in_use run \<subseteq> {lo..hi}" using sys_relD(3-6) [OF rel] by (auto simp: port_range_wf_def)
  then show "card {d. deployed_in cl A ns w d} \<le> card {lo..hi}" unfolding dep card [symmetric] by (intro card_mono) simp_all
  have full: "{lo..hi} \<subseteq> ports_in_use run \<longleftrightarrow> \<not> card (dom run) < card {lo..hi}"
  proof
    assume "{lo..hi} \<subseteq> ports_in_use run"
    with sub have "ports_in_use run = {lo..hi}" by blast
    with card show "\<not> card (dom run) < card {lo..hi}" by simp
  next
    assume "\<not> card (dom run) < card {lo..hi}"
    with card have "card {lo..hi} \<le> card (ports_in_use run)" by simp
    with card_seteq [OF _ sub] show "{lo..hi} \<subseteq> ports_in_use run" by simp
  qed
  have same: "run(req_Deployment req := None) = run" if "run (req_Deployment req) = None" using that by (simp add: fun_upd_idem)
  show "(\<exists>q. r = Inr q) \<longleftrightarrow> deployed_in cl A ns w (req_Deployment req) \<or> card {d. deployed_in cl A ns w d} < card {lo..hi}"
  proof (cases "run (req_Deployment req) = None")
    case True
    then show ?thesis using run(4) unfolding dep same [OF True] full unfolding run(5) by (cases "card (dom run) < card {lo..hi}") auto
  next
    case False
    with run(4) have "r = Inr (req_Deployment req, req_Namespace req)" by (cases "{lo..hi} \<subseteq> ports_in_use (run(req_Deployment req := None))") simp_all
    with False show ?thesis by (simp add: run(5))
  qed
qed

lemma operator_stop:
  assumes inv: "operator_inv env cl sch A ns lo hi tmpl w" and adm: "stop_served A ns req"
    and stop: "ctl_StopServer (operator_client env sch) req w = (r, w')"
  shows "operator_inv env cl sch A ns lo hi tmpl w'
    \<and> deployed_in cl A ns w' = (deployed_in cl A ns w)(req_Deployment req := False)
    \<and> (deployed_in cl A ns w (req_Deployment req) \<longrightarrow> r = Inr ())"
proof -
  obtain s k ss df ts where w: "w = (s, k)" and sch: "sch k = (ss, df, ts)" by (metis prod.exhaust)
  from inv w obtain run where rel: "sys_rel env cl A ns lo hi (op_state s) run" by (auto simp: operator_inv_def)
  have "schedule ss" using inv sch by (auto simp: operator_inv_def dest: spec [of _ k])
  from stop_spec [OF rel this, of "req_Deployment req" df] adm obtain e ports1 w1 where
    s': "StopIngestSystem env ss df (req_Deployment req) ns (op_state s) = (e, ports1, w1)"
      "sys_rel env cl A ns lo hi (ports1, w1) (run(req_Deployment req := None))"
      "(e = None) = (run (req_Deployment req) \<noteq> None)"
    by (auto simp: stop_served_def)
  have w': "w' = (s\<lparr>os_ports := ports1, os_world := w1\<rparr>, k + 1)" "e = None \<Longrightarrow> r = Inr ()"
    using stop w sch s'(1) adm
    by (auto simp: operator_client_def StopServer_def stop_served_def Let_def split: option.splits)
  have "operator_inv env cl sch A ns lo hi tmpl w'" using inv w w'(1) s'(2) by (auto simp: operator_inv_def)
  moreover have "deployed_in cl A ns w = (\<lambda>d. run d \<noteq> None)"
    using deployed_in_run [of env cl A ns lo hi w run] rel w by simp
  moreover have "deployed_in cl A ns w' = (\<lambda>d. (run(req_Deployment req := None)) d \<noteq> None)"
    using deployed_in_run [of env cl A ns lo hi w'] s'(2) w'(1) by simp
  ultimately show ?thesis using s'(3) w'(2) by (auto simp: fun_eq_iff)
qed

interpretation op: ingest_controller "operator_client env sch" "operator_inv env cl sch A ns lo hi tmpl"
  "deployed_in cl A ns" "start_served A ns tmpl" "stop_served A ns"
  for env :: "'w operator_env" and sch cl A ns lo hi tmpl
  by unfold_locales (auto dest: operator_start operator_stop)

section \<open>Properties\<close>

text \<open>
  A healthy operator and database, and users that can have streams: user names are distinct and the
  names of their objects do not collide, the configured template is known to the operator, nothing is
  in the cluster or the database yet.
\<close>

definition stream_setup ::
  "'w operator_env \<Rightarrow> ('w \<Rightarrow> obj_key \<Rightarrow> k8s_object option) \<Rightarrow> (nat \<Rightarrow> nat list \<times> bool \<times> nat list) \<Rightarrow> port \<Rightarrow> port
    \<Rightarrow> 'w operator_state \<Rightarrow> stream_env \<Rightarrow> uuid set \<Rightarrow> (uuid \<Rightarrow> string) \<Rightarrow> bool" where
  "stream_setup env cl sch lo hi s E U name \<longleftrightarrow> (let config = IngestStandalone (se_config E); ns = isa_Namespace config in
     operator_laws env cl \<and> apps_ok (name ` U) ns \<and> NewPortRange lo hi = Inr (os_ports s)
   \<and> (\<forall>d\<in>name ` U. \<forall>key\<in>set (ingest_keys ns d). cl (os_world s) key = None)
   \<and> (\<exists>t. os_templates s (isa_IngestTemplate config) = Some t \<and> template_ok t) \<and> length ns \<le> 50
   \<and> (\<forall>k. schedule (fst (sch k)) \<and> schedule (snd (snd (sch k))))
   \<and> inj_on name U \<and> [] \<notin> U
   \<and> (\<forall>n. pg_fault (se_pg E) n = None) \<and> inj (pg_uuid (se_pg E)))"

definition empty_sdb :: sdb where
  "empty_sdb = \<lparr>active_streams = [], stream_egresses = []\<rparr>"

text \<open>The token of the user \<open>i\<close>.\<close>

definition user_token :: "uuid set \<Rightarrow> (uuid \<Rightarrow> string) \<Rightarrow> token_payload \<Rightarrow> bool" where
  "user_token U name token \<longleftrightarrow> tp_UserID token \<in> U \<and> tp_Sub token = name (tp_UserID token)"

lemma user_token_ok: "op.token_ok U name = user_token U name"
  by (simp add: fun_eq_iff op.token_ok_def user_token_def)

lemma setup_served:
  assumes "stream_setup env cl sch lo hi s E U name"
  shows "op.served (name ` U) (isa_Namespace (IngestStandalone (se_config E))) (os_templates s) E U name"
  using assms unfolding op.served_def stream_setup_def Let_def
  by (auto simp: start_served_def stop_served_def)

lemma setup_history:
  assumes su: "stream_setup env cl sch lo hi s E U name"
    and "list_all (\<lambda>oper. user_token U name (op_token oper)) ops"
  shows "op.linked env cl sch (name ` U) (isa_Namespace (IngestStandalone (se_config E))) lo hi (os_templates s) E U name
    (stream_run E (operator_client env sch) ops ((empty_sdb, 0), s, 0))"
proof -
  let ?A = "name ` U" let ?tmpl = "os_templates s" let ?ns = "isa_Namespace (IngestStandalone (se_config E))"
  have rel: "sys_rel env cl ?A ?ns lo hi (op_state s) Map.empty"
    using su by (intro sys_rel_fresh) (auto simp: stream_setup_def Let_def)
  then have inv: "operator_inv env cl sch ?A ?ns lo hi ?tmpl (s, 0)"
    using su by (auto simp: operator_inv_def stream_setup_def Let_def)
  have none: "deployed_in cl ?A ?ns (s, 0) = (\<lambda>d. False)"
    using deployed_in_run [of env cl ?A ?ns lo hi "(s, 0)" Map.empty] rel by simp
  have link: "op.linked env cl sch ?A ?ns lo hi ?tmpl E U name ((empty_sdb, 0), s, 0)"
    unfolding op.linked_def using inv none by (simp add: empty_sdb_def empty_sdb_inv)
  from op.run_linked [OF setup_served [OF su] this, of ops] assms(2) show ?thesis by (simp add: user_token_ok)
qed

lemma linked_cluster:
  assumes "op.linked env cl sch (name ` U) ns lo hi tmpl E U name ((db, n), s', k)"
    and "ns = isa_Namespace (IngestStandalone (se_config E))"
  shows "sdb_inv db" "\<And>x. x \<in> set (active_streams db) \<Longrightarrow> as_Deployment x \<in> name ` U \<and> as_Namespace x = ns"
    and "\<And>d. d \<in> name ` U \<Longrightarrow>
      cl (os_world s') (KDeployment, ns, d) \<noteq> None \<longleftrightarrow> d \<in> as_Deployment ` set (active_streams db)"
    and "card (dom (busyPortRange (os_ports s'))) = length (active_streams db)"
proof -
  let ?A = "name ` U"
  have fin: "operator_inv env cl sch ?A ns lo hi tmpl (s', k)"
    "\<And>x. x \<in> set (active_streams db) \<Longrightarrow> as_Namespace x = ns"
    "\<And>d. deployed_in cl ?A ns (s', k) d = (d \<in> as_Deployment ` set (active_streams db))"
    and db: "sdb_inv db" using assms unfolding op.linked_def by auto
  from fin(1) obtain run where run: "sys_rel env cl ?A ns lo hi (op_state s') run" by (auto simp: operator_inv_def)
  have "deployed_in cl ?A ns (s', k) = (\<lambda>d. run d \<noteq> None)"
    using deployed_in_run [of env cl ?A ns lo hi "(s', k)" run] run by simp
  then have "dom run = as_Deployment ` set (active_streams db)" using fin(3) by (auto simp: fun_eq_iff)
  then show "card (dom (busyPortRange (os_ports s'))) = length (active_streams db)"
    using card_ports_in_use [OF run] sys_relD(6) [OF run] db distinct_card [of "map as_Deployment (active_streams db)"]
    by (simp add: sdb_inv_def)
  show "sdb_inv db" by (fact db)
  show "as_Deployment x \<in> name ` U \<and> as_Namespace x = ns" if "x \<in> set (active_streams db)" for x
    using fin(2) [OF that] fin(3) [of "as_Deployment x"] that unfolding deployed_in_def by blast
  show "cl (os_world s') (KDeployment, ns, d) \<noteq> None \<longleftrightarrow> d \<in> as_Deployment ` set (active_streams db)"
    if "d \<in> name ` U" for d
    using fin(3) [of d] that by (simp add: deployed_in_def)
qed


definition two_users :: "string \<Rightarrow> string" where
  "two_users i = (if i = ''1'' then ''alice'' else ''bob'')"

definition mem_stream_env :: stream_env where
  "mem_stream_env = \<lparr>se_pg = \<lparr>pg_fault = (\<lambda>_. None), pg_uuid = nat_str, pg_json_ok = (\<lambda>_. True),
       pg_row_uuid = (\<lambda>n i. nat_str n @ CHR ''.'' # nat_str i), pg_insert_none = GoErr ''pq: syntax error'',
       pg_groups = (\<lambda>_ xs. xs), pg_agg = (\<lambda>_ xs. xs)\<rparr>,
     se_config = \<lparr>Standalone = False, IngestStandalone = \<lparr>isa_Deployment = ''ingest'', isa_Namespace = ''default'',
       IngestUri = ''http://ingest'', isa_IngestTemplate = ''golang-ingest-template'',
       IngestWebrtcRoute = ''/whep'', IngestHLSRoute = ''/hls''\<rparr>\<rparr>\<rparr>"

definition mem_operator :: "mem_world operator_state" where
  "mem_operator = \<lparr>os_templates = [''golang-ingest-template'' \<mapsto> golang_template],
     os_tasks = [''golang-ingest-template''], os_ports = port_range_2, os_world = mem_empty\<rparr>"

definition mem_schedules :: "nat \<Rightarrow> nat list \<times> bool \<times> nat list" where
  "mem_schedules k = (if even k then (in_order, True, in_reverse) else (in_reverse, False, in_order))"

definition mem_token :: "uuid \<Rightarrow> token_payload" where
  "mem_token i = \<lparr>tp_Aud = [], tp_Exp = 1, tp_Iss = ''identity'', tp_Sub = two_users i,
     tp_TokenUse = ''access_token'', tp_UserID = i\<rparr>"

lemma mem_setup: "stream_setup mem_env mem_cl mem_schedules 20000 20001 mem_operator mem_stream_env {''1'', ''2''} two_users"
proof -
  have cfg: "IngestStandalone (se_config mem_stream_env) = \<lparr>isa_Deployment = ''ingest'', isa_Namespace = ''default'',
       IngestUri = ''http://ingest'', isa_IngestTemplate = ''golang-ingest-template'',
       IngestWebrtcRoute = ''/whep'', IngestHLSRoute = ''/hls''\<rparr>" by (simp add: mem_stream_env_def)
  have U: "two_users ` {''1'', ''2''} = {''alice'', ''bob''}" by (auto simp: two_users_def)
  have "template_ok golang_template" by (simp add: golang_template_def template_ok_def port_name_defs)
  moreover have "inj_on two_users {''1'', ''2''}" "inj nat_str" by (simp_all add: two_users_def inj_on_def)
  ultimately show ?thesis
    unfolding stream_setup_def Let_def cfg U ingest_standalone_config.simps
    using mem_env_laws apps_ok_alice_bob NewPortRange_2
    by (simp add: mem_operator_def mem_stream_env_def mem_schedules_def)
qed

lemma mem_user_token [simp]: "user_token {''1'', ''2''} two_users (mem_token ''1'')" "user_token {''1'', ''2''} two_users (mem_token ''2'')"
  by (simp_all add: user_token_def mem_token_def)


end
