(* ===== verification/StreamWorkers.thy ===== *)
theory StreamWorkers imports StreamLifecycle begin

text \<open>
  The stream service's workers (\<open>internal/workers/ingest\<close>): the status worker records a deployed
  ingest and its egresses, the destroyed worker deletes the record of a destroyed one and notifies.
  A NATS message is its payload; a JetStream message also has the number of its delivery, unless its
  metadata cannot be read.  A handler answers JetStream with an \<open>ack\<close>.
\<close>

section \<open>status\_handler.go\<close>

text \<open>
  The meta is read without a check.  The error of the commit is dropped, like every other one: the
  handler's only answer is what it leaves in the database.
\<close>

definition deployed_tx :: "stream_pg \<Rightarrow> uuid \<Rightarrow> ingest_deployed \<Rightarrow> (sconn, unit) call" where
  "deployed_tx pg broadcasterID req =
     try_call (UpdateDeployedStatusByBroadcasterId pg broadcasterID (Deployed req)) (\<lambda>err. err)
       (\<lambda>activeStream. try_call (InsertManyActiveStreamEgresses pg
            (map (\<lambda>egress. (IngestEgressType_name egress, as_ID activeStream)) (Egresses req))) (\<lambda>err. err)
          (\<lambda>_. return ()))"

definition status_handler ::
  "stream_pg \<Rightarrow> 'w bus \<Rightarrow> (string \<Rightarrow> goerr + uuid) \<Rightarrow> string \<Rightarrow> sconn \<Rightarrow> unit outcome \<times> sconn" where
  "status_handler pg b uuid_parse data c =
     (case DeserializeProtobufMsg_deployed b data of
        Inl err \<Rightarrow> (Ret (), c)
      | Inr req \<Rightarrow>
          (case Deployed_Meta req of
             None \<Rightarrow> (nil_deref, c)
           | Some m \<Rightarrow>
               (case uuid_parse (BroadcasterId m) of
                  Inl err \<Rightarrow> (Ret (), c)
                | Inr broadcasterID \<Rightarrow>
                    (Ret (), snd (in_transaction pg (\<lambda>err. err) (\<lambda>err. err) (deployed_tx pg broadcasterID req) c)))))"

section \<open>destroyed\_handler.go\<close>

datatype ack = Ack | NakWithDelay nat | NoAck

record js_msg =
  jm_NumDelivered :: "nat option"
  jm_Data :: string

definition retry :: nat where "retry = 3"
definition retryInterval :: nat where "retryInterval = 30"

definition destroyed_handler ::
  "stream_pg \<Rightarrow> 'w bus \<Rightarrow> (string \<Rightarrow> goerr + uuid) \<Rightarrow> js_msg \<Rightarrow> sconn \<times> 'w \<Rightarrow> ack outcome \<times> sconn \<times> 'w" where
  "destroyed_handler pg b uuid_parse msg s =
     (let (c, w) = s in
      case jm_NumDelivered msg of
        None \<Rightarrow> (Ret Ack, c, w)
      | Some numDelivered \<Rightarrow>
          if numDelivered > retry then (Ret Ack, c, w)
          else case DeserializeProtobufMsg_destroyed b (jm_Data msg) of
            Inl err \<Rightarrow> (Ret Ack, c, w)
          | Inr req \<Rightarrow>
              (case Destroyed_Meta req of
                 None \<Rightarrow> (nil_deref, c, w)
               | Some m \<Rightarrow>
                   (case uuid_parse (BroadcasterId m) of
                      Inl err \<Rightarrow> (Ret Ack, c, w)
                    | Inr broadcasterID \<Rightarrow>
                        (case DeleteActiveStreamByBroadcasterId pg broadcasterID c of
                           (Inl err, c1) \<Rightarrow> (Ret (NakWithDelay retryInterval), c1, w)
                         | (Inr _, c1) \<Rightarrow>
                             (case nats_Publish b (NewStreamDestroyedNotification broadcasterID) '''' w of
                                (Some err, w1) \<Rightarrow> (Ret NoAck, c1, w1)
                              | (None, w1) \<Rightarrow> (Ret Ack, c1, w1))))))"

text \<open>
  The consumer acknowledges explicitly and sets no limit to the deliveries: a message that is not
  acknowledged, because of the answer or because the handler panicked and the process was started
  again, is delivered once more with the next number.  \<open>others k\<close> is whatever happens to the database and
  the messages between two deliveries.  \<open>None\<close> is a message still unsettled after \<open>fuel\<close> deliveries.
\<close>

fun deliveries ::
  "stream_pg \<Rightarrow> 'w bus \<Rightarrow> (string \<Rightarrow> goerr + uuid) \<Rightarrow> (nat \<Rightarrow> sconn \<times> 'w \<Rightarrow> sconn \<times> 'w) \<Rightarrow> string \<Rightarrow> nat \<Rightarrow> nat
    \<Rightarrow> sconn \<times> 'w \<Rightarrow> (nat \<times> sconn \<times> 'w) option" where
  "deliveries pg b uuid_parse others data 0 k s = None"
| "deliveries pg b uuid_parse others data (Suc fuel) k s =
     (case destroyed_handler pg b uuid_parse \<lparr>jm_NumDelivered = Some k, jm_Data = data\<rparr> s of
        (Ret Ack, s1) \<Rightarrow> Some (k, s1)
      | (_, s1) \<Rightarrow> deliveries pg b uuid_parse others data fuel (k + 1) (others k s1))"

section \<open>Lemmas\<close>

lemma find_unique:
  assumes "distinct (map f xs)" and "x \<in> set xs" and "f x = y"
  shows "find (\<lambda>z. f z = y) xs = Some x"
  using assms by (induction xs) (auto simp: image_iff)

text \<open>What a committed transaction of the status worker did, and what a failed one left.\<close>

lemma update_deployed_found:
  assumes "find (\<lambda>s. as_BroadcasterID s = i) (active_streams db) = Some s"
  shows "update_deployed_stmt i d n db = Inr (s\<lparr>as_Deployed := d\<rparr>,
    db\<lparr>active_streams := map (\<lambda>s. if as_BroadcasterID s = i then s\<lparr>as_Deployed := d\<rparr> else s) (active_streams db)\<rparr>)"
proof -
  have "find (\<lambda>s. as_BroadcasterID s = i) (map (\<lambda>s. if as_BroadcasterID s = i then s\<lparr>as_Deployed := d\<rparr> else s) xs)
      = map_option (\<lambda>s. s\<lparr>as_Deployed := d\<rparr>) (find (\<lambda>s. as_BroadcasterID s = i) xs)" for xs :: "active_stream list"
    by (induction xs) auto
  with assms show ?thesis by (simp add: update_deployed_stmt_def Let_def)
qed

lemma update_deployed_absent:
  assumes "find (\<lambda>s. as_BroadcasterID s = i) (active_streams db) = None"
  shows "update_deployed_stmt i d n db = Inl ErrNoRows"
proof -
  have "find (\<lambda>s. as_BroadcasterID s = i) (map (\<lambda>s. if as_BroadcasterID s = i then s\<lparr>as_Deployed := d\<rparr> else s)
      (active_streams db)) = None"
    using assms by (auto simp: find_None_iff')
  then show ?thesis by (simp add: update_deployed_stmt_def Let_def)
qed

lemma deployed_tx_inv:
  assumes "sdb_inv db" and "deployed_tx pg i req (db, n) = (Inr x, db', n')"
  shows "sdb_inv db'"
proof -
  obtain r c1 where up: "UpdateDeployedStatusByBroadcasterId pg i (Deployed req) (db, n) = (r, c1)" by (rule prod.exhaust)
  show ?thesis
  proof (cases r)
    case (Inl e)
    with up assms(2) show ?thesis by (simp add: deployed_tx_def try_call_def)
  next
    case (Inr s)
    from up [unfolded Inr UpdateDeployedStatusByBroadcasterId_def exec_stmt_Inr] obtain db1 where
      db1: "update_deployed_stmt i (Deployed req) n db = Inr (s, db1)" "c1 = (db1, n + 1)" by blast
    from assms(2) up Inr db1(2) have
      "\<exists>rows. InsertManyActiveStreamEgresses pg (map (\<lambda>e. (IngestEgressType_name e, as_ID s)) (Egresses req)) (db1, n + 1)
         = (Inr rows, db', n')"
      by (auto simp: deployed_tx_def try_call_def return_def split: sum.splits prod.splits)
    then obtain rows where "insert_egresses_stmt pg (map (\<lambda>e. (IngestEgressType_name e, as_ID s)) (Egresses req)) (n + 1) db1
         = Inr (rows, db')"
      by (auto simp: InsertManyActiveStreamEgresses_def exec_stmt_Inr)
    from insert_egresses_inv [OF update_deployed_inv [OF assms(1) db1(1)] this] show ?thesis .
  qed
qed

lemma status_handler_inv:
  assumes "sdb_inv db" and "status_handler pg b parse data (db, n) = (r, db', n')"
  shows "sdb_inv db'"
proof -
  consider "db' = db" | i req x where "in_transaction pg (\<lambda>err. err) (\<lambda>err. err) (deployed_tx pg i req) (db, n) = (x, db', n')"
    using assms(2) by (auto simp: status_handler_def split: sum.splits option.splits) (metis prod.collapse)
  then show ?thesis
  proof cases
    case (2 i req x)
    show ?thesis
    proof (cases x)
      case (Inl e)
      from in_transaction_Inl [OF 2 [unfolded this]] assms(1) show ?thesis by simp
    next
      case (Inr u)
      with 2 have "\<exists>n1. deployed_tx pg i req (db, n + 1) = (Inr u, db', n1)"
        by (auto simp: in_transaction_Inr)
      with deployed_tx_inv [OF assms(1)] show ?thesis by blast
    qed
  qed (use assms(1) in simp)
qed

end
