(* ===== verification/StreamMessages.thy ===== *)
theory StreamMessages imports StreamWorkers "HOL-Library.Multiset" begin

text \<open>
  What the messages about ingests do to the records of streams: the effect of a deployed message, the
  order of a start and its message, the settling of a destroyed message, and the destroyed message of a
  restart.
\<close>

section \<open>The deployed message\<close>

definition set_deployed :: "uuid \<Rightarrow> bool \<Rightarrow> active_stream list \<Rightarrow> active_stream list" where
  "set_deployed i d = map (\<lambda>s. if as_BroadcasterID s = i then s\<lparr>as_Deployed := d\<rparr> else s)"

lemma set_deployed_ids [simp]: "as_ID ` set (set_deployed i d xs) = as_ID ` set xs"
proof -
  have "map as_ID (set_deployed i d xs) = map as_ID xs" by (simp add: set_deployed_def)
  then show ?thesis by (metis set_map)
qed

definition message_rows :: "stream_pg \<Rightarrow> nat \<Rightarrow> ingest_deployed \<Rightarrow> active_stream \<Rightarrow> egress_row list" where
  "message_rows pg n req s = egress_rows pg n (map (\<lambda>e. (IngestEgressType_name e, as_ID s)) (Egresses req))"

definition rows_ok :: "ingest_deployed \<Rightarrow> sdb \<Rightarrow> egress_row list \<Rightarrow> bool" where
  "rows_ok req db rows \<longleftrightarrow> Egresses req \<noteq> [] \<and> set (Egresses req) \<subseteq> {STREAM_TYPE_HLS, STREAM_TYPE_WEBRTC}
     \<and> distinct (map eg_ID (stream_egresses db @ rows))"

lemma egress_enum_name: "IngestEgressType_name e \<in> set egress_enum \<longleftrightarrow> e \<in> {STREAM_TYPE_HLS, STREAM_TYPE_WEBRTC}"
  by (simp add: IngestEgressType_name_def egress_enum_def STREAM_TYPE_HLS_def STREAM_TYPE_WEBRTC_def
      STREAM_TYPE_UNSPECIFIED_def)

lemma egress_rows_stream: "e \<in> set (egress_rows pg n es) \<Longrightarrow> \<exists>t. (t, eg_ActiveStreamID e) \<in> set es"
  by (auto simp: egress_rows_def in_set_enumerate_eq) (metis nth_mem)

lemma insert_message_rows:
  fixes req :: ingest_deployed
  assumes "as_ID s \<in> as_ID ` set (active_streams db)"
  defines "es \<equiv> map (\<lambda>e. (IngestEgressType_name e, as_ID s)) (Egresses req)"
  shows "rows_ok req db (message_rows pg n req s) \<Longrightarrow> insert_egresses_stmt pg es n db
      = Inr (message_rows pg n req s, db\<lparr>stream_egresses := stream_egresses db @ message_rows pg n req s\<rparr>)"
    and "\<not> rows_ok req db (message_rows pg n req s) \<Longrightarrow> \<exists>e. insert_egresses_stmt pg es n db = Inl e"
proof -
  have types: "find (\<lambda>(t, _). t \<notin> set egress_enum) es = None
      \<longleftrightarrow> set (Egresses req) \<subseteq> {STREAM_TYPE_HLS, STREAM_TYPE_WEBRTC}"
    unfolding find_None_iff' es_def by (auto simp: egress_enum_name)
  have "eg_ActiveStreamID e = as_ID s" if "e \<in> set (message_rows pg n req s)" for e
    using egress_rows_stream [of e pg n es] that by (auto simp: message_rows_def es_def)
  then have fk: "eg_ActiveStreamID ` set (message_rows pg n req s) \<subseteq> as_ID ` set (active_streams db)"
    using assms(1) by auto
  have nil: "es = [] \<longleftrightarrow> Egresses req = []" by (simp add: es_def)
  have rows: "egress_rows pg n es = message_rows pg n req s" by (simp add: message_rows_def es_def)
  show "rows_ok req db (message_rows pg n req s) \<Longrightarrow> insert_egresses_stmt pg es n db
      = Inr (message_rows pg n req s, db\<lparr>stream_egresses := stream_egresses db @ message_rows pg n req s\<rparr>)"
    using types fk by (simp add: insert_egresses_stmt_def rows_ok_def rows nil Let_def)
  show "\<not> rows_ok req db (message_rows pg n req s) \<Longrightarrow> \<exists>e. insert_egresses_stmt pg es n db = Inl e"
    using types fk by (cases "find (\<lambda>(t, _). t \<notin> set egress_enum) es")
      (auto simp: insert_egresses_stmt_def rows_ok_def rows nil Let_def)
qed

lemma status_effect:
  assumes "\<And>k. pg_fault pg k = None" and "pb_Unmarshal_deployed b data = Inr req"
    and "Deployed_Meta req = Some m" and "parse (BroadcasterId m) = Inr i"
  shows "status_handler pg b parse data (db, n) =
    (case find (\<lambda>s. as_BroadcasterID s = i) (active_streams db) of
       None \<Rightarrow> (Ret (), db, n + 2)
     | Some s \<Rightarrow>
         if rows_ok req db (message_rows pg (n + 2) req s)
         then (Ret (), db\<lparr>active_streams := set_deployed i (Deployed req) (active_streams db),
             stream_egresses := stream_egresses db @ message_rows pg (n + 2) req s\<rparr>, n + 4)
         else (Ret (), db, n + 3))"
proof (cases "find (\<lambda>s. as_BroadcasterID s = i) (active_streams db)")
  case None
  from update_deployed_absent [OF this] show ?thesis using assms None
    by (simp add: status_handler_def DeserializeProtobufMsg_deployed_def in_transaction_def deployed_tx_def
        try_call_def UpdateDeployedStatusByBroadcasterId_def exec_stmt_def)
next
  case (Some s)
  let ?db1 = "db\<lparr>active_streams := set_deployed i (Deployed req) (active_streams db)\<rparr>"
  let ?s1 = "s\<lparr>as_Deployed := Deployed req\<rparr>"
  have up: "update_deployed_stmt i (Deployed req) (n + 1) db = Inr (?s1, ?db1)"
    using update_deployed_found [OF Some, of "Deployed req" "n + 1"] by (simp add: set_deployed_def)
  have "s \<in> set (active_streams db)" using Some by (auto dest: find_SomeD)
  then have "as_ID ?s1 \<in> as_ID ` set (active_streams ?db1)"
    by (simp add: set_deployed_ids)
  note ins = insert_message_rows [OF this, where pg = pg and req = req and n = "n + 2"]
  have rows: "message_rows pg (n + 2) req ?s1 = message_rows pg (n + 2) req s"
    "rows_ok req ?db1 rs = rows_ok req db rs" for rs by (simp_all add: message_rows_def rows_ok_def)
  show ?thesis
  proof (cases "rows_ok req db (message_rows pg (n + 2) req s)")
    case True
    with ins rows show ?thesis using assms Some up
      by (simp add: status_handler_def DeserializeProtobufMsg_deployed_def in_transaction_def deployed_tx_def
        try_call_def UpdateDeployedStatusByBroadcasterId_def InsertManyActiveStreamEgresses_def exec_stmt_def return_def)
  next
    case False
    with ins rows obtain e where "insert_egresses_stmt pg (map (\<lambda>e. (IngestEgressType_name e, as_ID s)) (Egresses req))
        (n + 2) ?db1 = Inl e" by auto
    with False show ?thesis using assms Some up
      by (simp add: status_handler_def DeserializeProtobufMsg_deployed_def in_transaction_def deployed_tx_def
        try_call_def UpdateDeployedStatusByBroadcasterId_def InsertManyActiveStreamEgresses_def exec_stmt_def)
  qed
qed

section \<open>The destroyed message\<close>

lemma delete_stream_eq:
  "DeleteActiveStreamByBroadcasterId pg i (db, n) =
    (case pg_fault pg n of
       Some e \<Rightarrow> (Inl e, db, n + 1)
     | None \<Rightarrow> (Inr (), db\<lparr>active_streams := filter (\<lambda>s. as_BroadcasterID s \<noteq> i) (active_streams db),
         stream_egresses := filter (\<lambda>e. eg_ActiveStreamID e \<notin>
           as_ID ` set (filter (\<lambda>s. as_BroadcasterID s = i) (active_streams db))) (stream_egresses db)\<rparr>, n + 1))"
  by (simp add: DeleteActiveStreamByBroadcasterId_def exec_stmt_def delete_stream_stmt_def Let_def split: option.split)

lemma destroyed_last: "k > retry \<Longrightarrow> destroyed_handler pg b parse \<lparr>jm_NumDelivered = Some k, jm_Data = data\<rparr> s = (Ret Ack, s)"
  by (simp add: destroyed_handler_def split: prod.split)

lemma deliveries_settle:
  assumes "k + fuel = 5" and "0 < fuel"
  shows "\<exists>j s'. deliveries pg b parse others data fuel k s = Some (j, s') \<and> k \<le> j \<and> j \<le> 4"
  using assms
proof (induction fuel arbitrary: k s)
  case (Suc fuel)
  obtain r s1 where run: "destroyed_handler pg b parse \<lparr>jm_NumDelivered = Some k, jm_Data = data\<rparr> s = (r, s1)"
    by (rule prod.exhaust)
  show ?case
  proof (cases "fuel = 0")
    case True
    with Suc.prems have "k > retry" by (simp add: retry_def)
    then show ?thesis using Suc.prems True by (simp add: destroyed_last)
  next
    case False
    with Suc.IH [of "k + 1" "others k s1"] Suc.prems obtain j s' where
      "deliveries pg b parse others data fuel (k + 1) (others k s1) = Some (j, s')" "k + 1 \<le> j" "j \<le> 4" by auto
    with run Suc.prems False show ?thesis 
      by (cases s', cases r rule: outcome.exhaust; cases "r = Ret Ack") (auto split: ack.split)
  qed
qed simp

section \<open>The standalone controller\<close>

text \<open>The stub in place of the generated client.  It panics only for a request without meta, which the
  stream service does not make; the panic of a request's goroutine ends as an error here.\<close>

definition stub_controller :: "'w bus \<Rightarrow> stream_system_config \<Rightarrow> 'w controller" where
  "stub_controller b config =
     \<lparr>ctl_StartServer = (\<lambda>req w. case Stub_StartServer b config req w of
          (Ret r, w1) \<Rightarrow> (r, w1) | (Panic m, w1) \<Rightarrow> (Inl (GoErr m), w1)),
      ctl_StopServer = (\<lambda>req w. case Stub_StopServer b req w of
          (Ret r, w1) \<Rightarrow> (r, w1) | (Panic m, w1) \<Rightarrow> (Inl (GoErr m), w1))\<rparr>"

definition WithIngestOperatorClient ::
  "'w bus \<Rightarrow> stream_system_config \<Rightarrow> 'w controller \<Rightarrow> 'w controller" where
  "WithIngestOperatorClient b config client = (if Standalone config then stub_controller b config else client)"

definition stub_message :: "token_payload \<Rightarrow> ingest_deployed" where
  "stub_message token = \<lparr>Deployed = True,
     Deployed_Meta = Some \<lparr>BroadcasterId = tp_UserID token, Username = tp_Sub token\<rparr>,
     Egresses = [STREAM_TYPE_WEBRTC, STREAM_TYPE_HLS]\<rparr>"

text \<open>The stream of the token can be recorded, and the database makes ids that are not in use.\<close>

definition can_start :: "stream_env \<Rightarrow> token_payload \<Rightarrow> sdb \<Rightarrow> bool" where
  "can_start E token db \<longleftrightarrow> (let ns = isa_Namespace (IngestStandalone (se_config E)) in
     length (tp_Sub token) \<le> 30 \<and> length ns \<le> 50
   \<and> tp_UserID token \<notin> as_BroadcasterID ` set (active_streams db) \<and> tp_Sub token \<notin> as_Username ` set (active_streams db)
   \<and> tp_Sub token \<notin> as_Deployment ` set (active_streams db)
   \<and> (\<forall>k. pg_uuid (se_pg E) k \<notin> as_ID ` set (active_streams db) \<and> inj (pg_row_uuid (se_pg E) k))
   \<and> (\<forall>k i. pg_row_uuid (se_pg E) k i \<notin> eg_ID ` set (stream_egresses db)))"

definition new_row :: "stream_env \<Rightarrow> token_payload \<Rightarrow> nat \<Rightarrow> active_stream" where
  "new_row E token n = \<lparr>as_ID = pg_uuid (se_pg E) n, as_Running = False, as_Deployed = False,
     as_BroadcasterID = tp_UserID token, as_Username = tp_Sub token,
     as_Namespace = isa_Namespace (IngestStandalone (se_config E)), as_Deployment = tp_Sub token\<rparr>"

lemma new_row_simps [simp]:
  "as_ID (new_row E token n) = pg_uuid (se_pg E) n" "as_BroadcasterID (new_row E token n) = tp_UserID token"
  "as_Username (new_row E token n) = tp_Sub token"
  by (simp_all add: new_row_def)

lemma standalone_start:
  assumes "can_start E token db" and "\<And>k. pg_fault (se_pg E) k = None"
    and "Standalone (se_config E)"
  shows "\<exists>w'. StartIngestServer E (WithIngestOperatorClient b (se_config E) client) token ((db, n), w)
    = (None, (db\<lparr>active_streams := active_streams db @ [new_row E token n]\<rparr>, n + 1), w')"
  using assms
  by (auto simp: StartIngestServer_def WithIngestOperatorClient_def stub_controller_def Stub_StartServer_def token_meta_def
      can_start_def new_row_def InsertActiveStream_def exec_stmt_def insert_stream_stmt_def Let_def split: prod.split)

lemma GetActiveStream_listed:
  assumes "filter (\<lambda>s. has_egress db s \<and> as_Username s = u) (active_streams db) = [s]"
    and "Standalone (se_config E)" and "\<And>k. pg_fault (se_pg E) k = None"
  shows "GetActiveStream E u (db, n) = (Inr \<lparr>sr_ID = as_ID s, sr_User = as_Username s,
     sr_Egresses = map (\<lambda>e. egress_route (se_config E) (eg_ID e, eg_Type e))
       (pg_agg (se_pg E) n (filter (\<lambda>e. eg_ActiveStreamID e = as_ID s) (stream_egresses db)))\<rparr>, db, n + 1)"
  using assms by (simp add: GetActiveStream_def GetActiveStreamByUsername_def exec_stmt_def try_call_def lift_def
      getEgressesRoutes_def running_stream_of_def return_def comp_def)

lemma GetActiveStream_unlisted:
  assumes "filter (\<lambda>s. has_egress db s \<and> as_Username s = u) (active_streams db) = []"
    and "\<And>k. pg_fault (se_pg E) k = None"
  shows "GetActiveStream E u (db, n) = (Inl NotFoundGetActiveStreamError, db, n + 1)"
  using assms by (simp add: GetActiveStream_def GetActiveStreamByUsername_def exec_stmt_def try_call_def
      ErrNoRows_def has_prefix_def)

lemma stub_message_effect:
  assumes "\<And>k. pg_fault pg k = None" and "pb_laws b" and "pb_Marshal b (MDeployed (stub_message token)) = Inr bytes"
    and "parse (tp_UserID token) = Inr (tp_UserID token)"
  shows "status_handler pg b parse bytes (db, n) =
    (case find (\<lambda>s. as_BroadcasterID s = tp_UserID token) (active_streams db) of
       None \<Rightarrow> (Ret (), db, n + 2)
     | Some s \<Rightarrow>
         if rows_ok (stub_message token) db (message_rows pg (n + 2) (stub_message token) s)
         then (Ret (), db\<lparr>active_streams := set_deployed (tp_UserID token) True (active_streams db),
             stream_egresses := stream_egresses db @ message_rows pg (n + 2) (stub_message token) s\<rparr>, n + 4)
         else (Ret (), db, n + 3))"
proof -
  have "pb_Unmarshal_deployed b bytes = Inr (stub_message token)" using assms(2,3) by (simp add: pb_laws_def)
  from status_effect [where parse = parse and i = "tp_UserID token", OF assms(1) this, of _ db n] assms(4)
  have "status_handler pg b parse bytes (db, n) = (case find (\<lambda>s. as_BroadcasterID s = tp_UserID token) (active_streams db) of
       None \<Rightarrow> (Ret (), db, n + 2)
     | Some s \<Rightarrow>
         if rows_ok (stub_message token) db (message_rows pg (n + 2) (stub_message token) s)
         then (Ret (), db\<lparr>active_streams := set_deployed (tp_UserID token) (Deployed (stub_message token)) (active_streams db),
             stream_egresses := stream_egresses db @ message_rows pg (n + 2) (stub_message token) s\<rparr>, n + 4)
         else (Ret (), db, n + 3))" by (simp add: stub_message_def)
  moreover have "Deployed (stub_message token) = True" by (simp add: stub_message_def)
  ultimately show ?thesis by (simp only:)
qed

lemma can_start_facts:
  assumes "can_start E token db" and "sdb_inv db"
  shows "x \<in> set (active_streams db) \<Longrightarrow> as_BroadcasterID x \<noteq> tp_UserID token"
    and "x \<in> set (active_streams db) \<Longrightarrow> as_Username x \<noteq> tp_Sub token"
    and "inj (pg_row_uuid (se_pg E) k)" "e \<in> set (stream_egresses db) \<Longrightarrow> eg_ID e \<noteq> pg_row_uuid (se_pg E) k i"
    and "e \<in> set (stream_egresses db) \<Longrightarrow> eg_ActiveStreamID e \<noteq> pg_uuid (se_pg E) k"
proof -
  show "x \<in> set (active_streams db) \<Longrightarrow> as_BroadcasterID x \<noteq> tp_UserID token"
    "x \<in> set (active_streams db) \<Longrightarrow> as_Username x \<noteq> tp_Sub token"
    "inj (pg_row_uuid (se_pg E) k)" "e \<in> set (stream_egresses db) \<Longrightarrow> eg_ID e \<noteq> pg_row_uuid (se_pg E) k i"
    using assms(1) unfolding can_start_def Let_def by (metis imageI)+
  have "pg_uuid (se_pg E) k \<notin> as_ID ` set (active_streams db)" using assms(1) by (simp add: can_start_def Let_def)
  then show "e \<in> set (stream_egresses db) \<Longrightarrow> eg_ActiveStreamID e \<noteq> pg_uuid (se_pg E) k"
    using assms(2) unfolding sdb_inv_def list_all_iff by metis
qed

lemma find_snoc: "find P xs = None \<Longrightarrow> P y \<Longrightarrow> find P (xs @ [y]) = Some y"
  by (induction xs) (auto split: if_splits)

lemma early_message_lost:
  assumes "can_start E token db" and "sdb_inv db" and nf: "\<And>k. pg_fault (se_pg E) k = None"
    and "Standalone (se_config E)"
    and "pb_laws b" and "pb_Marshal b (MDeployed (stub_message token)) = Inr bytes"
    and "parse (tp_UserID token) = Inr (tp_UserID token)"
  shows "\<exists>c w1 c'. StartIngestServer E (WithIngestOperatorClient b (se_config E) client) token
        (snd (status_handler (se_pg E) b parse bytes (db, n)), w) = (None, c, w1)
      \<and> GetActiveStream E (tp_Sub token) c = (Inl NotFoundGetActiveStreamError, c')"
proof -
  note facts = can_start_facts [OF assms(1,2)]
  let ?db1 = "db\<lparr>active_streams := active_streams db @ [new_row E token (n + 2)]\<rparr>"
  have none: "filter (\<lambda>s. has_egress ?db1 s \<and> as_Username s = tp_Sub token) (active_streams ?db1) = []"
    using facts(2) facts(5) [symmetric] by (auto simp: has_egress_def new_row_def filter_empty_conv)
  have "find (\<lambda>s. as_BroadcasterID s = tp_UserID token) (active_streams db) = None"
    using facts(1) by (auto simp: find_None_iff')
  then have "status_handler (se_pg E) b parse bytes (db, n) = (Ret (), db, n + 2)"
    by (simp add: stub_message_effect [where parse = parse and b = b and pg = "se_pg E", OF nf assms(5-7)])
  with standalone_start [OF assms(1) nf assms(4), of b client "n + 2" w]
    GetActiveStream_unlisted [OF none nf, of "n + 2 + 1"] show ?thesis by auto
qed

lemma late_message_listed:
  assumes "can_start E token db" and "sdb_inv db" and nf: "\<And>k. pg_fault (se_pg E) k = None"
    and "Standalone (se_config E)" and "\<And>k es. mset (pg_agg (se_pg E) k es) = mset es"
    and "pb_laws b" and "pb_Marshal b (MDeployed (stub_message token)) = Inr bytes"
    and "parse (tp_UserID token) = Inr (tp_UserID token)"
    and "cfg = IngestStandalone (se_config E)"
  shows "\<exists>c w1 es c'. StartIngestServer E (WithIngestOperatorClient b (se_config E) client) token ((db, n), w)
        = (None, c, w1)
      \<and> GetActiveStream E (tp_Sub token) (snd (status_handler (se_pg E) b parse bytes c))
        = (Inr \<lparr>sr_ID = pg_uuid (se_pg E) n, sr_User = tp_Sub token, sr_Egresses = es\<rparr>, c')
      \<and> mset (map er_Route es) = {# IngestUri cfg @ IngestWebrtcRoute cfg, IngestUri cfg @ IngestHLSRoute cfg #}"
proof -
  note facts = can_start_facts [OF assms(1,2)]
  let ?row = "new_row E token n" let ?db1 = "db\<lparr>active_streams := active_streams db @ [?row]\<rparr>"
  let ?id = "pg_uuid (se_pg E) n"
  let ?rows = "message_rows (se_pg E) (n + 3) (stub_message token) ?row"
  let ?db2 = "?db1\<lparr>active_streams := set_deployed (tp_UserID token) True (active_streams ?db1), stream_egresses := stream_egresses db @ ?rows\<rparr>"
  from standalone_start [OF assms(1) nf assms(4), of b client n w] obtain w1 where
    st: "StartIngestServer E (WithIngestOperatorClient b (se_config E) client) token ((db, n), w) = (None, (?db1, n + 1), w1)"
    by auto
  have rows: "?rows = [\<lparr>eg_ID = pg_row_uuid (se_pg E) (n + 3) 0, eg_ActiveStreamID = ?id, eg_Type = ''STREAM_TYPE_WEBRTC''\<rparr>,
      \<lparr>eg_ID = pg_row_uuid (se_pg E) (n + 3) 1, eg_ActiveStreamID = ?id, eg_Type = ''STREAM_TYPE_HLS''\<rparr>]"
    by (simp add: message_rows_def egress_rows_def stub_message_def new_row_def IngestEgressType_name_def
        STREAM_TYPE_HLS_def STREAM_TYPE_WEBRTC_def STREAM_TYPE_UNSPECIFIED_def)
  have unused: "pg_row_uuid (se_pg E) k i \<notin> eg_ID ` set (stream_egresses db)" for k i
    using facts(4) by (metis imageE)
  have "find (\<lambda>s. as_BroadcasterID s = tp_UserID token) (active_streams ?db1) = Some ?row"
    using facts(1) by (auto simp: new_row_def find_None_iff' intro!: find_snoc)
  moreover have "rows_ok (stub_message token) ?db1 ?rows"
    using facts(3) [of "n + 3"] unused assms(2) unfolding rows_ok_def rows
    by (simp add: stub_message_def sdb_inv_def inj_eq)
  ultimately have h: "status_handler (se_pg E) b parse bytes (?db1, n + 1) = (Ret (), ?db2, n + 5)"
    by (simp add: numeral_3_eq_3 stub_message_effect [where parse = parse and b = b and pg = "se_pg E", OF nf assms(6-8)])
  have old: "filter (\<lambda>e. eg_ActiveStreamID e = ?id) (stream_egresses db) = []" using facts(5) by (auto simp: filter_empty_conv)
  have "filter (\<lambda>s. has_egress ?db2 s \<and> as_Username s = tp_Sub token) (active_streams ?db2) = [?row\<lparr>as_Deployed := True\<rparr>]"
  proof -
    have "filter (\<lambda>s. has_egress ?db2 s \<and> as_Username s = tp_Sub token) (set_deployed (tp_UserID token) True (active_streams db)) = []"
      using facts(2) by (auto simp: filter_empty_conv set_deployed_def)
    then show ?thesis by (simp add: set_deployed_def has_egress_def rows)
  qed
  from GetActiveStream_listed [OF this assms(4) nf, of "n + 5"] have
    get: "GetActiveStream E (tp_Sub token) (?db2, n + 5) = (Inr \<lparr>sr_ID = ?id, sr_User = tp_Sub token,
      sr_Egresses = map (\<lambda>e. egress_route (se_config E) (eg_ID e, eg_Type e)) (pg_agg (se_pg E) (n + 5) ?rows)\<rparr>, ?db2, n + 6)"
    by (simp add: old filter_True rows)
  have "mset (map (\<lambda>e. er_Route (egress_route (se_config E) (eg_ID e, eg_Type e))) (pg_agg (se_pg E) (n + 5) ?rows))
      = image_mset (\<lambda>e. er_Route (egress_route (se_config E) (eg_ID e, eg_Type e))) (mset ?rows)"
    using assms(5) by (simp only: mset_map)
  also have "\<dots> = {# IngestUri cfg @ IngestWebrtcRoute cfg, IngestUri cfg @ IngestHLSRoute cfg #}"
    by (simp add: rows egress_route_def Let_def assms(9) StreamEgressType_value_def STREAM_TYPE_HLS_def STREAM_TYPE_WEBRTC_def)
  finally have "mset (map er_Route (map (\<lambda>e. egress_route (se_config E) (eg_ID e, eg_Type e)) (pg_agg (se_pg E) (n + 5) ?rows)))
      = {# IngestUri cfg @ IngestWebrtcRoute cfg, IngestUri cfg @ IngestHLSRoute cfg #}"
    by (simp only: map_map comp_def)
  moreover have "GetActiveStream E (tp_Sub token) (snd (status_handler (se_pg E) b parse bytes (?db1, n + 1))) =
      (Inr \<lparr>sr_ID = ?id, sr_User = tp_Sub token,
        sr_Egresses = map (\<lambda>e. egress_route (se_config E) (eg_ID e, eg_Type e)) (pg_agg (se_pg E) (n + 5) ?rows)\<rparr>, ?db2, n + 6)"
    unfolding h snd_conv by (rule get)
  ultimately show ?thesis using st by blast
qed

section \<open>Properties\<close>

text \<open>C27: a message that an ingest was destroyed settles: whatever the message holds, even one that makes
  the handler panic, whatever fails and whatever else happens between its deliveries, it is
  acknowledged at its fourth delivery at the latest.\<close>

theorem destroyed_message_settles:
  "\<exists>k s'. deliveries pg b parse others data (retry + 1) 1 s = Some (k, s') \<and> 1 \<le> k \<and> k \<le> retry + 1"
  using deliveries_settle [of 1 4 pg b parse others data s] by (simp add: retry_def)

text \<open>What a deployed message for a known broadcaster does, without database faults: it sets the
  deployed status of the broadcaster's stream and adds one egress row for each egress it names, or does
  nothing at all if there is no such stream, if it names no egress or one of another type, or if an id
  is taken; the schema's constraints are kept.\<close>

theorem deployed_message_effect:
  assumes "\<forall>k. pg_fault pg k = None" and "pb_Unmarshal_deployed b data = Inr req"
    and "Deployed_Meta req = Some m" and "parse (BroadcasterId m) = Inr i" and "sdb_inv db"
  shows "\<exists>db' n'. status_handler pg b parse data (db, n) = (Ret (), db', n') \<and> sdb_inv db'
    \<and> db' = (case find (\<lambda>s. as_BroadcasterID s = i) (active_streams db) of
         None \<Rightarrow> db
       | Some s \<Rightarrow> if rows_ok req db (message_rows pg (n + 2) req s)
           then db\<lparr>active_streams := set_deployed i (Deployed req) (active_streams db),
             stream_egresses := stream_egresses db @ message_rows pg (n + 2) req s\<rparr>
           else db)"
proof -
  obtain r db' n' where run: "status_handler pg b parse data (db, n) = (r, db', n')" by (metis prod.exhaust)
  have "pg_fault pg k = None" for k using assms(1) by blast
  from status_effect [where parse = parse and i = i, OF this assms(2-4), of db n] run status_handler_inv [OF assms(5) run]
  show ?thesis by (auto split: option.splits if_splits)
qed

text \<open>C25: in standalone mode the controller announces the ingest before the start is recorded, and the
  order in which the two are handled decides whether anyone can watch: handled after the start, the
  message makes the stream one that is found under its user's name with the two routes of its egresses;
  handled before it, the message is lost, the start succeeds all the same and the stream is not found.\<close>

theorem deployed_message_order:
  assumes "can_start E token db" and "sdb_inv db" and "\<forall>k. pg_fault (se_pg E) k = None"
    and "Standalone (se_config E)" and "\<forall>k es. mset (pg_agg (se_pg E) k es) = mset es"
    and "pb_laws b" and "pb_Marshal b (MDeployed (stub_message token)) = Inr bytes"
    and "parse (tp_UserID token) = Inr (tp_UserID token)"
    and "cfg = IngestStandalone (se_config E)"
  shows "(\<exists>c w1 es c'. StartIngestServer E (WithIngestOperatorClient b (se_config E) client) token ((db, n), w)
        = (None, c, w1)
      \<and> GetActiveStream E (tp_Sub token) (snd (status_handler (se_pg E) b parse bytes c))
        = (Inr \<lparr>sr_ID = pg_uuid (se_pg E) n, sr_User = tp_Sub token, sr_Egresses = es\<rparr>, c')
      \<and> mset (map er_Route es) = {# IngestUri cfg @ IngestWebrtcRoute cfg, IngestUri cfg @ IngestHLSRoute cfg #})
    \<and> (\<exists>c w1 c'. StartIngestServer E (WithIngestOperatorClient b (se_config E) client) token
        (snd (status_handler (se_pg E) b parse bytes (db, n)), w) = (None, c, w1)
      \<and> GetActiveStream E (tp_Sub token) c = (Inl NotFoundGetActiveStreamError, c'))"
  using late_message_listed [where parse = parse, OF assms(1,2) spec [OF assms(3)] assms(4) spec [OF spec [OF assms(5)]] assms(6-9), of client n w]
    early_message_lost [where parse = parse, OF assms(1,2) spec [OF assms(3)] assms(4,6-8), of client n w] by blast

text \<open>A database, a bus and a standalone configuration for the witnesses.\<close>

definition one_bus :: "ingest_deployed \<Rightarrow> ingest_destroyed \<Rightarrow> (string \<times> string) list bus" where
  "one_bus dep des =
     \<lparr>pb_Marshal = (\<lambda>m. if m = MDeployed dep then Inr ''deployed'' else if m = MDestroyed des then Inr ''destroyed''
          else Inl (GoErr ''proto'')),
      pb_Unmarshal_deployed = (\<lambda>s. if s = ''deployed'' then Inr dep else Inl (GoErr ''proto'')),
      pb_Unmarshal_destroyed = (\<lambda>s. if s = ''destroyed'' then Inr des else Inl (GoErr ''proto'')),
      nats_Publish = (\<lambda>s m w. (None, (s, m) # w)), js_PublishMsg = (\<lambda>s m w. (None, (s, m) # w))\<rparr>"

lemma one_bus_laws [simp]: "pb_laws (one_bus dep des)"
  by (simp add: pb_laws_def one_bus_def)

definition destroyed_of :: "token_payload \<Rightarrow> ingest_destroyed" where
  "destroyed_of token = \<lparr>Destroyed = True,
     Destroyed_Meta = Some \<lparr>BroadcasterId = tp_UserID token, Username = tp_Sub token\<rparr>\<rparr>"

definition standalone_env :: stream_env where
  "standalone_env = mem_stream_env\<lparr>se_config := (se_config mem_stream_env)\<lparr>Standalone := True\<rparr>\<rparr>"

definition bob_db :: sdb where
  "bob_db = \<lparr>active_streams = [\<lparr>as_ID = ''bob-stream'', as_Running = False, as_Deployed = False, as_BroadcasterID = ''2'',
     as_Username = ''bob'', as_Namespace = ''default'', as_Deployment = ''bob''\<rparr>], stream_egresses = []\<rparr>"

lemma nat_str_small: "nat_str 0 = ''0''" "nat_str 1 = ''1''" "nat_str (Suc 0) = ''1''" "nat_str 2 = ''2''" "nat_str (Suc (Suc 0)) = ''2''"
  by code_simp+

definition alice_db :: sdb where
  "alice_db = \<lparr>active_streams = [\<lparr>as_ID = ''alice-stream'', as_Running = False, as_Deployed = True, as_BroadcasterID = ''1'',
     as_Username = ''alice'', as_Namespace = ''default'', as_Deployment = ''alice''\<rparr>], stream_egresses = []\<rparr>"

lemma bob_db_inv: "sdb_inv bob_db"
  by (simp add: sdb_inv_def bob_db_def)

abbreviation "bob_bus \<equiv> one_bus (stub_message (mem_token ''2'')) (destroyed_of (mem_token ''2''))"
abbreviation "bob_stream \<equiv> hd (active_streams bob_db)"

lemma bob_message:
  shows "pg_fault (se_pg standalone_env) k = None"
    and "pb_Unmarshal_deployed bob_bus ''deployed'' = Inr (stub_message (mem_token ''2''))"
    and "pb_Unmarshal_destroyed bob_bus ''destroyed'' = Inr (destroyed_of (mem_token ''2''))"
    and "Deployed_Meta (stub_message (mem_token ''2'')) = Some \<lparr>BroadcasterId = ''2'', Username = ''bob''\<rparr>"
    and "find (\<lambda>s. as_BroadcasterID s = ''2'') (active_streams bob_db) = Some bob_stream"
    and "message_rows (se_pg standalone_env) (0 + 2) (stub_message (mem_token ''2'')) bob_stream
      = [\<lparr>eg_ID = ''2.0'', eg_ActiveStreamID = ''bob-stream'', eg_Type = ''STREAM_TYPE_WEBRTC''\<rparr>,
         \<lparr>eg_ID = ''2.1'', eg_ActiveStreamID = ''bob-stream'', eg_Type = ''STREAM_TYPE_HLS''\<rparr>]" (is ?rows)
    and "rows_ok (stub_message (mem_token ''2'')) bob_db
      (message_rows (se_pg standalone_env) (0 + 2) (stub_message (mem_token ''2'')) bob_stream)"
proof -
  have uuids: "pg_row_uuid (se_pg standalone_env) = (\<lambda>n i. nat_str n @ CHR ''.'' # nat_str i)"
    by (simp add: standalone_env_def mem_stream_env_def)
  show rows: ?rows
    by (simp add: message_rows_def egress_rows_def stub_message_def IngestEgressType_name_def uuids bob_db_def
        nat_str_small STREAM_TYPE_HLS_def STREAM_TYPE_WEBRTC_def STREAM_TYPE_UNSPECIFIED_def)
  show "rows_ok (stub_message (mem_token ''2'')) bob_db
      (message_rows (se_pg standalone_env) (0 + 2) (stub_message (mem_token ''2'')) bob_stream)"
    unfolding rows_ok_def rows by (simp add: bob_db_def stub_message_def)
qed (simp_all add: standalone_env_def mem_stream_env_def one_bus_def stub_message_def mem_token_def two_users_def bob_db_def)

theorem deployed_message_effect_witness:
  "\<exists>db' n'. status_handler (se_pg standalone_env) bob_bus Inr ''deployed'' (bob_db, 0) = (Ret (), db', n') \<and> sdb_inv db'
    \<and> map as_Deployed (active_streams db') = [True] \<and> map eg_Type (stream_egresses db') = [''STREAM_TYPE_WEBRTC'', ''STREAM_TYPE_HLS'']"
proof -
  let ?m = "stub_message (mem_token ''2'')" let ?pg = "se_pg standalone_env"
  have pg: "\<forall>k. pg_fault ?pg k = None" by (simp add: bob_message(1))
  from deployed_message_effect [of ?pg bob_bus "''deployed''" ?m _ Inr "''2''" bob_db 0, OF pg bob_message(2,4) _ bob_db_inv]
  obtain db' n' where "status_handler ?pg bob_bus Inr ''deployed'' (bob_db, 0) = (Ret (), db', n')" "sdb_inv db'"
    "db' = bob_db\<lparr>active_streams := set_deployed ''2'' (Deployed ?m) (active_streams bob_db),
       stream_egresses := stream_egresses bob_db @ message_rows ?pg (0 + 2) ?m bob_stream\<rparr>"
    unfolding bob_message(5) option.case using bob_message(7) by auto
  then show ?thesis unfolding bob_message(6)
    by (intro exI [of _ db'] exI [of _ n']) (simp add: set_deployed_def bob_db_def stub_message_def)
qed

theorem deployed_message_order_witness:
  "\<exists>c w1 es c'. StartIngestServer standalone_env (WithIngestOperatorClient
        (one_bus (stub_message (mem_token ''1'')) (destroyed_of (mem_token ''1''))) (se_config standalone_env)
        \<lparr>ctl_StartServer = (\<lambda>_ w. (Inl ErrNoRows, w)), ctl_StopServer = (\<lambda>_ w. (Inl ErrNoRows, w))\<rparr>)
        (mem_token ''1'') ((bob_db, 0), []) = (None, c, w1)
      \<and> GetActiveStream standalone_env ''alice'' (snd (status_handler (se_pg standalone_env)
          (one_bus (stub_message (mem_token ''1'')) (destroyed_of (mem_token ''1''))) Inr ''deployed'' c))
        = (Inr \<lparr>sr_ID = ''0'', sr_User = ''alice'', sr_Egresses = es\<rparr>, c')
      \<and> mset (map er_Route es) = {# ''http://ingest/whep'', ''http://ingest/hls'' #}"
proof -
  let ?b = "one_bus (stub_message (mem_token ''1'')) (destroyed_of (mem_token ''1''))"
  have env: "IngestStandalone (se_config standalone_env) = IngestStandalone (se_config mem_stream_env)"
    "se_pg standalone_env = se_pg mem_stream_env" "Standalone (se_config standalone_env)"
    by (simp_all add: standalone_env_def)
  have "digits_value 0 ''bob-stream'' = None" by code_simp
  then have "nat_str k \<noteq> ''bob-stream''" for k by (metis digits_value_nat_str option.distinct(1))
  then have "can_start standalone_env (mem_token ''1'') bob_db"
    by (simp add: can_start_def env mem_stream_env_def mem_token_def two_users_def bob_db_def inj_on_def)
  from deployed_message_order [OF this bob_db_inv, of ?b "''deployed''" Inr "IngestStandalone (se_config standalone_env)"
      "\<lparr>ctl_StartServer = (\<lambda>_ w. (Inl ErrNoRows, w)), ctl_StopServer = (\<lambda>_ w. (Inl ErrNoRows, w))\<rparr>" 0 "[]"]
  show ?thesis
    by (simp add: env) (simp add: mem_stream_env_def one_bus_def mem_token_def two_users_def nat_str_small)
qed

section \<open>The notice of a restart\<close>

lemma destroyed_deletes:
  assumes "\<forall>m. pg_fault pg m = None" and "d \<le> retry" and "pb_Unmarshal_destroyed b notice = Inr (destroyed_of token)"
    and "parse (tp_UserID token) = Inr (tp_UserID token)"
  obtains a db' u' where "destroyed_handler pg b parse \<lparr>jm_NumDelivered = Some d, jm_Data = notice\<rparr> ((db, n), u) = (Ret a, (db', n + 1), u')"
    and "tp_UserID token \<notin> as_BroadcasterID ` set (active_streams db')"
proof -
  obtain err u' where pub: "nats_Publish b (NewStreamDestroyedNotification (tp_UserID token)) '''' u = (err, u')"
    by (rule prod.exhaust)
  obtain db' where del: "DeleteActiveStreamByBroadcasterId pg (tp_UserID token) (db, n) = (Inr (), db', n + 1)"
    and keep: "active_streams db' = filter (\<lambda>s. as_BroadcasterID s \<noteq> tp_UserID token) (active_streams db)"
    using assms(1) by (simp add: delete_stream_eq)
  have "\<exists>a. destroyed_handler pg b parse \<lparr>jm_NumDelivered = Some d, jm_Data = notice\<rparr> ((db, n), u) = (Ret a, (db', n + 1), u')"
    using assms(2-4) del pub by (cases err)
      (simp_all add: destroyed_handler_def DeserializeProtobufMsg_destroyed_def destroyed_of_def)
  moreover have "tp_UserID token \<notin> as_BroadcasterID ` set (active_streams db')" by (auto simp: keep)
  ultimately show ?thesis using that by blast
qed

text \<open>C26: starting a stream that already runs loses its record: the operator first stops the running
  ingest, which publishes that it was destroyed, and starts it anew; the start is answered with ``already
  exists''; the worker that receives the notice, at whatever delivery before the last, then deletes the
  broadcaster's record, while the new ingest keeps running without one.\<close>

theorem restart_orphans_ingest:
  assumes "sys_rel env cl A ns lo hi (op_state s) run" and "run (tp_Sub token) = Some (params, p)"
    and "stp_BroadcasterID params = tp_UserID token"
    and "os_templates s (isa_IngestTemplate (IngestStandalone (se_config E))) = Some t" and "template_ok t"
    and "ns = isa_Namespace (IngestStandalone (se_config E))"
    and "sch k = (ss, df, ts)" and "schedule ss" and "schedule ts"
    and "tp_UserID token \<in> as_BroadcasterID ` set (active_streams db)" and "length (tp_Sub token) \<le> 30" and "length ns \<le> 50"
    and "\<forall>m. pg_fault (se_pg E) m = None" and "d \<le> retry"
    and "pb_Unmarshal_destroyed b notice = Inr (destroyed_of token)" and "parse (tp_UserID token) = Inr (tp_UserID token)"
  shows "\<exists>ports1 w1 s' a db' u'.
      StopIngestSystem env ss df (tp_Sub token) ns (op_state s)
        = (None, ports1, snd (sendDestroyNotification env (tp_UserID token) (tp_Sub token) w1))
    \<and> StartIngestServer E (operator_client env sch) token ((db, n), s, k) = (Some StreamAlredyExists, (db, n + 1), s', k + 1)
    \<and> destroyed_handler (se_pg E) b parse \<lparr>jm_NumDelivered = Some d, jm_Data = notice\<rparr> ((db, n + 1), u)
        = (Ret a, (db', n + 2), u')
    \<and> tp_UserID token \<notin> as_BroadcasterID ` set (active_streams db')
    \<and> cl (os_world s') (KDeployment, ns, tp_Sub token) \<noteq> None"
proof -
  let ?dep = "tp_Sub token" let ?cfg = "IngestStandalone (se_config E)"
  let ?req = "\<lparr>req_IngestTemplate = isa_IngestTemplate ?cfg, req_Deployment = ?dep,
      req_Namespace = isa_Namespace ?cfg, req_Meta = Some (token_meta token)\<rparr>"
  obtain ports1 w1 where stop: "StopIngestSystem env ss df ?dep ns (op_state s)
      = (None, ports1, snd (sendDestroyNotification env (tp_UserID token) ?dep w1))"
    by (rule running_stop [OF assms(1,8,2)]) (simp add: assms(3))
  have q: "stp_BroadcasterID params \<noteq> ''''" "?dep \<in> A" using sys_relD(7,8) [OF assms(1,2)] by (auto simp: params_ok_def)
  have "os_templates s (req_IngestTemplate ?req) = Some t" "req_Meta ?req = Some (token_meta token)"
    "im_BroadcasterId (token_meta token) \<noteq> ''''" "req_Deployment ?req \<in> A" "req_Namespace ?req = ns"
    using assms(3,4,6) q by (simp_all add: token_meta_def)
  from StartServer_spec [OF assms(1,8,9) this(1) assms(5) this(2-5), of df] obtain r s' run' where
    start: "StartServer env ss df ts ?req s = Some (Ret r, s')" "sys_rel env cl A ns lo hi (op_state s') run'"
      "r = Inr (?dep, ns)" "run' ?dep \<noteq> None"
    using assms(2) by (auto simp: assms(6) [symmetric] split: if_splits)
  have "deployed_in cl A ns (s', k + 1) ?dep"
    using deployed_in_run [of env cl A ns lo hi "(s', k + 1)" run'] start(2,4) by simp
  then have run': "cl (os_world s') (KDeployment, ns, ?dep) \<noteq> None" by (simp add: deployed_in_def)
  have "insert_stream_stmt (se_pg E) (tp_UserID token) ?dep ns ?dep n db = Inl unique_violation"
    using assms(10-12) by (auto simp: insert_stream_stmt_def Let_def)
  moreover have "contains (err_text unique_violation) ''duplicate key value violates unique constraint''"
    using contains_infix [of "''pq: ''" "''duplicate key value violates unique constraint''" "[]"]
    by (simp add: unique_violation_def)
  ultimately have server: "StartIngestServer E (operator_client env sch) token ((db, n), s, k)
      = (Some StreamAlredyExists, (db, n + 1), s', k + 1)"
    using start(1,3) assms(6,7,13)
    by (simp add: StartIngestServer_def operator_client_def InsertActiveStream_def exec_stmt_def Let_def)
  obtain a db' u' where "destroyed_handler (se_pg E) b parse \<lparr>jm_NumDelivered = Some d, jm_Data = notice\<rparr> ((db, n + 1), u)
      = (Ret a, (db', n + 2), u')" "tp_UserID token \<notin> as_BroadcasterID ` set (active_streams db')"
    by (rule destroyed_deletes [where b = b and parse = parse and token = token and db = db and n = "n + 1" and u = u, OF assms(13-16)]) simp
  with stop server run' show ?thesis by blast
qed

theorem restart_orphans_ingest_witness:
  "\<exists>w n s' a db' u'. StartIngestServer mem_stream_env (operator_client mem_env mem_schedules) (mem_token ''1'')
        ((alice_db, 0), mem_server w, 0) = (Some StreamAlredyExists, (alice_db, 1), s', 1)
    \<and> destroyed_handler (se_pg mem_stream_env) (one_bus (stub_message (mem_token ''1'')) (destroyed_of (mem_token ''1''))) Inr
        \<lparr>jm_NumDelivered = Some 1, jm_Data = ''destroyed''\<rparr> ((alice_db, 1), []) = (Ret a, (db', n), u')
    \<and> ''1'' \<notin> as_BroadcasterID ` set (active_streams db')
    \<and> mem_cl (os_world s') (KDeployment, ''default'', ''alice'') \<noteq> None"
proof -
  let ?b = "one_bus (stub_message (mem_token ''1'')) (destroyed_of (mem_token ''1''))"
  obtain w where w: "sys_rel mem_env mem_cl {''alice'', ''bob''} ''default'' 20000 20001 (op_state (mem_server w)) alice_runs"
    using mem_alice_running by auto
  have cfg: "isa_Namespace (IngestStandalone (se_config mem_stream_env)) = ''default''"
    "isa_IngestTemplate (IngestStandalone (se_config mem_stream_env)) = ''golang-ingest-template''"
    "pg_fault (se_pg mem_stream_env) k = None" for k by (simp_all add: mem_stream_env_def)
  have tok: "tp_Sub (mem_token ''1'') = ''alice''" "tp_UserID (mem_token ''1'') = ''1''" by (simp_all add: mem_token_def two_users_def)
  have tmpl: "template_ok golang_template" by (simp add: golang_template_def template_ok_def port_name_defs)
  have sch: "mem_schedules 0 = (in_order, True, in_reverse)" by (simp add: mem_schedules_def)
  have run: "alice_runs (tp_Sub (mem_token ''1'')) = Some (start_of ''alice'', 20000)" by (simp add: alice_runs_def tok)
  have bid: "stp_BroadcasterID (start_of ''alice'') = tp_UserID (mem_token ''1'')" by (simp add: tok)
  have "\<exists>ports1 w1 s' a db' u'.
      StopIngestSystem mem_env in_order True (tp_Sub (mem_token ''1'')) ''default'' (op_state (mem_server w))
        = (None, ports1, snd (sendDestroyNotification mem_env (tp_UserID (mem_token ''1'')) (tp_Sub (mem_token ''1'')) w1))
    \<and> StartIngestServer mem_stream_env (operator_client mem_env mem_schedules) (mem_token ''1'') ((alice_db, 0), mem_server w, 0)
        = (Some StreamAlredyExists, (alice_db, 0 + 1), s', 0 + 1)
    \<and> destroyed_handler (se_pg mem_stream_env) ?b Inr \<lparr>jm_NumDelivered = Some 1, jm_Data = ''destroyed''\<rparr> ((alice_db, 0 + 1), [])
        = (Ret a, (db', 0 + 2), u')
    \<and> tp_UserID (mem_token ''1'') \<notin> as_BroadcasterID ` set (active_streams db')
    \<and> mem_cl (os_world s') (KDeployment, ''default'', tp_Sub (mem_token ''1'')) \<noteq> None"
    by (rule restart_orphans_ingest [where env = mem_env and cl = mem_cl and sch = mem_schedules and k = 0
        and s = "mem_server w" and run = alice_runs and parse = Inr, OF w run bid _ tmpl _ sch])
      (simp_all add: cfg tok alice_db_def retry_def one_bus_def destroyed_of_def)
  then show ?thesis unfolding tok add_0 by blast
qed

end
