(* ===== verification/StreamConcurrency.thy ===== *)
theory StreamConcurrency imports StreamMessages begin

text \<open>
  The handlers of the stream service side by side.  A start and a stop are cut where they wait for the
  database or the controller; requests of many users advance in any order.  The records and the
  running ingests of a user agree whenever none of its requests is in progress, if it makes one
  request at a time, whatever the other users do; with two at a time they need not.
\<close>

section \<open>One request, step by step\<close>

text \<open>
  What is left of a request.  A stop that cleans up after a failed start carries the start's error,
  which is the answer whatever becomes of the stop.
\<close>

datatype phase =
    StartCall
  | StartInsert string string
  | StartUndo string string
  | StopFind "goerr option"
  | StopDelete "goerr option" active_stream
  | StopCall "goerr option" active_stream
  | Finished "goerr option"

definition answer :: "goerr option \<Rightarrow> goerr option \<Rightarrow> phase" where
  "answer failed r = Finished (case failed of Some err \<Rightarrow> Some err | None \<Rightarrow> r)"

definition start_request_of :: "stream_env \<Rightarrow> token_payload \<Rightarrow> start_request" where
  "start_request_of E token = \<lparr>req_IngestTemplate = isa_IngestTemplate (IngestStandalone (se_config E)),
     req_Deployment = tp_Sub token, req_Namespace = isa_Namespace (IngestStandalone (se_config E)),
     req_Meta = Some (token_meta token)\<rparr>"

text \<open>\<open>StartIngestServer\<close> from its call of the controller to its answer.\<close>

fun start_phase ::
  "stream_env \<Rightarrow> 'w controller \<Rightarrow> token_payload \<Rightarrow> phase \<Rightarrow> sconn \<times> 'w \<Rightarrow> phase \<times> sconn \<times> 'w" where
  "start_phase E ctl token StartCall (c, w) =
     (case ctl_StartServer ctl (start_request_of E token) w of
        (Inl err, w1) \<Rightarrow> (StopFind (Some err), c, w1)
      | (Inr (dep, ns), w1) \<Rightarrow> (StartInsert dep ns, c, w1))"
| "start_phase E ctl token (StartInsert dep ns) (c, w) =
     (case InsertActiveStream (se_pg E) (tp_UserID token) (tp_Sub token) ns dep c of
        (Inr _, c1) \<Rightarrow> (Finished None, c1, w)
      | (Inl err, c1) \<Rightarrow>
          (if contains (err_text err) ''duplicate key value violates unique constraint''
           then (Finished (Some StreamAlredyExists), c1, w)
           else (StartUndo dep ns, c1, w)))"
| "start_phase E ctl token (StartUndo dep ns) (c, w) =
     (Finished (Some UnableInsertStream), c, snd (ctl_StopServer ctl (stop_request token ns dep) w))"
| "start_phase E ctl token ph s = (ph, s)"

text \<open>\<open>StopIngestServer\<close> from its query to its answer.\<close>

fun stop_phase ::
  "stream_env \<Rightarrow> 'w controller \<Rightarrow> token_payload \<Rightarrow> phase \<Rightarrow> sconn \<times> 'w \<Rightarrow> phase \<times> sconn \<times> 'w" where
  "stop_phase E ctl token (StopFind failed) (c, w) =
     (case GetActiveStreamByBroadcasterId (se_pg E) (tp_UserID token) c of
        (Inl err, c1) \<Rightarrow> (answer failed (Some NotFoundActiveStream), c1, w)
      | (Inr stream, c1) \<Rightarrow> (StopDelete failed stream, c1, w))"
| "stop_phase E ctl token (StopDelete failed stream) (c, w) =
     (case DeleteActiveStreamByBroadcasterId (se_pg E) (as_BroadcasterID stream) c of
        (Inl err, c1) \<Rightarrow> (answer failed (Some UnableDeleteStream), c1, w)
      | (Inr _, c1) \<Rightarrow> (StopCall failed stream, c1, w))"
| "stop_phase E ctl token (StopCall failed stream) (c, w) =
     (case ctl_StopServer ctl (stop_request token (as_Namespace stream) (as_Deployment stream)) w of
        (Inl err, w1) \<Rightarrow> (answer failed (Some UnableStopStream), c, w1)
      | (Inr _, w1) \<Rightarrow> (answer failed None, c, w1))"
| "stop_phase E ctl token ph s = (ph, s)"

definition handler_step ::
  "stream_env \<Rightarrow> 'w controller \<Rightarrow> token_payload \<Rightarrow> phase \<times> sconn \<times> 'w \<Rightarrow> phase \<times> sconn \<times> 'w" where
  "handler_step E ctl token x =
     (case fst x of
        StartCall \<Rightarrow> start_phase E ctl token (fst x) (snd x)
      | StartInsert _ _ \<Rightarrow> start_phase E ctl token (fst x) (snd x)
      | StartUndo _ _ \<Rightarrow> start_phase E ctl token (fst x) (snd x)
      | _ \<Rightarrow> stop_phase E ctl token (fst x) (snd x))"

text \<open>The steps a request still needs, at most.\<close>

fun rank :: "phase \<Rightarrow> nat" where
  "rank StartCall = 4"
| "rank (StartInsert _ _) = 2"
| "rank (StartUndo _ _) = 1"
| "rank (StopFind _) = 3"
| "rank (StopDelete _ _) = 2"
| "rank (StopCall _ _) = 1"
| "rank (Finished _) = 0"

lemma handler_rank: "rank ph \<noteq> 0 \<Longrightarrow> rank (fst (handler_step E ctl token (ph, s))) < rank ph"
  by (cases s; cases ph) (auto simp: handler_step_def answer_def split: prod.split sum.split)

lemma finished_stays: "handler_step E ctl token (Finished r, s) = (Finished r, s)"
  by (cases s) (simp add: handler_step_def)

lemma stop_alone:
  "(handler_step E ctl token ^^ 3) (StopFind failed, s) =
    (let (r, s') = StopIngestServer E ctl token s in (answer failed r, s'))"
  by (cases s) (auto simp: numeral_eq_Suc handler_step_def answer_def StopIngestServer_def split: prod.split sum.split)

lemma start_alone:
  "(handler_step E ctl token ^^ 4) (StartCall, s) = (let (r, s') = StartIngestServer E ctl token s in (Finished r, s'))"
proof -
  obtain c w where s: "s = (c, w)" by (rule prod.exhaust)
  obtain r w1 where call: "ctl_StartServer ctl (start_request_of E token) w = (r, w1)" by (rule prod.exhaust)
  have split: "(handler_step E ctl token ^^ 4) x = (handler_step E ctl token ^^ 3) (handler_step E ctl token x)" for x
    by (simp add: numeral_eq_Suc funpow_swap1)
  show ?thesis
  proof (cases r)
    case (Inl err)
    have "(handler_step E ctl token ^^ 4) (StartCall, s) = (handler_step E ctl token ^^ 3) (StopFind (Some err), c, w1)"
      unfolding split by (simp add: s handler_step_def call Inl)
    then show ?thesis using call Inl
      by (simp add: stop_alone s StartIngestServer_def start_request_of_def answer_def split: prod.split)
  next
    case (Inr q)
    obtain dep ns where q: "q = (dep, ns)" by (rule prod.exhaust)
    have first: "handler_step E ctl token (StartCall, s) = (StartInsert dep ns, c, w1)"
      by (simp add: s handler_step_def call Inr q)
    show ?thesis unfolding split first using call Inr q
      by (auto simp: numeral_eq_Suc handler_step_def s StartIngestServer_def start_request_of_def Let_def
          split: prod.split sum.split)
  qed
qed

section \<open>Requests side by side\<close>

text \<open>
  The requests in the order they came, each with its token and what is left of it; \<open>may\<close> says whose
  request can come.
\<close>

type_synonym requests = "(token_payload \<times> phase) list"

definition in_progress :: "uuid \<Rightarrow> requests \<Rightarrow> bool" where
  "in_progress i reqs \<longleftrightarrow> (\<exists>(token, ph)\<in>set reqs. tp_UserID token = i \<and> rank ph \<noteq> 0)"

text \<open>The phases of the requests of \<open>i\<close> that are in progress.\<close>

definition current :: "uuid \<Rightarrow> requests \<Rightarrow> phase list" where
  "current i reqs = map snd (filter (\<lambda>(token, ph). tp_UserID token = i \<and> rank ph \<noteq> 0) reqs)"

lemma current_append [simp]: "current i (xs @ ys) = current i xs @ current i ys"
  by (simp add: current_def)

lemma current_Cons [simp]: "current i ((token, ph) # reqs)
    = (if tp_UserID token = i \<and> rank ph \<noteq> 0 then ph # current i reqs else current i reqs)"
  by (simp add: current_def)

lemma current_Nil [simp]: "current i [] = []"
  by (simp add: current_def)

lemma current_none: "current i reqs = [] \<longleftrightarrow> \<not> in_progress i reqs"
  by (auto simp: current_def in_progress_def filter_empty_conv)

lemma rank_0: "rank ph = 0 \<longleftrightarrow> (\<exists>r. ph = Finished r)"
  by (cases ph) auto

inductive conc_reach ::
  "stream_env \<Rightarrow> 'w controller \<Rightarrow> (requests \<Rightarrow> token_payload \<Rightarrow> bool) \<Rightarrow> sconn \<times> 'w \<Rightarrow> requests \<Rightarrow> sconn \<times> 'w \<Rightarrow> bool"
  for E ctl may s0 where
  nothing: "conc_reach E ctl may s0 [] s0"
| arrive: "conc_reach E ctl may s0 reqs s \<Longrightarrow> may reqs token \<Longrightarrow> ph = StartCall \<or> ph = StopFind None
    \<Longrightarrow> conc_reach E ctl may s0 (reqs @ [(token, ph)]) s"
| advance: "conc_reach E ctl may s0 reqs s \<Longrightarrow> k < length reqs \<Longrightarrow> reqs ! k = (token, ph)
    \<Longrightarrow> handler_step E ctl token (ph, s) = (ph', s') \<Longrightarrow> conc_reach E ctl may s0 (reqs[k := (token, ph')]) s'"

lemma advance_to:
  "conc_reach E ctl may s0 reqs s \<Longrightarrow> handler_step E ctl token (ph, s) = (ph', s') \<Longrightarrow> k < length reqs
    \<Longrightarrow> reqs ! k = (token, ph) \<Longrightarrow> reqs' = reqs[k := (token, ph')] \<Longrightarrow> conc_reach E ctl may s0 reqs' s'"
  by (auto intro: conc_reach.advance)

section \<open>What a step does to the users\<close>

text \<open>The streams a request carries are its user's.\<close>

definition own_names :: "stream_env \<Rightarrow> token_payload \<Rightarrow> string \<Rightarrow> string \<Rightarrow> bool" where
  "own_names E token dep ns \<longleftrightarrow> dep = tp_Sub token \<and> ns = isa_Namespace (IngestStandalone (se_config E))"

fun phase_data :: "stream_env \<Rightarrow> token_payload \<Rightarrow> phase \<Rightarrow> bool" where
  "phase_data E token (StartInsert dep ns) = own_names E token dep ns"
| "phase_data E token (StartUndo dep ns) = own_names E token dep ns"
| "phase_data E token (StopDelete _ x) = (as_BroadcasterID x = tp_UserID token \<and> own_names E token (as_Deployment x) (as_Namespace x))"
| "phase_data E token (StopCall _ x) = (as_BroadcasterID x = tp_UserID token \<and> own_names E token (as_Deployment x) (as_Namespace x))"
| "phase_data E token _ = True"

text \<open>The record \<open>r\<close> and the ingest \<open>d\<close> of a user with one request, by where the request is.\<close>

fun phase_rel :: "phase \<Rightarrow> bool \<Rightarrow> bool \<Rightarrow> bool" where
  "phase_rel (StartInsert _ _) r d = d"
| "phase_rel (StartUndo _ _) r d = (\<not> r)"
| "phase_rel (StopFind _) r d = (d \<longrightarrow> r)"
| "phase_rel (StopDelete _ _) r d = r"
| "phase_rel (StopCall _ _) r d = (\<not> r)"
| "phase_rel _ r d = (r = d)"

lemma answer_simps [simp]: "phase_data E token (answer failed r)" "phase_rel (answer failed r) a b = (a = b)" "rank (answer failed r) = 0"
  by (simp_all add: answer_def)

context ingest_controller begin

text \<open>One step from \<open>s\<close> to \<open>s'\<close> of a request of \<open>i\<close>, seen by the users.\<close>

definition step_ok ::
  "stream_env \<Rightarrow> uuid set \<Rightarrow> (uuid \<Rightarrow> string) \<Rightarrow> token_payload \<Rightarrow> phase \<times> sconn \<times> 'w \<Rightarrow> phase \<times> sconn \<times> 'w \<Rightarrow> bool" where
  "step_ok E U name token x x' \<longleftrightarrow> (case (x, x') of ((ph, (db, n), w), ph', (db', n'), w') \<Rightarrow>
     stream_rows E U name (db', n') \<and> inv w' \<and> phase_data E token ph'
   \<and> (\<forall>j\<in>U. j \<noteq> tp_UserID token \<longrightarrow> recorded j db' = recorded j db \<and> running w' (name j) = running w (name j))
   \<and> (phase_rel ph (recorded (tp_UserID token) db) (running w (tp_Sub token))
       \<longrightarrow> phase_rel ph' (recorded (tp_UserID token) db') (running w' (tp_Sub token))))"

lemma other_name: "served E U name \<Longrightarrow> token_ok U name token \<Longrightarrow> j \<in> U \<Longrightarrow> j \<noteq> tp_UserID token \<Longrightarrow> name j \<noteq> tp_Sub token"
  by (auto simp: served_def token_ok_def inj_on_eq_iff)

lemma own_stop:
  assumes sv: "served E U name" and tok: "token_ok U name token" and w: "inv w" and own: "own_names E token dep ns"
    and stop: "ctl_StopServer ctl (stop_request token ns dep) w = (r, w')"
  shows "inv w' \<and> running w' = (running w)(tp_Sub token := False)"
proof -
  have "stoppable (stop_request token ns dep)"
    using sv tok own by (simp add: served_def stop_request_def token_meta_def token_ok_def own_names_def)
  from stop_done [OF w this stop] show ?thesis using own by (simp add: stop_request_def own_names_def)
qed

lemma step_call:
  assumes sv: "served E U name" and tok: "token_ok U name token" and rows: "stream_rows E U name (db, n)" and w: "inv w"
  shows "step_ok E U name token (StartCall, (db, n), w) (handler_step E ctl token (StartCall, (db, n), w))"
proof -
  let ?req = "start_request_of E token"
  obtain r w1 where ctl: "ctl_StartServer ctl ?req w = (r, w1)" by (rule prod.exhaust)
  have adm: "adm ?req" using sv tok by (simp add: served_def token_meta_def token_ok_def start_request_of_def)
  note other = other_name [OF sv tok]
  show ?thesis
  proof (cases r)
    case (Inl err)
    from start_fail [OF w adm ctl [unfolded Inl]] have "inv w1" "running w1 = running w \<or> running w1 = (running w)(tp_Sub token := False)"
      by (auto simp: start_request_of_def)
    then show ?thesis using rows other by (auto simp: step_ok_def handler_step_def ctl Inl)
  next
    case (Inr q)
    obtain dep ns where q: "q = (dep, ns)" by (rule prod.exhaust)
    from start_ok [OF w adm ctl [unfolded Inr q]] have "inv w1" "own_names E token dep ns" "running w1 = (running w)(tp_Sub token := True)"
      by (auto simp: start_request_of_def own_names_def)
    then show ?thesis using rows other by (auto simp: step_ok_def handler_step_def ctl Inr q)
  qed
qed

lemma insert_rows:
  assumes tok: "token_ok U name token" and rows: "stream_rows E U name (db, n)" and "sdb_inv db'"
    and "active_streams db' = active_streams db @ [x]" and "as_ID x = pg_uuid (se_pg E) n" and "as_BroadcasterID x = tp_UserID token"
    and "as_Username x = tp_Sub token" and "as_Deployment x = tp_Sub token" and "as_Namespace x = isa_Namespace (IngestStandalone (se_config E))"
  shows "stream_rows E U name (db', n + 1)" "recorded j db' \<longleftrightarrow> recorded j db \<or> j = tp_UserID token"
  using stream_rowsD(2) [OF stream_rows_later [OF rows, of "n + 1"]] assms
  by (auto simp: stream_rows_def token_ok_def recorded_def)

lemma step_insert:
  assumes sv: "served E U name" and tok: "token_ok U name token" and rows: "stream_rows E U name (db, n)" and w: "inv w"
    and own: "own_names E token dep ns"
  shows "step_ok E U name token (StartInsert dep ns, (db, n), w) (handler_step E ctl token (StartInsert dep ns, (db, n), w))"
proof -
  let ?cfg = "IngestStandalone (se_config E)"
  let ?ins = "insert_stream_stmt (se_pg E) (tp_UserID token) (tp_Sub token) (isa_Namespace ?cfg) (tp_Sub token) n db"
  have nf: "pg_fault (se_pg E) k = None" for k using sv by (simp add: served_def)
  have names: "dep = tp_Sub token" "ns = isa_Namespace ?cfg" using own by (simp_all add: own_names_def)
  have later: "stream_rows E U name (db, n + 1)" by (rule stream_rows_later [OF rows]) simp
  have step: "handler_step E ctl token (StartInsert dep ns, (db, n), w) = (case ?ins of
        Inr (x, db') \<Rightarrow> (Finished None, (db', n + 1), w)
      | Inl err \<Rightarrow> if contains (err_text err) ''duplicate key value violates unique constraint''
          then (Finished (Some StreamAlredyExists), (db, n + 1), w) else (StartUndo dep ns, (db, n + 1), w))"
    using nf by (simp add: handler_step_def InsertActiveStream_def exec_stmt_def names split: sum.split)
  from insert_effect [OF sv tok rows] consider
      (ok) x db1 where "?ins = Inr (x, db1)" "\<not> recorded (tp_UserID token) db" "sdb_inv db1"
        "active_streams db1 = active_streams db @ [x]" "as_ID x = pg_uuid (se_pg E) n" "as_BroadcasterID x = tp_UserID token"
        "as_Username x = tp_Sub token" "as_Deployment x = tp_Sub token" "as_Namespace x = isa_Namespace ?cfg"
    | (long) "?ins = Inl too_long" "\<not> recorded (tp_UserID token) db"
    | (dup) "?ins = Inl unique_violation" "recorded (tp_UserID token) db" by blast
  then show ?thesis
  proof cases
    case ok
    with insert_rows [OF tok rows ok(3-9)] w show ?thesis by (auto simp: step_ok_def step)
  next
    case long
    with w later own show ?thesis by (simp add: step_ok_def step)
  next
    case dup
    with w later show ?thesis by (simp add: step_ok_def step)
  qed
qed

lemma step_undo:
  assumes sv: "served E U name" and tok: "token_ok U name token" and rows: "stream_rows E U name (db, n)" and w: "inv w"
    and own: "own_names E token dep ns"
  shows "step_ok E U name token (StartUndo dep ns, (db, n), w) (handler_step E ctl token (StartUndo dep ns, (db, n), w))"
proof -
  obtain r w1 where stop: "ctl_StopServer ctl (stop_request token ns dep) w = (r, w1)" by (rule prod.exhaust)
  with own_stop [OF sv tok w own stop] rows other_name [OF sv tok] show ?thesis
    by (auto simp: step_ok_def handler_step_def)
qed

lemma step_find:
  assumes sv: "served E U name" and tok: "token_ok U name token" and rows: "stream_rows E U name (db, n)" and w: "inv w"
  shows "step_ok E U name token (StopFind failed, (db, n), w) (handler_step E ctl token (StopFind failed, (db, n), w))"
proof -
  have nf: "pg_fault (se_pg E) k = None" for k using sv by (simp add: served_def)
  have later: "stream_rows E U name (db, n + 1)" by (rule stream_rows_later [OF rows]) simp
  show ?thesis
  proof (cases "find (\<lambda>s. as_BroadcasterID s = tp_UserID token) (active_streams db)")
    case None
    then have "\<not> recorded (tp_UserID token) db" by (auto simp: recorded_def find_None_iff')
    with None nf later w show ?thesis
      by (simp add: step_ok_def handler_step_def GetActiveStreamByBroadcasterId_def exec_stmt_def)
  next
    case (Some x)
    then have x: "x \<in> set (active_streams db)" "as_BroadcasterID x = tp_UserID token" by (auto dest: find_SomeD)
    then have "own_names E token (as_Deployment x) (as_Namespace x)"
      using stream_rowsD(2) [OF rows x(1)] tok by (auto simp: own_names_def token_ok_def)
    moreover have "recorded (tp_UserID token) db" unfolding recorded_def using x by (metis imageI)
    ultimately show ?thesis using Some nf later w x
      by (simp add: step_ok_def handler_step_def GetActiveStreamByBroadcasterId_def exec_stmt_def)
  qed
qed

lemma step_delete:
  assumes sv: "served E U name" and tok: "token_ok U name token" and rows: "stream_rows E U name (db, n)" and w: "inv w"
    and own: "phase_data E token (StopDelete failed x)"
  shows "step_ok E U name token (StopDelete failed x, (db, n), w) (handler_step E ctl token (StopDelete failed x, (db, n), w))"
proof -
  have nf: "pg_fault (se_pg E) k = None" for k using sv by (simp add: served_def)
  obtain db' where del: "delete_stream_stmt (tp_UserID token) n db = Inr ((), db')"
    by (simp add: delete_stream_stmt_def Let_def)
  then have keep: "active_streams db' = filter (\<lambda>s. as_BroadcasterID s \<noteq> tp_UserID token) (active_streams db)"
    by (auto simp: delete_stream_stmt_def Let_def)
  have "sdb_inv db'" by (rule delete_stream_inv [OF stream_rowsD(1) [OF rows] del])
  then have "stream_rows E U name (db', n + 1)"
    using stream_rowsD(2) [OF stream_rows_later [OF rows, of "n + 1"]] by (auto simp: stream_rows_def keep)
  moreover have "recorded j db' \<longleftrightarrow> recorded j db \<and> j \<noteq> tp_UserID token" for j
    by (auto simp: recorded_def keep)
  ultimately show ?thesis using nf w own del
    by (simp add: step_ok_def handler_step_def DeleteActiveStreamByBroadcasterId_def exec_stmt_def)
qed

lemma step_stop:
  assumes sv: "served E U name" and tok: "token_ok U name token" and rows: "stream_rows E U name (db, n)" and w: "inv w"
    and own: "phase_data E token (StopCall failed x)"
  shows "step_ok E U name token (StopCall failed x, (db, n), w) (handler_step E ctl token (StopCall failed x, (db, n), w))"
proof -
  obtain r w1 where stop: "ctl_StopServer ctl (stop_request token (as_Namespace x) (as_Deployment x)) w = (r, w1)" by (rule prod.exhaust)
  from own have "own_names E token (as_Deployment x) (as_Namespace x)" by simp
  from own_stop [OF sv tok w this stop] rows other_name [OF sv tok] show ?thesis
    by (auto simp: step_ok_def handler_step_def stop split: sum.split)
qed

lemma handler_step_ok:
  assumes sv: "served E U name" and tok: "token_ok U name token" and rows: "stream_rows E U name (db, n)" and w: "inv w"
    and own: "phase_data E token ph"
  shows "step_ok E U name token (ph, (db, n), w) (handler_step E ctl token (ph, (db, n), w))"
proof (cases ph)
  case (Finished r)
  then show ?thesis using rows w by (simp add: step_ok_def finished_stays)
qed (use assms step_call step_insert step_undo step_find step_delete step_stop in auto)

text \<open>
  All requests are by users; those of \<open>i\<close> come one at a time.  Then at most one request of \<open>i\<close> is in
  progress, and its phase tells how the record and the ingest of \<open>i\<close> are related.
\<close>

definition conc_ok :: "stream_env \<Rightarrow> uuid set \<Rightarrow> (uuid \<Rightarrow> string) \<Rightarrow> uuid \<Rightarrow> requests \<Rightarrow> sconn \<times> 'w \<Rightarrow> bool" where
  "conc_ok E U name i reqs s \<longleftrightarrow> (case s of ((db, n), w) \<Rightarrow>
     stream_rows E U name (db, n) \<and> inv w
   \<and> (\<forall>(token, ph)\<in>set reqs. token_ok U name token \<and> phase_data E token ph)
   \<and> (case current i reqs of
        [] \<Rightarrow> recorded i db = running w (name i)
      | [ph] \<Rightarrow> phase_rel ph (recorded i db) (running w (name i))
      | _ \<Rightarrow> False))"

lemma conc_arrive:
  assumes ok: "conc_ok E U name i reqs s" and may: "token_ok U name token" "tp_UserID token = i \<Longrightarrow> \<not> in_progress i reqs"
    and ph: "ph = StartCall \<or> ph = StopFind None"
  shows "conc_ok E U name i (reqs @ [(token, ph)]) s"
proof -
  obtain db n w where s: "s = ((db, n), w)" by (metis prod.exhaust)
  have "tp_UserID token = i \<Longrightarrow> current i reqs = []" using may(2) by (simp add: current_none)
  then show ?thesis using ok ph may(1) by (auto simp: conc_ok_def s)
qed

lemma conc_advance:
  assumes sv: "served E U name" and i: "i \<in> U" and ok: "conc_ok E U name i (xs @ (token, ph) # ys) s"
    and step: "handler_step E ctl token (ph, s) = (ph', s')"
  shows "conc_ok E U name i (xs @ (token, ph') # ys) s'"
proof -
  obtain db n w db' n' w' where s: "s = ((db, n), w)" "s' = ((db', n'), w')" by (metis prod.exhaust)
  from ok have rows: "stream_rows E U name (db, n)" "inv w" and tok: "token_ok U name token" and own: "phase_data E token ph"
    by (auto simp: conc_ok_def s)
  from handler_step_ok [OF sv tok rows own] step have eff: "stream_rows E U name (db', n')" "inv w'" "phase_data E token ph'"
    and untouched: "tp_UserID token \<noteq> i \<Longrightarrow> recorded i db' = recorded i db \<and> running w' (name i) = running w (name i)"
    and related: "phase_rel ph (recorded (tp_UserID token) db) (running w (tp_Sub token))
       \<Longrightarrow> phase_rel ph' (recorded (tp_UserID token) db') (running w' (tp_Sub token))"
    using i by (auto simp: step_ok_def s)
  have sub: "tp_UserID token = i \<Longrightarrow> tp_Sub token = name i" using tok by (simp add: token_ok_def)
  consider (other) "tp_UserID token \<noteq> i" | (over) r where "ph = Finished r"
    | (self) "tp_UserID token = i" "rank ph \<noteq> 0" by (metis rank_0)
  then have "case current i (xs @ (token, ph') # ys) of [] \<Rightarrow> recorded i db' = running w' (name i)
      | [p] \<Rightarrow> phase_rel p (recorded i db') (running w' (name i)) | _ \<Rightarrow> False"
  proof cases
    case other
    with ok untouched show ?thesis by (auto simp: conc_ok_def s split: list.splits)
  next
    case over
    with step have "ph' = ph" "db' = db" "w' = w" by (simp_all add: finished_stays s)
    with ok over show ?thesis by (auto simp: conc_ok_def s)
  next
    case self
    from ok have "current i xs = [] \<and> current i ys = [] \<and> phase_rel ph (recorded i db) (running w (name i))"
      using self by (auto simp: conc_ok_def s append_eq_Cons_conv split: list.splits)
    with related self sub show ?thesis by (auto simp: rank_0)
  qed
  with eff ok show ?thesis by (auto simp: conc_ok_def s)
qed

lemma conc_reach_ok:
  assumes "conc_reach E ctl may s0 reqs s"
    and may: "\<And>reqs token. may reqs token \<Longrightarrow> token_ok U name token \<and> (tp_UserID token = i \<longrightarrow> \<not> in_progress i reqs)"
    and sv: "served E U name" and i: "i \<in> U" and link: "linked E U name s0"
  shows "conc_ok E U name i reqs s"
  using assms(1)
proof induction
  case nothing
  obtain db n w where s: "s0 = ((db, n), w)" by (metis prod.exhaust)
  let ?token = "\<lparr>tp_Aud = [], tp_Exp = 0, tp_Iss = [], tp_Sub = name i, tp_TokenUse = [], tp_UserID = i\<rparr>"
  have "token_ok U name ?token" using i by (simp add: token_ok_def)
  from linked_recorded(2) [OF sv this, of db n w] link linked_rows [of E U name db n w] linkedD(2) [of E U name db n w]
  show ?case by (simp add: conc_ok_def s current_def)
next
  case (arrive reqs s token ph)
  with may show ?case by (intro conc_arrive) auto
next
  case (advance reqs s k token ph ph' s')
  then have "reqs = take k reqs @ (token, ph) # drop (Suc k) reqs" by (metis id_take_nth_drop)
  with advance conc_advance [OF sv i, of "take k reqs" token ph "drop (Suc k) reqs" s ph' s'] show ?case
    by (simp add: upd_conv_take_nth_drop)
qed

text \<open>A start between the two halves of a stop.\<close>

lemma find_outcome:
  assumes "served E U name" and "recorded (tp_UserID token) db"
  shows "\<exists>x. handler_step E ctl token (StopFind failed, (db, n), w) = (StopDelete failed x, (db, n + 1), w)"
proof -
  have nf: "pg_fault (se_pg E) k = None" for k using assms(1) by (simp add: served_def)
  obtain x where "find (\<lambda>s. as_BroadcasterID s = tp_UserID token) (active_streams db) = Some x"
    using assms(2) by (cases "find (\<lambda>s. as_BroadcasterID s = tp_UserID token) (active_streams db)")
      (auto simp: recorded_def find_None_iff')
  with nf show ?thesis by (simp add: handler_step_def GetActiveStreamByBroadcasterId_def exec_stmt_def)
qed

lemma delete_outcome:
  assumes "served E U name"
  shows "\<exists>db'. handler_step E ctl token (StopDelete failed x, (db, n), w) = (StopCall failed x, (db', n + 1), w)"
  using assms by (simp add: handler_step_def delete_stream_eq served_def)

lemma insert_outcome:
  assumes sv: "served E U name" and tok: "token_ok U name token" and rows: "stream_rows E U name (db, n)"
    and "\<not> recorded (tp_UserID token) db" and "length (tp_Sub token) \<le> 30" and "own_names E token dep ns"
  shows "\<exists>db'. handler_step E ctl token (StartInsert dep ns, (db, n), w) = (Finished None, (db', n + 1), w)
    \<and> recorded (tp_UserID token) db'"
proof -
  let ?cfg = "IngestStandalone (se_config E)"
  let ?ins = "insert_stream_stmt (se_pg E) (tp_UserID token) (tp_Sub token) (isa_Namespace ?cfg) (tp_Sub token) n db"
  have nf: "pg_fault (se_pg E) n = None" and "length (isa_Namespace ?cfg) \<le> 50" using sv by (simp_all add: served_def)
  then have "?ins \<noteq> Inl too_long" using assms(5) by (simp add: insert_stream_stmt_def too_long_def unique_violation_def Let_def)
  with insert_effect [OF sv tok rows] assms(4) obtain x db1 where
    "?ins = Inr (x, db1)" "active_streams db1 = active_streams db @ [x]" "as_BroadcasterID x = tp_UserID token" by blast
  with nf assms(6) show ?thesis
    by (auto simp: handler_step_def InsertActiveStream_def exec_stmt_def own_names_def recorded_def)
qed

lemma stop_outcome:
  assumes sv: "served E U name" and tok: "token_ok U name token" and w: "inv w" "running w (tp_Sub token)"
    and own: "own_names E token (as_Deployment x) (as_Namespace x)"
  shows "\<exists>w'. handler_step E ctl token (StopCall None x, c, w) = (Finished None, c, w') \<and> \<not> running w' (tp_Sub token)"
proof -
  let ?req = "stop_request token (as_Namespace x) (as_Deployment x)"
  obtain r w' where stop: "ctl_StopServer ctl ?req w = (r, w')" by (rule prod.exhaust)
  have "stoppable ?req" using sv tok own by (simp add: served_def stop_request_def token_meta_def token_ok_def own_names_def)
  from stop_done [OF w(1) this stop] w(2) own have "r = Inr ()" "\<not> running w' (tp_Sub token)"
    by (simp_all add: stop_request_def own_names_def)
  with stop show ?thesis by (simp add: handler_step_def answer_def)
qed

lemma race:
  assumes sv: "served E U name" and tok: "token_ok U name token" and link: "linked E U name ((db, n), w)"
    and rec: "recorded (tp_UserID token) db"
    and restart: "ctl_StartServer ctl (start_request_of E token) w = (Inr (dep, ns), w1)"
  shows "\<exists>db' n' w'. conc_reach E ctl (\<lambda>_ t. t = token) ((db, n), w)
      [(token, Finished None), (token, Finished None)] ((db', n'), w')
    \<and> recorded (tp_UserID token) db' \<and> \<not> running w' (tp_Sub token)"
proof -
  let ?step = "handler_step E ctl token" and ?reach = "conc_reach E ctl (\<lambda>_ t. t = token) ((db, n), w)"
  note rows = linked_rows [OF link] note w = linkedD(2) [OF link]
  note ok = handler_step_ok [OF sv tok]
  have short: "length (tp_Sub token) \<le> 30"
    using rec stream_rowsD [OF rows] tok by (auto simp: recorded_def token_ok_def sdb_inv_def list_all_iff)
  from find_outcome [OF sv rec] obtain x where s1: "?step (StopFind None, (db, n), w) = (StopDelete None x, (db, n + 1), w)" by blast
  from ok [OF rows w, of "StopFind None"] s1 have x: "phase_data E token (StopDelete None x)" "stream_rows E U name (db, n + 1)"
    by (simp_all add: step_ok_def)
  from delete_outcome [OF sv] obtain db2 where s2: "?step (StopDelete None x, (db, n + 1), w) = (StopCall None x, (db2, n + 2), w)"
    by (metis add_2_eq_Suc' Suc_eq_plus1)
  from ok [OF x(2) w x(1)] s2 rec have gone: "\<not> recorded (tp_UserID token) db2" "stream_rows E U name (db2, n + 2)"
    by (simp_all add: step_ok_def)
  have s3: "?step (StartCall, (db2, n + 2), w) = (StartInsert dep ns, (db2, n + 2), w1)"
    by (simp add: handler_step_def restart)
  from ok [OF gone(2) w, of StartCall] s3 have w1: "inv w1" "own_names E token dep ns" by (simp_all add: step_ok_def)
  from start_ok [OF w _ restart] sv tok have run: "running w1 (tp_Sub token)"
    by (simp add: start_request_of_def served_def token_meta_def token_ok_def)
  from insert_outcome [OF sv tok gone(2,1) short w1(2)] obtain db4 where
    s4: "?step (StartInsert dep ns, (db2, n + 2), w1) = (Finished None, (db4, n + 3), w1)" "recorded (tp_UserID token) db4"
    by (auto simp: numeral_eq_Suc)
  from stop_outcome [OF sv tok w1(1) run] x(1) obtain w5 where
    s5: "?step (StopCall None x, (db4, n + 3), w1) = (Finished None, (db4, n + 3), w5)" "\<not> running w5 (tp_Sub token)" by fastforce
  have "?reach [(token, StopFind None)] ((db, n), w)"
    using conc_reach.arrive [OF conc_reach.nothing, where may = "\<lambda>_ t. t = token" and token = token and ph = "StopFind None"]
    by simp
  then have "?reach [(token, StopDelete None x)] ((db, n + 1), w)"
    by (rule advance_to [OF _ s1, where k = 0]) simp_all
  then have "?reach [(token, StopCall None x)] ((db2, n + 2), w)"
    by (rule advance_to [OF _ s2, where k = 0]) simp_all
  from conc_reach.arrive [OF this, of token StartCall] have "?reach [(token, StopCall None x), (token, StartCall)] ((db2, n + 2), w)" by simp
  then have "?reach [(token, StopCall None x), (token, StartInsert dep ns)] ((db2, n + 2), w1)"
    by (rule advance_to [OF _ s3, where k = 1]) simp_all
  then have "?reach [(token, StopCall None x), (token, Finished None)] ((db4, n + 3), w1)"
    by (rule advance_to [OF _ s4(1), where k = 1]) simp_all
  then have "?reach [(token, Finished None), (token, Finished None)] ((db4, n + 3), w5)"
    by (rule advance_to [OF _ s5(1), where k = 0]) simp_all
  with s4(2) s5(2) show ?thesis by blast
qed

end

section \<open>Properties\<close>


text \<open>The requests are of users, and those of \<open>i\<close> come one at a time.\<close>

definition one_at_a_time :: "uuid set \<Rightarrow> (uuid \<Rightarrow> string) \<Rightarrow> uuid \<Rightarrow> requests \<Rightarrow> token_payload \<Rightarrow> bool" where
  "one_at_a_time U name i reqs token \<longleftrightarrow> user_token U name token \<and> (tp_UserID token = i \<longrightarrow> \<not> in_progress i reqs)"

lemma setup_linked:
  assumes "stream_setup env cl sch lo hi s E U name"
  shows "op.linked env cl sch (name ` U) (isa_Namespace (IngestStandalone (se_config E))) lo hi (os_templates s) E U name
    ((empty_sdb, 0), s, 0)"
  using setup_history [OF assms, of "[]"] by (simp add: stream_run_def)

lemma start_capacity:
  assumes "stream_setup env cl sch lo hi s E U name"
    and "list_all (\<lambda>oper. user_token U name (op_token oper)) ops"
    and "stream_run E (operator_client env sch) ops ((empty_sdb, 0), s, 0) = ((db, n), s1, k)"
    and "user_token U name token" and "\<not> recorded (tp_UserID token) db" and "length (tp_Sub token) \<le> 30"
  shows "length (active_streams db) \<le> card {lo..hi}
    \<and> (fst (StartIngestServer E (operator_client env sch) token ((db, n), s1, k)) = None
        \<longleftrightarrow> length (active_streams db) < card {lo..hi})"
proof -
  let ?req = "start_request_of E token" and ?A = "name ` U" let ?ns = "isa_Namespace (IngestStandalone (se_config E))"
  note link = setup_history [OF assms(1,2), unfolded assms(3)] note sv = setup_served [OF assms(1)]
  have tok: "op.token_ok U name token" using assms(4) by (simp add: user_token_ok)
  have inv: "operator_inv env cl sch ?A ?ns lo hi (os_templates s) (s1, k)" by (rule op.linkedD(2) [OF link])
  have adm: "start_served ?A ?ns (os_templates s) ?req"
    using sv tok by (simp add: op.served_def op.token_ok_def start_request_of_def token_meta_def)
  obtain r w1 where call: "ctl_StartServer (operator_client env sch) ?req (s1, k) = (r, w1)" by (rule prod.exhaust)
  note cap = operator_start_capacity [OF inv adm call]
  have here: "\<not> deployed_in cl ?A ?ns (s1, k) (req_Deployment ?req)"
    using op.linked_recorded(2) [OF sv tok link] assms(5) by (simp add: start_request_of_def)
  have "{d. deployed_in cl ?A ?ns (s1, k) d} = as_Deployment ` set (active_streams db)"
    using op.linkedD(4) [OF link] by auto
  then have size: "card {d. deployed_in cl ?A ?ns (s1, k) d} = length (active_streams db)"
    using op.linkedD(1) [OF link] distinct_card [of "map as_Deployment (active_streams db)"] by (simp add: sdb_inv_def)
  have "fst (StartIngestServer E (operator_client env sch) token ((db, n), s1, k)) = None \<longleftrightarrow> (\<exists>q. r = Inr q)"
  proof (cases r)
    case (Inl err)
    then show ?thesis using call by (simp add: StartIngestServer_def start_request_of_def Let_def)
  next
    case (Inr q)
    obtain dep ns1 where q: "q = (dep, ns1)" by (rule prod.exhaust)
    from op.start_ok [OF inv adm call [unfolded Inr q]] have own: "dep = tp_Sub token" "ns1 = ?ns"
      by (simp_all add: start_request_of_def)
    from op.insert_outcome [OF sv tok op.linked_rows [OF link] assms(5,6), of dep ns1 env sch w1] own
    show ?thesis using call Inr q
      by (auto simp: own_names_def StartIngestServer_def start_request_of_def Let_def handler_step_def split: sum.splits prod.splits if_splits)
  qed
  with cap size here show ?thesis by simp
qed

text \<open>C20: users do not interfere: with the requests of all users advancing in any order, a user who
  makes one request at a time has a deployment exactly when its stream is recorded, whenever none of
  its requests is in progress, even if other users send several requests at once; the constraints of
  the schema hold all the time.\<close>

theorem concurrent_users_do_not_interfere:
  assumes "stream_setup env cl sch lo hi s E U name" and "i \<in> U"
    and "conc_reach E (operator_client env sch) (one_at_a_time U name i) ((empty_sdb, 0), s, 0) reqs ((db, n), s', k)"
    and "ns = isa_Namespace (IngestStandalone (se_config E))"
  shows "sdb_inv db
    \<and> (in_progress i reqs \<or> (cl (os_world s') (KDeployment, ns, name i) \<noteq> None \<longleftrightarrow> recorded i db))"
proof -
  have "op.conc_ok env cl sch (name ` U) ns lo hi (os_templates s) E U name i reqs ((db, n), s', k)"
    unfolding assms(4)
    by (rule op.conc_reach_ok [OF assms(3) _ setup_served [OF assms(1)] assms(2) setup_linked [OF assms(1)]])
      (auto simp: one_at_a_time_def user_token_ok)
  then show ?thesis using assms(2)
    by (auto simp: op.conc_ok_def stream_rows_def deployed_in_def current_none [symmetric] split: list.splits)
qed

theorem concurrent_users_do_not_interfere_witness:
  "\<exists>ph db n s' k. conc_reach mem_stream_env (operator_client mem_env mem_schedules) (one_at_a_time {''1'', ''2''} two_users ''2'')
      ((empty_sdb, 0), mem_operator, 0) [(mem_token ''1'', ph), (mem_token ''2'', Finished (Some NotFoundActiveStream))] ((db, n), s', k)
    \<and> rank ph \<noteq> 0 \<and> sdb_inv db
    \<and> (mem_cl (os_world s') (KDeployment, ''default'', two_users ''2'') \<noteq> None \<longleftrightarrow> recorded ''2'' db)"
proof -
  let ?ctl = "operator_client mem_env mem_schedules" and ?t1 = "mem_token ''1''" and ?t2 = "mem_token ''2''"
  let ?may = "one_at_a_time {''1'', ''2''} two_users ''2''"
  let ?reach = "conc_reach mem_stream_env ?ctl ?may ((empty_sdb, 0), mem_operator, 0)"
  have id: "tp_UserID (mem_token i) = i" for i by (simp add: mem_token_def)
  have ns: "''default'' = isa_Namespace (IngestStandalone (se_config mem_stream_env))" by (simp add: mem_stream_env_def)
  obtain ph c w where call: "handler_step mem_stream_env ?ctl ?t1 (StartCall, (empty_sdb, 0), mem_operator, 0) = (ph, c, w)" by (metis prod.exhaust)
  then have ph: "rank ph \<noteq> 0" "c = (empty_sdb, 0)" by (auto simp: handler_step_def split: sum.splits prod.splits)
  obtain s' k where w: "w = (s', k)" by (rule prod.exhaust)
  have find: "handler_step mem_stream_env ?ctl ?t2 (StopFind None, c, w) = (Finished (Some NotFoundActiveStream), (empty_sdb, 1), w)"
    by (simp add: ph handler_step_def GetActiveStreamByBroadcasterId_def exec_stmt_def mem_stream_env_def empty_sdb_def answer_def)
  have "?reach [(?t1, StartCall)] ((empty_sdb, 0), mem_operator, 0)"
    using conc_reach.arrive [OF conc_reach.nothing, where may = ?may and token = ?t1 and ph = StartCall]
    by (simp add: one_at_a_time_def id)
  then have "?reach [(?t1, ph)] (c, w)"
    by (rule advance_to [OF _ call, where k = 0]) simp_all
  from conc_reach.arrive [OF this, of ?t2 "StopFind None"] have "?reach [(?t1, ph), (?t2, StopFind None)] (c, w)"
    by (simp add: one_at_a_time_def in_progress_def id)
  then have reach: "?reach [(?t1, ph), (?t2, Finished (Some NotFoundActiveStream))] ((empty_sdb, 1), s', k)"
    unfolding w by (rule advance_to [OF _ find [unfolded w], where k = 1]) simp_all
  moreover have "\<not> in_progress ''2'' [(?t1, ph), (?t2, Finished (Some NotFoundActiveStream))]"
    by (simp add: in_progress_def id)
  moreover have "''2'' \<in> {''1'', ''2''}" by simp
  from concurrent_users_do_not_interfere [OF mem_setup this reach ns] have "sdb_inv empty_sdb"
    "mem_cl (os_world s') (KDeployment, ''default'', two_users ''2'') \<noteq> None \<longleftrightarrow> recorded ''2'' empty_sdb"
    using calculation(2) by blast+
  ultimately show ?thesis using ph(1) by blast
qed

text \<open>C21: a user who sends a stop and a start at once can lose the ingest: from any history after which
  its stream is recorded, if the start comes between the stop's delete and its call of the operator,
  both requests are answered with success, and the stream is recorded while its deployment is gone.\<close>

theorem start_during_stop_loses_ingest:
  assumes "stream_setup env cl sch lo hi s E U name"
    and "list_all (\<lambda>oper. user_token U name (op_token oper)) ops"
    and "stream_run E (operator_client env sch) ops ((empty_sdb, 0), s, 0) = ((db, n), s1, k)"
    and "user_token U name token" and "recorded (tp_UserID token) db"
    and "ns = isa_Namespace (IngestStandalone (se_config E))"
  shows "\<exists>db' n' s' k'. conc_reach E (operator_client env sch) (\<lambda>_ t. t = token) ((db, n), s1, k)
      [(token, Finished None), (token, Finished None)] ((db', n'), s', k')
    \<and> recorded (tp_UserID token) db' \<and> cl (os_world s') (KDeployment, ns, tp_Sub token) = None"
proof -
  let ?req = "start_request_of E token" and ?A = "name ` U"
  note link = setup_history [OF assms(1,2), unfolded assms(3), folded assms(6)]
  note sv = setup_served [OF assms(1), folded assms(6)]
  have tok: "op.token_ok U name token" using assms(4) by (simp add: user_token_ok)
  have inv: "operator_inv env cl sch ?A ns lo hi (os_templates s) (s1, k)" by (rule op.linkedD(2) [OF link])
  have adm: "start_served ?A ns (os_templates s) ?req"
    using sv tok by (simp add: op.served_def op.token_ok_def start_request_of_def token_meta_def)
  have here: "deployed_in cl ?A ns (s1, k) (req_Deployment ?req)"
    using op.linked_recorded(2) [OF sv tok link] assms(5) by (simp add: start_request_of_def)
  obtain r w1 where call: "ctl_StartServer (operator_client env sch) ?req (s1, k) = (r, w1)" by (rule prod.exhaust)
  obtain dep ns1 where "r = Inr (dep, ns1)" using operator_start_capacity(2) [OF inv adm call] here by auto
  from op.race [OF sv tok link assms(5) call [unfolded this]] obtain db' n' s' k' where
    "conc_reach E (operator_client env sch) (\<lambda>_ t. t = token) ((db, n), s1, k)
      [(token, Finished None), (token, Finished None)] ((db', n'), s', k')"
    "recorded (tp_UserID token) db'" "\<not> deployed_in cl ?A ns (s', k') (tp_Sub token)" by (metis prod.exhaust)
  moreover have "tp_Sub token \<in> ?A" using assms(4) by (auto simp: user_token_def)
  ultimately show ?thesis by (auto simp: deployed_in_def)
qed

lemma two_ports: "0 < card {20000..20001 :: port}"
  by (simp add: card_gt_0_iff)

theorem start_during_stop_loses_ingest_witness:
  "\<exists>s0 db' n' s' k'. recorded ''1'' (fst (fst s0))
    \<and> conc_reach mem_stream_env (operator_client mem_env mem_schedules) (\<lambda>_ t. t = mem_token ''1'') s0
        [(mem_token ''1'', Finished None), (mem_token ''1'', Finished None)] ((db', n'), s', k')
    \<and> recorded ''1'' db' \<and> mem_cl (os_world s') (KDeployment, ''default'', ''alice'') = None"
proof -
  let ?ctl = "operator_client mem_env mem_schedules" and ?t = "mem_token ''1''" let ?s = "((empty_sdb, 0), mem_operator, 0)"
  have tok: "tp_UserID ?t = ''1''" "tp_Sub ?t = ''alice''" by (simp_all add: mem_token_def two_users_def)
  have ns: "''default'' = isa_Namespace (IngestStandalone (se_config mem_stream_env))" by (simp add: mem_stream_env_def)
  obtain e db n s1 k where run: "StartIngestServer mem_stream_env ?ctl ?t ?s = (e, (db, n), s1, k)" by (metis prod.exhaust)
  have "\<not> recorded (tp_UserID ?t) empty_sdb" by (simp add: recorded_def empty_sdb_def)
  with start_capacity [OF mem_setup, of "[]" empty_sdb 0 mem_operator 0 ?t] run two_ports have "e = None"
    by (simp add: stream_run_def tok empty_sdb_def)
  with op.start_linked [OF setup_served [OF mem_setup] _ setup_linked [OF mem_setup] run] have rec: "recorded ''1'' db"
    by (simp add: user_token_ok tok)
  have hist: "stream_run mem_stream_env ?ctl [StreamStart ?t] ?s = ((db, n), s1, k)" by (simp add: stream_run_def run)
  have ops: "list_all (\<lambda>oper. user_token {''1'', ''2''} two_users (op_token oper)) [StreamStart ?t]" by simp
  have "recorded (tp_UserID ?t) db" using rec by (simp add: tok)
  from start_during_stop_loses_ingest [OF mem_setup ops hist mem_user_token(1) this ns] rec show ?thesis
    unfolding tok by (intro exI [of _ "((db, n), s1, k)"]) auto
qed

text \<open>C22: the operator's ports are what limits the streams: there are never more streams than ports in
  its range, and a start by a user who has no stream, and a name that the schema can hold, succeeds
  exactly when there are fewer.\<close>

theorem start_succeeds_iff_port_free:
  assumes "stream_setup env cl sch lo hi s E U name"
    and "list_all (\<lambda>oper. user_token U name (op_token oper)) ops"
    and "stream_run E (operator_client env sch) ops ((empty_sdb, 0), s, 0) = ((db, n), s1, k)"
    and "user_token U name token" and "\<not> recorded (tp_UserID token) db" and "length (tp_Sub token) \<le> 30"
  shows "length (active_streams db) \<le> card {lo..hi}
    \<and> (fst (StartIngestServer E (operator_client env sch) token ((db, n), s1, k)) = None
        \<longleftrightarrow> length (active_streams db) < card {lo..hi})"
  by (rule start_capacity [OF assms])

theorem start_succeeds_iff_port_free_witness:
  "fst (StartIngestServer mem_stream_env (operator_client mem_env mem_schedules) (mem_token ''1'')
     ((empty_sdb, 0), mem_operator, 0)) = None"
proof -
  have tok: "tp_UserID (mem_token ''1'') = ''1''" "tp_Sub (mem_token ''1'') = ''alice''" by (simp_all add: mem_token_def two_users_def)
  have "\<not> recorded (tp_UserID (mem_token ''1'')) empty_sdb" by (simp add: recorded_def empty_sdb_def)
  with start_succeeds_iff_port_free [OF mem_setup, of "[]" empty_sdb 0 mem_operator 0 "mem_token ''1''"] two_ports
  show ?thesis by (simp add: stream_run_def tok empty_sdb_def)
qed

end
