(* ===== verification/StreamHandlers.thy ===== *)
theory StreamHandlers imports StreamMessages begin

text \<open>
  The HTTP face of the stream service: start, stop and the websocket channel of
  \<open>internal/handler/stream\<close>, the websocket peer of \<open>pkg/wspeer\<close>, and the channel lists of
  \<open>internal/handler/streamchannels\<close>.  Decoding a request body and a token payload are parameters, as
  is the upgrade to a websocket; a connection is a type variable.
\<close>

section \<open>handler/stream/handler\_err.go\<close>

text \<open>\<open>status.FromError\<close>: only an error that came over gRPC has a code.\<close>

fun status_FromError :: "goerr \<Rightarrow> (grpc_code \<times> string) option" where
  "status_FromError (StatusErr c m) = Some (c, m)"
| "status_FromError _ = None"

definition unableStartIngestServerErrorHandler :: "response_writer \<Rightarrow> goerr \<Rightarrow> response_writer" where
  "unableStartIngestServerErrorHandler w err =
     (case status_FromError err of
        Some (Unavailable, m) \<Rightarrow> WriteErrorResponse w 503 [''Ingest operator is not available.'', m]
      | Some (Aborted, m) \<Rightarrow>
          WriteErrorResponse w 409 [''Ingest server already running or something went wrong on ingest operator.'', m]
      | Some (_, m) \<Rightarrow> WriteErrorResponse w 500 [''Something went wrong on ingest operator'', m]
      | None \<Rightarrow>
          if err = UnableInsertStream then WriteErrorResponse w 500 [err_text err]
          else if err = StreamAlredyExists then WriteErrorResponse w 202 [err_text err]
          else WriteErrorResponse w 500 [err_text err])"

definition unableStopIngestServerErrorHandler :: "response_writer \<Rightarrow> goerr \<Rightarrow> response_writer" where
  "unableStopIngestServerErrorHandler w err =
     (if err = NotFoundActiveStream then WriteErrorResponse w 404 [err_text err]
      else if err = UnableStopStream then WriteErrorResponse w 202 [err_text err]
      else if err = UnableDeleteStream then WriteErrorResponse w 500 [err_text err]
      else WriteErrorResponse w 500 [err_text err])"

section \<open>handler/stream/handler.go\<close>

text \<open>The decoded request holds a template, which the handler does not use.\<close>

definition StreamingServiceStreamStart ::
  "stream_env \<Rightarrow> 'w controller \<Rightarrow> (string \<Rightarrow> goerr + string) \<Rightarrow> (string \<Rightarrow> goerr + token_payload)
    \<Rightarrow> http_request \<Rightarrow> response_writer \<Rightarrow> sconn \<times> 'w \<Rightarrow> response_writer \<times> sconn \<times> 'w" where
  "StreamingServiceStreamStart E ctl decode unmarshal r w s =
     (case decode (rq_body r) of
        Inl err \<Rightarrow> (WriteErrorResponse w 412 [''Unable deserialize request body.'', err_text err], s)
      | Inr request \<Rightarrow>
          (case WithTokenPayload unmarshal r of
             Inl err \<Rightarrow> (WriteErrorResponse w 500 [''Not found user token payload.'', err_text err], s)
           | Inr token \<Rightarrow>
               (case StartIngestServer E ctl token s of
                  (Some err, s1) \<Rightarrow> (unableStartIngestServerErrorHandler w err, s1)
                | (None, s1) \<Rightarrow> (w, s1))))"

definition StreamingServiceStreamStop ::
  "stream_env \<Rightarrow> 'w controller \<Rightarrow> (string \<Rightarrow> goerr + token_payload)
    \<Rightarrow> http_request \<Rightarrow> response_writer \<Rightarrow> sconn \<times> 'w \<Rightarrow> response_writer \<times> sconn \<times> 'w" where
  "StreamingServiceStreamStop E ctl unmarshal r w s =
     (case WithTokenPayload unmarshal r of
        Inl err \<Rightarrow> (WriteErrorResponse w 412 [''Not found user token payload'', err_text err], s)
      | Inr token \<Rightarrow>
          (case StopIngestServer E ctl token s of
             (Some err, s1) \<Rightarrow> (unableStopIngestServerErrorHandler w err, s1)
           | (None, s1) \<Rightarrow> (w, s1)))"

section \<open>pkg/wspeer\<close>

text \<open>
  A peer's connection is absent when the upgrade failed.  What a read yields is a message or an error
  of one of three kinds.  The messages that \<open>recv\<close> puts in the channel are collected.
\<close>

datatype ws_error = CloseError | ErrCloseSent | OtherReadError

record 'c ws_peer =
  wp_conn :: "'c option"
  wp_closed :: bool
  wp_done :: bool
  wp_msgs :: "string list"

definition NewWebsocketPeer :: "'c option \<Rightarrow> 'c ws_peer" where
  "NewWebsocketPeer ws = \<lparr>wp_conn = ws, wp_closed = False, wp_done = False, wp_msgs = []\<rparr>"

definition peer_Close :: "'c ws_peer \<Rightarrow> 'c ws_peer" where
  "peer_Close p = p\<lparr>wp_done := True, wp_closed := True\<rparr>"

definition onError :: "ws_error \<Rightarrow> 'c ws_peer \<Rightarrow> 'c ws_peer" where
  "onError err p =
     (if err = CloseError then peer_Close p
      else if err = ErrCloseSent then peer_Close p
      else p)"

text \<open>
  \<open>recv\<close> over what the reads yield, in order; a read that does not return is the end of the list, and
  the second component tells whether the loop has returned.  \<open>launch\<close> cancels the context then.
\<close>

fun recv :: "(ws_error + string) list \<Rightarrow> 'c ws_peer \<Rightarrow> 'c ws_peer \<times> bool" where
  "recv [] p = (p, wp_done p)"
| "recv (r # rs) p =
     (if wp_done p then (p, True)
      else case r of
        Inl err \<Rightarrow> (onError err p, True)
      | Inr payload \<Rightarrow> recv rs (p\<lparr>wp_msgs := wp_msgs p @ [payload]\<rparr>))"

definition launch :: "(ws_error + string) list \<Rightarrow> 'c ws_peer \<Rightarrow> 'c ws_peer" where
  "launch reads p = (case recv reads p of (p1, True) \<Rightarrow> p1\<lparr>wp_done := True\<rparr> | (p1, False) \<Rightarrow> p1)"

text \<open>The envelope of a protobuf message: its full name and its JSON text.\<close>

definition WebsocketProtobuf_Marshal :: "string \<Rightarrow> string \<Rightarrow> goerr + json" where
  "WebsocketProtobuf_Marshal full_name pjson =
     (if full_name = [] then Inl (GoErr ''empty descriptor name'')
      else Inr (JObj [(''type'', JStr full_name), (''data'', JStr pjson)]))"

section \<open>handler/stream/handler\_ws.go\<close>

text \<open>What the two subscriptions of a peer write to it for a message.\<close>

definition notifyPeerWhenIngestDeployed :: "'w bus \<Rightarrow> string \<Rightarrow> stream_status option" where
  "notifyPeerWhenIngestDeployed b data =
     (case DeserializeProtobufMsg_deployed b data of
        Inl err \<Rightarrow> None
      | Inr req \<Rightarrow> Some \<lparr>ss_Running = False, ss_Deployed = Deployed req\<rparr>)"

definition notifyPeerWhenStreamDestroyedNotification :: "string \<Rightarrow> stream_status option" where
  "notifyPeerWhenStreamDestroyedNotification data = Some \<lparr>ss_Running = False, ss_Deployed = False\<rparr>"

text \<open>
  The channel handler up to where it waits for the peer: the response, the peer whose goroutines it
  started, the first status it writes to it.  \<open>upgrade\<close> gives the connection or an error; its error is
  looked at only after the peer and its subscriptions are started.
\<close>

definition StreamingServiceStreamChannel ::
  "stream_env \<Rightarrow> (string \<Rightarrow> 's \<Rightarrow> (goerr + string) outcome \<times> 's) \<Rightarrow> (string \<Rightarrow> goerr + token_payload)
    \<Rightarrow> (http_request \<Rightarrow> goerr + 'c) \<Rightarrow> http_request \<Rightarrow> response_writer \<Rightarrow> sconn \<times> 's
    \<Rightarrow> (response_writer \<times> ('c ws_peer \<times> token_payload) option \<times> stream_status option) outcome \<times> sconn \<times> 's" where
  "StreamingServiceStreamChannel E validate_token unmarshal upgrade r w s =
     (let (c, s0) = s in
      case rq_cookie r ''_refresh_token'' of
        None \<Rightarrow> (Ret (WriteErrorResponse w 428 [''Unable get refresh token cookie.'', err_text ErrNoCookie], None, None), c, s0)
      | Some plainToken \<Rightarrow>
          (case validate_token plainToken s0 of
             (Panic m, s1) \<Rightarrow> (Panic m, c, s1)
           | (Ret (Inl err), s1) \<Rightarrow>
               (Ret (WriteErrorResponse w 428 [''Invalid refresh token.'', err_text err], None, None), c, s1)
           | (Ret (Inr tokenPayload), s1) \<Rightarrow>
               (case WithRawTokenPayload unmarshal tokenPayload of
                  Inl err \<Rightarrow>
                    (Ret (WriteErrorResponse w 500 [''Unable deserialize token payload'', err_text err], None, None), c, s1)
                | Inr payload \<Rightarrow>
                    (case upgrade r of
                       Inl err \<Rightarrow>
                         (Ret (WriteErrorResponse w 500 [''Unable upgrade http request'', err_text err],
                            Some (NewWebsocketPeer None, payload), None), c, s1)
                     | Inr conn \<Rightarrow>
                         (let (status, c1) = IsRunning E payload c
                          in (Ret (w, Some (NewWebsocketPeer (Some conn), payload), Some status), c1, s1))))))"

section \<open>handler/streamchannels\<close>

text \<open>The JSON of the results; a nil slice is \<open>null\<close>.\<close>

definition json_slice :: "('a \<Rightarrow> json) \<Rightarrow> 'a list \<Rightarrow> json" where
  "json_slice f xs = (if xs = [] then JNull else JArr (map f xs))"

definition egress_json :: "uuid \<Rightarrow> string \<Rightarrow> json" where
  "egress_json i t = JObj [(''id'', JStr i), (''type'', JStr t)]"

definition channels_json :: "running_stream list \<Rightarrow> json" where
  "channels_json xs = JObj [(''channels'', json_slice (\<lambda>x. JObj
     [(''active_stream_id'', JStr (rs_ID x)), (''username'', JStr (rs_Username x)),
      (''egresses'', json_slice (\<lambda>(i, t). JObj [(''egress'', egress_json i t)]) (rs_Egresses x))]) xs)]"

definition channel_json :: "stream_with_routes \<Rightarrow> json" where
  "channel_json x = JObj [(''channel'', JObj
     [(''active_stream_id'', JStr (sr_ID x)), (''username'', JStr (sr_User x)),
      (''egresses'', json_slice (\<lambda>e. JObj [(''egress'', egress_json (er_ID e) (er_Type e)),
         (''route'', JStr (er_Route e))]) (sr_Egresses x))])]"

definition unableGetActiveStreamsList :: "response_writer \<Rightarrow> goerr \<Rightarrow> response_writer" where
  "unableGetActiveStreamsList w err =
     (if err = UnableGetActiveStreamsListError then
        WriteErrorResponse w 500 [''Unable get active streams.'', err_text err]
      else WriteErrorResponse w 500 [''Something went wrong at GetActiveStreamsList .'', err_text err])"

definition unableGetActiveStream :: "response_writer \<Rightarrow> goerr \<Rightarrow> response_writer" where
  "unableGetActiveStream w err =
     (if err = UnableGetActiveStreamError then WriteErrorResponse w 500 [''Unable get active stream.'', err_text err]
      else if err = NotFoundGetActiveStreamError then WriteErrorResponse w 404 [''Unable get active stream.'', err_text err]
      else if err = StandaloneOnlyOperationError then WriteErrorResponse w 500 [''Server in standalone mode.'', err_text err]
      else WriteErrorResponse w 500 [''Unable get active stream.'', err_text err])"

definition StreamChannelsServiceStreamChannelList ::
  "stream_env \<Rightarrow> response_writer \<Rightarrow> sconn \<Rightarrow> response_writer \<times> sconn" where
  "StreamChannelsServiceStreamChannelList E w c =
     (case GetActiveStreamsList E c of
        (Inl err, c1) \<Rightarrow> (unableGetActiveStreamsList w err, c1)
      | (Inr result, c1) \<Rightarrow> (write_chunk (Json (channels_json result)) w, c1))"

definition StreamChannelsServiceGetStreamChannel ::
  "stream_env \<Rightarrow> string \<Rightarrow> response_writer \<Rightarrow> sconn \<Rightarrow> response_writer \<times> sconn" where
  "StreamChannelsServiceGetStreamChannel E username w c =
     (case GetActiveStream E username c of
        (Inl err, c1) \<Rightarrow> (unableGetActiveStream w err, c1)
      | (Inr result, c1) \<Rightarrow> (write_chunk (Json (channel_json result)) w, c1))"

section \<open>Lemmas\<close>

lemma new_writer_unsent [simp]: "w_sent new_writer = None" "resp_status new_writer = 200"
  by (simp_all add: http_model)

lemma resp_status_error [simp]: "resp_status (WriteErrorResponse new_writer code ms) = code"
  by (rule resp_WriteErrorResponse(1)) simp

lemma WithTokenPayload_ok:
  "rq_token r = Some p \<Longrightarrow> unmarshal p = Inr token \<Longrightarrow> WithTokenPayload unmarshal r = Inr token"
  by (simp add: WithTokenPayload_def)

lemma recv_messages:
  "\<not> wp_done p \<Longrightarrow> recv (map Inr ms @ rs) p = recv rs (p\<lparr>wp_msgs := wp_msgs p @ ms\<rparr>)"
  by (induction ms arbitrary: p) simp_all

lemma IsRunning_find:
  assumes "pg_fault (se_pg E) n = None"
  shows "fst (IsRunning E token (db, n)) =
    (case find (\<lambda>s. as_BroadcasterID s = tp_UserID token) (active_streams db) of
       None \<Rightarrow> \<lparr>ss_Running = False, ss_Deployed = False\<rparr>
     | Some s \<Rightarrow> \<lparr>ss_Running = as_Running s, ss_Deployed = as_Deployed s\<rparr>)"
  using assms by (simp add: IsRunning_def GetActiveStreamByBroadcasterId_def exec_stmt_def split: option.split)

lemma find_set_deployed:
  "find (\<lambda>s. as_BroadcasterID s = i) (set_deployed i d xs)
    = map_option (\<lambda>s. s\<lparr>as_Deployed := d\<rparr>) (find (\<lambda>s. as_BroadcasterID s = i) xs)"
  by (induction xs) (auto simp: set_deployed_def)

text \<open>A start and a stop after any history, answered over HTTP.\<close>

lemma start_stop_spec:
  assumes "stream_setup env cl sch lo hi s E U name"
    and "list_all (\<lambda>oper. user_token U name (op_token oper)) ops"
    and "stream_run E (operator_client env sch) ops ((empty_sdb, 0), s, 0) = ((db, n), s1, k)"
    and "ns = isa_Namespace (IngestStandalone (se_config E))"
    and "rq_token r = Some p" and "unmarshal p = Inr token" and "user_token U name token" and "decode (rq_body r) = Inr template"
  shows "(\<exists>w db' n' s' k'. StreamingServiceStreamStart E (operator_client env sch) decode unmarshal r new_writer ((db, n), s1, k)
        = (w, (db', n'), s', k')
      \<and> (resp_status w = 200 \<and> \<not> recorded (tp_UserID token) db \<and> recorded (tp_UserID token) db'
       \<or> resp_status w = 202 \<and> recorded (tp_UserID token) db \<and> recorded (tp_UserID token) db'
       \<or> resp_status w = 500 \<and> \<not> recorded (tp_UserID token) db')
      \<and> (cl (os_world s') (KDeployment, ns, tp_Sub token) \<noteq> None \<longleftrightarrow> recorded (tp_UserID token) db'))
    \<and> (\<exists>w db' n' s' k'. StreamingServiceStreamStop E (operator_client env sch) unmarshal r new_writer ((db, n), s1, k)
        = (w, (db', n'), s', k')
      \<and> resp_status w = (if recorded (tp_UserID token) db then 200 else 404) \<and> \<not> recorded (tp_UserID token) db'
      \<and> cl (os_world s') (KDeployment, ns, tp_Sub token) = None)"
proof -
  let ?ctl = "operator_client env sch" let ?linked = "op.linked env cl sch (name ` U) ns lo hi (os_templates s) E U name"
  have link: "?linked ((db, n), s1, k)" using setup_history [OF assms(1,2)] assms(3,4) by simp
  have sv: "op.served (name ` U) ns (os_templates s) E U name" using setup_served [OF assms(1)] assms(4) by simp
  have tok: "op.token_ok U name token" using assms(7) by (simp add: user_token_ok)
  have payload: "WithTokenPayload unmarshal r = Inr token" by (rule WithTokenPayload_ok [where unmarshal = unmarshal, OF assms(5,6)])
  have A: "tp_Sub token \<in> name ` U" using assms(7) by (simp add: user_token_def)
  have cluster: "cl (os_world s') (KDeployment, ns, tp_Sub token) \<noteq> None \<longleftrightarrow> recorded (tp_UserID token) db'"
    if "?linked ((db', n'), s', k')" for db' n' s' k'
    using linked_cluster(3) [OF that assms(4) A] op.linked_recorded(1) [OF sv tok that] by simp
  obtain e1 db1 n1 s2 k1 where start: "StartIngestServer E ?ctl token ((db, n), s1, k) = (e1, (db1, n1), s2, k1)"
    by (metis prod.exhaust)
  obtain e2 db2 n2 s3 k2 where stop: "StopIngestServer E ?ctl token ((db, n), s1, k) = (e2, (db2, n2), s3, k2)"
    by (metis prod.exhaust)
  have "?linked (snd (StopIngestServer E ?ctl token ((db, n), s1, k)))"
    by (rule op.stop_linked [OF sv tok op.linkedD(1,2,3) [OF link]]) (simp_all add: op.linkedD(4) [OF link])
  with stop have "?linked ((db2, n2), s3, k2)" by simp
  with cluster [OF this] op.stop_result [OF sv tok link stop] stop
  have "\<exists>w db' n' s' k'. StreamingServiceStreamStop E ?ctl unmarshal r new_writer ((db, n), s1, k)
        = (w, (db', n'), s', k')
      \<and> resp_status w = (if recorded (tp_UserID token) db then 200 else 404) \<and> \<not> recorded (tp_UserID token) db'
      \<and> cl (os_world s') (KDeployment, ns, tp_Sub token) = None"
    by (simp add: StreamingServiceStreamStop_def payload unableStopIngestServerErrorHandler_def)
  moreover
  note res = op.start_linked [OF sv tok link start]
  from res cluster start
  have "\<exists>w db' n' s' k'. StreamingServiceStreamStart E ?ctl decode unmarshal r new_writer ((db, n), s1, k)
        = (w, (db', n'), s', k')
      \<and> (resp_status w = 200 \<and> \<not> recorded (tp_UserID token) db \<and> recorded (tp_UserID token) db'
       \<or> resp_status w = 202 \<and> recorded (tp_UserID token) db \<and> recorded (tp_UserID token) db'
       \<or> resp_status w = 500 \<and> \<not> recorded (tp_UserID token) db')
      \<and> (cl (os_world s') (KDeployment, ns, tp_Sub token) \<noteq> None \<longleftrightarrow> recorded (tp_UserID token) db')"
    by (auto simp: StreamingServiceStreamStart_def payload assms(8) unableStartIngestServerErrorHandler_def
        StreamAlredyExists_def UnableInsertStream_def)
  ultimately show ?thesis by blast
qed

section \<open>Properties\<close>

text \<open>C24: what the answer to a start or a stop says, after any history of starts and stops: a start is
  answered with 200 when it recorded a stream that was not recorded, with 202 when the stream was
  recorded already, and with 500 when it is not recorded afterwards; a stop with 200 or 404 according
  to whether the stream was recorded; and after either, the deployment exists exactly if the stream is
  recorded.\<close>

theorem start_stop_statuses:
  assumes "stream_setup env cl sch lo hi s E U name"
    and "list_all (\<lambda>oper. user_token U name (op_token oper)) ops"
    and "stream_run E (operator_client env sch) ops ((empty_sdb, 0), s, 0) = ((db, n), s1, k)"
    and "ns = isa_Namespace (IngestStandalone (se_config E))"
    and "rq_token r = Some p" and "unmarshal p = Inr token" and "user_token U name token" and "decode (rq_body r) = Inr template"
  shows "(\<exists>w db' n' s' k'. StreamingServiceStreamStart E (operator_client env sch) decode unmarshal r new_writer ((db, n), s1, k)
        = (w, (db', n'), s', k')
      \<and> (resp_status w = 200 \<and> \<not> recorded (tp_UserID token) db \<and> recorded (tp_UserID token) db'
       \<or> resp_status w = 202 \<and> recorded (tp_UserID token) db \<and> recorded (tp_UserID token) db'
       \<or> resp_status w = 500 \<and> \<not> recorded (tp_UserID token) db')
      \<and> (cl (os_world s') (KDeployment, ns, tp_Sub token) \<noteq> None \<longleftrightarrow> recorded (tp_UserID token) db'))
    \<and> (\<exists>w db' n' s' k'. StreamingServiceStreamStop E (operator_client env sch) unmarshal r new_writer ((db, n), s1, k)
        = (w, (db', n'), s', k')
      \<and> resp_status w = (if recorded (tp_UserID token) db then 200 else 404) \<and> \<not> recorded (tp_UserID token) db'
      \<and> cl (os_world s') (KDeployment, ns, tp_Sub token) = None)"
  by (rule start_stop_spec [where unmarshal = unmarshal and decode = decode and r = r, OF assms])

theorem start_stop_statuses_witness:
  "\<exists>w db' n' s' k'. StreamingServiceStreamStart mem_stream_env (operator_client mem_env mem_schedules) Inr (\<lambda>_. Inr (mem_token ''1''))
        \<lparr>rq_method = ''POST'', rq_path = ''/'', rq_header = (\<lambda>_. ''''), rq_cookie = Map.empty, rq_body = ''{}'', rq_token = Some ''payload''\<rparr> new_writer
        (stream_run mem_stream_env (operator_client mem_env mem_schedules) [StreamStart (mem_token ''2'')] ((empty_sdb, 0), mem_operator, 0))
      = (w, (db', n'), s', k')
    \<and> resp_status w \<in> {200, 202, 500}
    \<and> (mem_cl (os_world s') (KDeployment, ''default'', ''alice'') \<noteq> None \<longleftrightarrow> recorded ''1'' db')"
proof -
  let ?r = "\<lparr>rq_method = ''POST'', rq_path = ''/'', rq_header = (\<lambda>_. ''''), rq_cookie = Map.empty, rq_body = ''{}'', rq_token = Some ''payload''\<rparr>"
  obtain db n s1 k where run: "stream_run mem_stream_env (operator_client mem_env mem_schedules) [StreamStart (mem_token ''2'')]
      ((empty_sdb, 0), mem_operator, 0) = ((db, n), s1, k)" by (metis prod.exhaust)
  have ns: "''default'' = isa_Namespace (IngestStandalone (se_config mem_stream_env))" by (simp add: mem_stream_env_def)
  have tok: "tp_UserID (mem_token ''1'') = ''1''" "tp_Sub (mem_token ''1'') = ''alice''"
    by (simp_all add: mem_token_def two_users_def)
  have ops: "list_all (\<lambda>oper. user_token {''1'', ''2''} two_users (op_token oper)) [StreamStart (mem_token ''2'')]" by simp
  have rq: "rq_token ?r = Some ''payload''" by simp
  from start_stop_statuses [where r = ?r and unmarshal = "\<lambda>_. Inr (mem_token ''1'')" and decode = Inr,
      OF mem_setup ops run ns rq refl mem_user_token(1) refl, THEN conjunct1]
  obtain w db' n' s' k' where w: "StreamingServiceStreamStart mem_stream_env (operator_client mem_env mem_schedules) Inr
      (\<lambda>_. Inr (mem_token ''1'')) ?r new_writer ((db, n), s1, k) = (w, (db', n'), s', k')"
    "resp_status w \<in> {200, 202, 500}" "mem_cl (os_world s') (KDeployment, ''default'', ''alice'') \<noteq> None \<longleftrightarrow> recorded ''1'' db'"
    unfolding tok by blast
  then show ?thesis unfolding run by blast
qed

text \<open>A websocket peer ends with its reads: it hands on the messages read before the first error, in
  order, and with the error its context ends, so that the handler and its subscriptions end too; while
  the reads yield messages only, it goes on.  The connection itself is closed only for an error that
  says it is closed already.\<close>

theorem peer_ends_with_reads:
  "launch (map Inr ms @ Inl err # rest) (NewWebsocketPeer (Some conn))
      = \<lparr>wp_conn = Some conn, wp_closed = (err \<noteq> OtherReadError), wp_done = True, wp_msgs = ms\<rparr>
   \<and> launch (map Inr ms) (NewWebsocketPeer (Some conn))
      = \<lparr>wp_conn = Some conn, wp_closed = False, wp_done = False, wp_msgs = ms\<rparr>"
proof -
  have msgs: "recv (map Inr ms @ rs) (NewWebsocketPeer (Some conn))
      = recv rs \<lparr>wp_conn = Some conn, wp_closed = False, wp_done = False, wp_msgs = ms\<rparr>" for rs
    using recv_messages [of "NewWebsocketPeer (Some conn)" ms rs] by (simp add: NewWebsocketPeer_def)
  show ?thesis unfolding launch_def msgs msgs [of "[]", simplified]
    by (cases err) (simp_all add: onError_def peer_Close_def)
qed

text \<open>What a peer is told when its ingest is deployed, or its stream destroyed, is what the service
  would answer if asked after the worker has handled the message, provided the worker recorded it and no
  stream is marked running; and no stream is marked running then.\<close>

theorem pushed_status_agrees:
  assumes "\<forall>k. pg_fault (se_pg E) k = None" and "list_all (\<lambda>x. \<not> as_Running x) (active_streams db)"
    and "pb_Unmarshal_deployed b data = Inr req" and "Deployed_Meta req = Some m"
    and "pb_Unmarshal_destroyed b notice = Inr (destroyed_of token)"
    and "parse (BroadcasterId m) = Inr (tp_UserID token)" and "parse (tp_UserID token) = Inr (tp_UserID token)"
    and "find (\<lambda>s. as_BroadcasterID s = tp_UserID token) (active_streams db) = Some x"
    and "rows_ok req db (message_rows (se_pg E) (n + 2) req x)" and "d \<le> retry"
  shows "notifyPeerWhenIngestDeployed b data = Some (fst (IsRunning E token (snd (status_handler (se_pg E) b parse data (db, n)))))
    \<and> list_all (\<lambda>x. \<not> as_Running x) (active_streams (fst (snd (status_handler (se_pg E) b parse data (db, n)))))
    \<and> notifyPeerWhenStreamDestroyedNotification body = Some (fst (IsRunning E token
        (fst (snd (destroyed_handler (se_pg E) b parse \<lparr>jm_NumDelivered = Some d, jm_Data = notice\<rparr> ((db, n), u))))))"
proof -
  have nf: "pg_fault (se_pg E) k = None" for k using assms(1) by blast
  have st: "status_handler (se_pg E) b parse data (db, n) = (Ret (), db\<lparr>active_streams := set_deployed (tp_UserID token) (Deployed req) (active_streams db),
             stream_egresses := stream_egresses db @ message_rows (se_pg E) (n + 2) req x\<rparr>, n + 4)"
    using status_effect [where parse = parse and i = "tp_UserID token", OF nf assms(3,4,6), of db n] assms(8,9) by simp
  have "x \<in> set (active_streams db)" using assms(8) by (auto dest: find_SomeD)
  then have idle: "\<not> as_Running x" using assms(2) by (auto simp: list_all_iff)
  have "notifyPeerWhenIngestDeployed b data = Some (fst (IsRunning E token (snd (status_handler (se_pg E) b parse data (db, n)))))"
    unfolding st snd_conv IsRunning_find [OF nf]
    using idle assms(3,8) by (simp add: find_set_deployed notifyPeerWhenIngestDeployed_def DeserializeProtobufMsg_deployed_def)
  moreover have "list_all (\<lambda>x. \<not> as_Running x) (active_streams (fst (snd (status_handler (se_pg E) b parse data (db, n)))))"
    unfolding st using assms(2) by (auto simp: set_deployed_def list_all_iff)
  moreover obtain db' err u' where
      del: "DeleteActiveStreamByBroadcasterId (se_pg E) (tp_UserID token) (db, n) = (Inr (), db', n + 1)"
    and keep: "active_streams db' = filter (\<lambda>s. as_BroadcasterID s \<noteq> tp_UserID token) (active_streams db)"
    and pub: "nats_Publish b (NewStreamDestroyedNotification (tp_UserID token)) '''' u = (err, u')"
    using nf by (cases "nats_Publish b (NewStreamDestroyedNotification (tp_UserID token)) '''' u") (simp add: delete_stream_eq)
  have "fst (snd (destroyed_handler (se_pg E) b parse \<lparr>jm_NumDelivered = Some d, jm_Data = notice\<rparr> ((db, n), u))) = (db', n + 1)"
    using assms(5,7,10) del pub by (cases err)
      (simp_all add: destroyed_handler_def DeserializeProtobufMsg_destroyed_def destroyed_of_def)
  moreover have "find (\<lambda>s. as_BroadcasterID s = tp_UserID token) (active_streams db') = None"
    by (auto simp: keep find_None_iff')
  ultimately show ?thesis
    by (simp add: IsRunning_find [OF nf] notifyPeerWhenStreamDestroyedNotification_def)
qed

theorem pushed_status_agrees_witness:
  "notifyPeerWhenIngestDeployed bob_bus ''deployed''
      = Some (fst (IsRunning standalone_env (mem_token ''2'') (snd (status_handler (se_pg standalone_env) bob_bus Inr ''deployed'' (bob_db, 0)))))
    \<and> notifyPeerWhenIngestDeployed bob_bus ''deployed'' = Some \<lparr>ss_Running = False, ss_Deployed = True\<rparr>"
proof -
  have pg: "\<forall>k. pg_fault (se_pg standalone_env) k = None" by (simp add: bob_message(1))
  have "list_all (\<lambda>x. \<not> as_Running x) (active_streams bob_db)" by (simp add: bob_db_def)
  from pushed_status_agrees [where parse = Inr and d = 1 and n = 0 and u = "[]" and token = "mem_token ''2''" and x = bob_stream,
      OF pg this bob_message(2,4,3) _ _ _ bob_message(7)] bob_message(5)
  show ?thesis
    by (simp add: mem_token_def retry_def)
      (simp add: notifyPeerWhenIngestDeployed_def DeserializeProtobufMsg_deployed_def one_bus_def stub_message_def)
qed

end
