(* ===== verification/StreamRouting.thy ===== *)
theory StreamRouting imports StreamHandlers begin

text \<open>
  Who receives which message: the subscriptions that the stream service makes when it starts
  (\<open>Start\<close> of the two workers, \<open>pkg/subject/jetstream.go\<close>) and for each websocket peer
  (\<open>handler\_ws.go\<close>), and what happens to a message that the operator or an ingest publishes until no
  message is left.  How NATS matches subjects is a parameter with the documented law.
\<close>

section \<open>NATS subjects\<close>

text \<open>A subject is a list of tokens separated by dots; \<open>*\<close> in a subscription stands for one token.\<close>

fun subject_tokens :: "string \<Rightarrow> string list" where
  "subject_tokens [] = [[]]"
| "subject_tokens (c # s) =
     (if c = CHR ''.'' then [] # subject_tokens s
      else (case subject_tokens s of t # ts \<Rightarrow> (c # t) # ts | [] \<Rightarrow> [[c]]))"

definition token_match :: "string list \<Rightarrow> string list \<Rightarrow> bool" where
  "token_match ps ss = list_all2 (\<lambda>a b. a = ''*'' \<or> a = b) ps ss"

definition subject_laws :: "(string \<Rightarrow> string \<Rightarrow> bool) \<Rightarrow> bool" where
  "subject_laws matches \<longleftrightarrow>
     (\<forall>p s. CHR ''>'' \<notin> set p \<longrightarrow> [] \<notin> set (subject_tokens s) \<longrightarrow>
        matches p s = token_match (subject_tokens p) (subject_tokens s))"

text \<open>An id that can stand in a subject: not empty, no dot and no wildcard.\<close>

definition plain_token :: "string \<Rightarrow> bool" where
  "plain_token t \<longleftrightarrow> t \<noteq> [] \<and> CHR ''.'' \<notin> set t \<and> CHR ''*'' \<notin> set t \<and> CHR ''>'' \<notin> set t"

section \<open>pkg/subject/jetstream.go\<close>

datatype retention_policy = LimitsPolicy | InterestPolicy | WorkQueuePolicy

datatype discard_policy = DiscardOld | DiscardNew

record stream_config =
  sc_Name :: string
  sc_Retention :: retention_policy
  sc_Subjects :: "string list"
  sc_Discard :: discard_policy

definition INGEST_DESTROYING_STREAM :: string where
  "INGEST_DESTROYING_STREAM = ''INGEST-DESTROYING''"

definition INGEST_DESTROYING_STREAM_CONFIG :: stream_config where
  "INGEST_DESTROYING_STREAM_CONFIG = \<lparr>sc_Name = INGEST_DESTROYING_STREAM, sc_Retention = InterestPolicy,
     sc_Subjects = [IngestAnyUserDestroyed], sc_Discard = DiscardOld\<rparr>"

section \<open>The subscriptions\<close>

datatype ack_policy = AckNonePolicy | AckAllPolicy | AckExplicitPolicy

datatype deliver_policy = DeliverAllPolicy | DeliverLastPolicy | DeliverNewPolicy | DeliverLastPerSubjectPolicy

text \<open>\<open>AckWait\<close> is in seconds.\<close>

record consumer_config =
  cc_Durable :: string
  cc_DeliverSubject :: string
  cc_DeliverGroup :: string
  cc_AckWait :: nat
  cc_AckPolicy :: ack_policy
  cc_DeliverPolicy :: deliver_policy
  cc_FilterSubject :: string

datatype sub_opt = BindOpt string string | ManualAckOpt | AckExplicitOpt | DeliverLastPerSubjectOpt

datatype subscriber = StatusWorker | DestroyedWorker | PeerDeployed uuid | PeerDestroyed uuid

text \<open>A subscription on a subject, or of a group bound to a consumer of a stream.\<close>

datatype subscription =
    CoreSub string subscriber
  | StreamSub string stream_config consumer_config "sub_opt list" subscriber

definition status_worker_Start :: "(string \<Rightarrow> goerr option) \<Rightarrow> subscription list" where
  "status_worker_Start subscribe =
     (case subscribe IngestAnyUserDeployed of None \<Rightarrow> [CoreSub IngestAnyUserDeployed StatusWorker] | Some err \<Rightarrow> [])"

definition destroyed_consumer :: consumer_config where
  "destroyed_consumer = (let queueGroup = ''ingest-destroyed-processor-1'' in
     \<lparr>cc_Durable = queueGroup, cc_DeliverSubject = queueGroup, cc_DeliverGroup = queueGroup, cc_AckWait = 1,
      cc_AckPolicy = AckExplicitPolicy, cc_DeliverPolicy = DeliverLastPerSubjectPolicy,
      cc_FilterSubject = IngestAnyUserDestroyed\<rparr>)"

text \<open>
  The errors of adding the stream and the consumer are only logged: the subscription is tried in any
  case, and binds to what there is.  What is deferred never runs, since nothing ends the wait after it.
\<close>

record js_calls =
  jc_AddStream :: "stream_config \<Rightarrow> goerr option"
  jc_AddConsumer :: "string \<Rightarrow> consumer_config \<Rightarrow> goerr option"
  jc_QueueSubscribe :: "string \<Rightarrow> string \<Rightarrow> sub_opt list \<Rightarrow> goerr option"

definition destroyed_worker_Start :: "js_calls \<Rightarrow> string list \<times> subscription list" where
  "destroyed_worker_Start js =
     (let queueGroup = cc_Durable destroyed_consumer; subjectT = IngestAnyUserDestroyed;
          log1 = (case jc_AddStream js INGEST_DESTROYING_STREAM_CONFIG of
             None \<Rightarrow> [] | Some err \<Rightarrow> [''[Ingest Destroyed Worker] Unable add stream '' @ INGEST_DESTROYING_STREAM @ ''. Err: '' @ err_text err]);
          log2 = (case jc_AddConsumer js INGEST_DESTROYING_STREAM destroyed_consumer of
             None \<Rightarrow> [] | Some err \<Rightarrow> [''[Ingest Destroyed Worker] Unable add consumer '' @ queueGroup @ ''. Err: '' @ err_text err]);
          opts = [BindOpt INGEST_DESTROYING_STREAM queueGroup, ManualAckOpt, AckExplicitOpt, DeliverLastPerSubjectOpt]
      in case jc_QueueSubscribe js subjectT queueGroup opts of
           None \<Rightarrow> (log1 @ log2, [StreamSub queueGroup INGEST_DESTROYING_STREAM_CONFIG destroyed_consumer opts DestroyedWorker])
         | Some err \<Rightarrow> (log1 @ log2 @ [''[Ingest Destroyed Worker] Catch error at subscribe queue '' @ queueGroup
              @ ''. Err: '' @ err_text err], []))"

text \<open>The two goroutines of a peer.\<close>

definition peer_subscriptions :: "(string \<Rightarrow> goerr option) \<Rightarrow> uuid \<Rightarrow> subscription list" where
  "peer_subscriptions subscribe i =
     (case subscribe (NewIngestDeployed i) of None \<Rightarrow> [CoreSub (NewIngestDeployed i) (PeerDeployed i)] | Some err \<Rightarrow> [])
   @ (case subscribe (NewStreamDestroyedNotification i) of
        None \<Rightarrow> [CoreSub (NewStreamDestroyedNotification i) (PeerDestroyed i)] | Some err \<Rightarrow> [])"

text \<open>Who hears a message: a stream keeps it if one of its subjects matches, its consumer filters.\<close>

fun hears :: "(string \<Rightarrow> string \<Rightarrow> bool) \<Rightarrow> string \<Rightarrow> subscription \<Rightarrow> subscriber list" where
  "hears matches s (CoreSub p x) = (if matches p s then [x] else [])"
| "hears matches s (StreamSub g st co opts x) =
     (if list_ex (\<lambda>p. matches p s) (sc_Subjects st) \<and> matches (cc_FilterSubject co) s then [x] else [])"

definition receivers :: "(string \<Rightarrow> string \<Rightarrow> bool) \<Rightarrow> subscription list \<Rightarrow> string \<Rightarrow> subscriber list" where
  "receivers matches subs s = concat (map (hears matches s) subs)"

text \<open>The subscriptions of a service with these peers, when NATS accepts them.\<close>

definition service_subscriptions :: "js_calls \<Rightarrow> uuid list \<Rightarrow> subscription list" where
  "service_subscriptions js peers =
     status_worker_Start (\<lambda>_. None) @ snd (destroyed_worker_Start js) @ concat (map (peer_subscriptions (\<lambda>_. None)) peers)"

section \<open>Writing to a peer\<close>

text \<open>
  \<open>Write\<close> and \<open>WriteProtobuf\<close> of \<open>pkg/wspeer\<close>, over what the connection's calls return.  A peer without a
  connection, whose upgrade failed, panics.
\<close>

definition peer_Write :: "('c \<Rightarrow> ws_error option) \<Rightarrow> 'c ws_peer \<Rightarrow> 'c ws_peer outcome" where
  "peer_Write write p =
     (case wp_conn p of
        None \<Rightarrow> nil_deref
      | Some c \<Rightarrow> (case write c of None \<Rightarrow> Ret p | Some err \<Rightarrow> Ret (onError err p)))"

record ws_write =
  ww_NextWriter :: "goerr option"
  ww_Encode :: "goerr option"
  ww_Close :: "goerr option"

definition WriteProtobuf :: "ws_write \<Rightarrow> string \<Rightarrow> string \<Rightarrow> 'c ws_peer \<Rightarrow> (goerr option \<times> json list) outcome" where
  "WriteProtobuf ww full_name pjson p =
     (case WebsocketProtobuf_Marshal full_name pjson of
        Inl err \<Rightarrow> Ret (Some err, [])
      | Inr wsproto \<Rightarrow>
          (case wp_conn p of
             None \<Rightarrow> nil_deref
           | Some c \<Rightarrow>
               (case ww_NextWriter ww of
                  Some err \<Rightarrow> Ret (Some err, [])
                | None \<Rightarrow>
                    (case ww_Encode ww of
                       Some err1 \<Rightarrow> Ret (Some err1, [])
                     | None \<Rightarrow> Ret (ww_Close ww, [wsproto])))))"

text \<open>The ping loop over its ticks, each with what the write returns; the list ends with the context.\<close>

fun ping :: "('c \<Rightarrow> ws_error option) list \<Rightarrow> 'c ws_peer \<Rightarrow> 'c ws_peer outcome" where
  "ping [] p = Ret p"
| "ping (tick # ticks) p = (case peer_Write tick p of Panic m \<Rightarrow> Panic m | Ret p1 \<Rightarrow> ping ticks p1)"

lemma WriteProtobuf_upgraded:
  assumes "wp_conn p = Some c" and "full_name \<noteq> []"
  shows "\<exists>err sent. WriteProtobuf ww full_name pjson p = Ret (err, sent)
    \<and> (err = None \<longrightarrow> sent = [JObj [(''type'', JStr full_name), (''data'', JStr pjson)]])"
  using assms by (auto simp: WriteProtobuf_def WebsocketProtobuf_Marshal_def split: option.split)

lemma ping_upgraded: "wp_conn p = Some c \<Longrightarrow> \<exists>p1. ping ticks p = Ret p1 \<and> wp_conn p1 = Some c \<and> wp_msgs p1 = wp_msgs p"
proof (induction ticks arbitrary: p)
  case (Cons tick ticks)
  obtain p1 where "peer_Write tick p = Ret p1" "wp_conn p1 = Some c" "wp_msgs p1 = wp_msgs p"
    using Cons.prems by (cases "tick c") (auto simp: peer_Write_def onError_def peer_Close_def)
  with Cons.IH [of p1] show ?case by simp
qed simp

section \<open>Lemmas on subjects\<close>

lemma subject_tokens_ne: "subject_tokens s \<noteq> []"
  by (induction s) (auto split: list.split)

lemma subject_tokens_append: "subject_tokens (a @ CHR ''.'' # b) = subject_tokens a @ subject_tokens b"
proof (induction a)
  case (Cons c a)
  then show ?case using subject_tokens_ne [of a] by (auto split: list.splits)
qed simp

lemma subject_tokens_plain: "CHR ''.'' \<notin> set t \<Longrightarrow> subject_tokens t = [t]"
  by (induction t) auto

lemma subject_tokens_dotted: "CHR ''.'' \<notin> set t \<Longrightarrow> subject_tokens (t @ CHR ''.'' # s) = t # subject_tokens s"
  by (simp add: subject_tokens_append subject_tokens_plain)

lemma tokens_of_subjects:
  assumes "CHR ''.'' \<notin> set i"
  shows "subject_tokens (NewIngestDeployed i) = [''ingest'', i, ''deployed'']"
    and "subject_tokens (NewIngestDestroyed i) = [''public'', ''ingest'', ''in'', i, ''destroyed'', ''protobuf'']"
    and "subject_tokens (NewStreamDestroyedNotification i) = [''private'', ''stream'', ''destroyed'', ''notification'', i, ''empty'']"
  using subject_tokens_dotted [OF assms, of "''deployed''"] subject_tokens_dotted [OF assms, of "''destroyed.protobuf''"]
    subject_tokens_dotted [OF assms, of "''empty''"]
  by (simp_all add: NewIngestDeployed_eq NewIngestDestroyed_eq NewStreamDestroyedNotification_eq)

lemma tokens_of_patterns:
  "subject_tokens IngestAnyUserDeployed = [''ingest'', ''*'', ''deployed'']"
  "subject_tokens IngestAnyUserDestroyed = [''public'', ''ingest'', ''in'', ''*'', ''destroyed'', ''protobuf'']"
  by (simp_all add: IngestAnyUserDeployed_def IngestAnyUserDestroyed_def)

lemma plain_subjects:
  assumes "plain_token i"
  shows "CHR ''>'' \<notin> set (NewIngestDeployed i)" "CHR ''>'' \<notin> set (NewIngestDestroyed i)"
    "CHR ''>'' \<notin> set (NewStreamDestroyedNotification i)"
  using assms by (simp_all add: plain_token_def NewIngestDeployed_eq NewIngestDestroyed_eq NewStreamDestroyedNotification_eq)

lemma plain_patterns: "CHR ''>'' \<notin> set IngestAnyUserDeployed" "CHR ''>'' \<notin> set IngestAnyUserDestroyed"
  by (simp_all add: IngestAnyUserDeployed_def IngestAnyUserDestroyed_def)

lemma matches_subjects:
  assumes "subject_laws matches" and "plain_token i" and "CHR ''>'' \<notin> set p"
  shows "matches p (NewIngestDeployed i) = token_match (subject_tokens p) [''ingest'', i, ''deployed'']"
    and "matches p (NewIngestDestroyed i) = token_match (subject_tokens p) [''public'', ''ingest'', ''in'', i, ''destroyed'', ''protobuf'']"
    and "matches p (NewStreamDestroyedNotification i)
      = token_match (subject_tokens p) [''private'', ''stream'', ''destroyed'', ''notification'', i, ''empty'']"
  using assms tokens_of_subjects [of i] by (auto simp: subject_laws_def plain_token_def)

lemma token_match_simps [simp]:
  "token_match [] [] = True" "token_match (a # as) (b # bs) = ((a = ''*'' \<or> a = b) \<and> token_match as bs)"
  "token_match [] (b # bs) = False" "token_match (a # as) [] = False"
  by (simp_all add: token_match_def)

text \<open>Which of the service's subscriptions hear the messages of a broadcaster.\<close>

lemma peer_hears:
  assumes "subject_laws matches" and "plain_token i" and "plain_token j"
  shows "receivers matches (peer_subscriptions (\<lambda>_. None) j) (NewIngestDeployed i) = (if j = i then [PeerDeployed i] else [])"
    and "receivers matches (peer_subscriptions (\<lambda>_. None) j) (NewIngestDestroyed i) = []"
    and "receivers matches (peer_subscriptions (\<lambda>_. None) j) (NewStreamDestroyedNotification i) = (if j = i then [PeerDestroyed i] else [])"
proof -
  have "j \<noteq> ''*''" using assms(3) by (auto simp: plain_token_def)
  with assms show
    "receivers matches (peer_subscriptions (\<lambda>_. None) j) (NewIngestDeployed i) = (if j = i then [PeerDeployed i] else [])"
    "receivers matches (peer_subscriptions (\<lambda>_. None) j) (NewIngestDestroyed i) = []"
    "receivers matches (peer_subscriptions (\<lambda>_. None) j) (NewStreamDestroyedNotification i) = (if j = i then [PeerDestroyed i] else [])"
    using tokens_of_subjects [of j] plain_subjects [OF assms(3)]
    by (auto simp: receivers_def peer_subscriptions_def matches_subjects plain_token_def)
qed

lemma receivers_append [simp]: "receivers matches (as @ bs) s = receivers matches as s @ receivers matches bs s"
  by (simp add: receivers_def)

lemma peers_hear:
  assumes "subject_laws matches" and "plain_token i" and "list_all plain_token peers"
  shows "receivers matches (concat (map (peer_subscriptions (\<lambda>_. None)) peers)) (NewIngestDeployed i)
      = replicate (count_list peers i) (PeerDeployed i)"
    and "receivers matches (concat (map (peer_subscriptions (\<lambda>_. None)) peers)) (NewIngestDestroyed i) = []"
    and "receivers matches (concat (map (peer_subscriptions (\<lambda>_. None)) peers)) (NewStreamDestroyedNotification i)
      = replicate (count_list peers i) (PeerDestroyed i)"
  using assms(3) by (induction peers) (auto simp: peer_hears [OF assms(1,2)] receivers_def [of _ "[]"])

lemma workers_hear:
  assumes "subject_laws matches" and "plain_token i"
    and "jc_QueueSubscribe js IngestAnyUserDestroyed ''ingest-destroyed-processor-1'' opts = None"
    and "opts = [BindOpt INGEST_DESTROYING_STREAM ''ingest-destroyed-processor-1'', ManualAckOpt, AckExplicitOpt, DeliverLastPerSubjectOpt]"
  shows "receivers matches (status_worker_Start (\<lambda>_. None) @ snd (destroyed_worker_Start js)) (NewIngestDeployed i) = [StatusWorker]"
    and "receivers matches (status_worker_Start (\<lambda>_. None) @ snd (destroyed_worker_Start js)) (NewIngestDestroyed i) = [DestroyedWorker]"
    and "receivers matches (status_worker_Start (\<lambda>_. None) @ snd (destroyed_worker_Start js)) (NewStreamDestroyedNotification i) = []"
  using assms plain_patterns
  by (simp_all add: receivers_def status_worker_Start_def destroyed_worker_Start_def destroyed_consumer_def Let_def
      INGEST_DESTROYING_STREAM_CONFIG_def matches_subjects tokens_of_patterns)

section \<open>Messages on their way\<close>

text \<open>
  The messages that are published and not yet delivered, what peers were told, and the payloads that
  their handler did not acknowledge, which are delivered again (\<open>deliveries\<close>).  A message goes to all that
  hear it, and what they publish is queued behind the others.
\<close>

record message_system =
  ms_conn :: sconn
  ms_queue :: "(string \<times> string) list"
  ms_told :: "(uuid \<times> stream_status) list"
  ms_unsettled :: "string list"

definition tell :: "uuid \<Rightarrow> stream_status option \<Rightarrow> message_system \<Rightarrow> message_system" where
  "tell i status sys = (case status of None \<Rightarrow> sys | Some st \<Rightarrow> sys\<lparr>ms_told := ms_told sys @ [(i, st)]\<rparr>)"

fun receive ::
  "stream_pg \<Rightarrow> (string \<times> string) list bus \<Rightarrow> (string \<Rightarrow> goerr + uuid) \<Rightarrow> subscriber \<Rightarrow> string \<Rightarrow> message_system
    \<Rightarrow> message_system outcome" where
  "receive pg b uuid_parse StatusWorker data sys =
     (case status_handler pg b uuid_parse data (ms_conn sys) of
        (Panic m, c) \<Rightarrow> Panic m
      | (Ret _, c) \<Rightarrow> Ret (sys\<lparr>ms_conn := c\<rparr>))"
| "receive pg b uuid_parse DestroyedWorker data sys =
     (case destroyed_handler pg b uuid_parse \<lparr>jm_NumDelivered = Some 1, jm_Data = data\<rparr> (ms_conn sys, ms_queue sys) of
        (Panic m, c, w) \<Rightarrow> Panic m
      | (Ret Ack, c, w) \<Rightarrow> Ret (sys\<lparr>ms_conn := c, ms_queue := w\<rparr>)
      | (Ret _, c, w) \<Rightarrow> Ret (sys\<lparr>ms_conn := c, ms_queue := w, ms_unsettled := ms_unsettled sys @ [data]\<rparr>))"
| "receive pg b uuid_parse (PeerDeployed i) data sys = Ret (tell i (notifyPeerWhenIngestDeployed b data) sys)"
| "receive pg b uuid_parse (PeerDestroyed i) data sys = Ret (tell i (notifyPeerWhenStreamDestroyedNotification data) sys)"

fun receive_all ::
  "stream_pg \<Rightarrow> (string \<times> string) list bus \<Rightarrow> (string \<Rightarrow> goerr + uuid) \<Rightarrow> subscriber list \<Rightarrow> string \<Rightarrow> message_system
    \<Rightarrow> message_system outcome" where
  "receive_all pg b uuid_parse [] data sys = Ret sys"
| "receive_all pg b uuid_parse (x # xs) data sys =
     (case receive pg b uuid_parse x data sys of Panic m \<Rightarrow> Panic m | Ret sys1 \<Rightarrow> receive_all pg b uuid_parse xs data sys1)"

text \<open>\<open>None\<close>: there are still messages after \<open>fuel\<close> deliveries.\<close>

fun deliver_all ::
  "(string \<Rightarrow> string \<Rightarrow> bool) \<Rightarrow> subscription list \<Rightarrow> stream_pg \<Rightarrow> (string \<times> string) list bus \<Rightarrow> (string \<Rightarrow> goerr + uuid)
    \<Rightarrow> nat \<Rightarrow> message_system \<Rightarrow> message_system outcome option" where
  "deliver_all matches subs pg b uuid_parse fuel sys =
     (case ms_queue sys of
        [] \<Rightarrow> Some (Ret sys)
      | (s, data) # q \<Rightarrow>
          (case fuel of
             0 \<Rightarrow> None
           | Suc fuel1 \<Rightarrow>
               (case receive_all pg b uuid_parse (receivers matches subs s) data (sys\<lparr>ms_queue := q\<rparr>) of
                  Panic m \<Rightarrow> Some (Panic m)
                | Ret sys1 \<Rightarrow> deliver_all matches subs pg b uuid_parse fuel1 sys1)))"

declare deliver_all.simps [simp del]

lemma deliver_all_Nil: "ms_queue sys = [] \<Longrightarrow> deliver_all matches subs pg b parse fuel sys = Some (Ret sys)"
  by (subst deliver_all.simps) simp

lemma deliver_all_Cons:
  "ms_queue sys = (s, data) # q \<Longrightarrow> receive_all pg b parse (receivers matches subs s) data (sys\<lparr>ms_queue := q\<rparr>) = Ret sys1
    \<Longrightarrow> deliver_all matches subs pg b parse (Suc fuel) sys = deliver_all matches subs pg b parse fuel sys1"
  by (subst deliver_all.simps) simp

text \<open>Publishing succeeds and queues the message.\<close>

definition queue_laws :: "(string \<times> string) list bus \<Rightarrow> bool" where
  "queue_laws b \<longleftrightarrow> (\<forall>s data w. nats_Publish b s data w = (None, w @ [(s, data)]) \<and> js_PublishMsg b s data w = (None, w @ [(s, data)]))"

lemma peers_told:
  "receive_all pg b parse (replicate n (PeerDestroyed i)) data sys
    = Ret (sys\<lparr>ms_told := ms_told sys @ replicate n (i, \<lparr>ss_Running = False, ss_Deployed = False\<rparr>)\<rparr>)"
  by (induction n arbitrary: sys) (simp_all add: tell_def notifyPeerWhenStreamDestroyedNotification_def)

lemma worker_settles:
  assumes "\<And>k. pg_fault pg k = None" and "queue_laws b" and "pb_Unmarshal_destroyed b data = Inr req"
    and "Destroyed_Meta req = Some m" and "parse (BroadcasterId m) = Inr i" and "ms_conn sys = (db, n)"
  shows "\<exists>db'. receive_all pg b parse [DestroyedWorker] data sys
      = Ret (sys\<lparr>ms_conn := (db', n + 1), ms_queue := ms_queue sys @ [(NewStreamDestroyedNotification i, '''')]\<rparr>)
    \<and> active_streams db' = filter (\<lambda>s. as_BroadcasterID s \<noteq> i) (active_streams db)"
  using assms
  by (simp add: destroyed_handler_def DeserializeProtobufMsg_destroyed_def retry_def delete_stream_eq queue_laws_def)
    (rule exI, rule conjI, rule refl, simp)

section \<open>Properties\<close>

text \<open>C29: every message reaches those that wait for it and nobody else: with the service's workers started
  and any peers connected, a message that an ingest of a broadcaster is deployed goes to the status
  worker and to each of that broadcaster's peers, one that it was destroyed to the destroyed worker only,
  and the worker's notification to each of the broadcaster's peers only.\<close>

theorem messages_reach_their_subscribers:
  assumes "subject_laws matches" and "plain_token i" and "list_all plain_token peers"
    and "jc_QueueSubscribe js IngestAnyUserDestroyed ''ingest-destroyed-processor-1''
      [BindOpt INGEST_DESTROYING_STREAM ''ingest-destroyed-processor-1'', ManualAckOpt, AckExplicitOpt, DeliverLastPerSubjectOpt] = None"
  shows "receivers matches (service_subscriptions js peers) (NewIngestDeployed i)
      = StatusWorker # replicate (count_list peers i) (PeerDeployed i)
    \<and> receivers matches (service_subscriptions js peers) (NewIngestDestroyed i) = [DestroyedWorker]
    \<and> receivers matches (service_subscriptions js peers) (NewStreamDestroyedNotification i)
      = replicate (count_list peers i) (PeerDestroyed i)"
  using workers_hear [OF assms(1,2,4) refl] peers_hear [OF assms(1-3)] by (simp add: service_subscriptions_def)

lemma service_receivers:
  assumes "subject_laws matches" and "plain_token i" and "list_all plain_token peers"
    and "jc_QueueSubscribe js IngestAnyUserDestroyed ''ingest-destroyed-processor-1''
      [BindOpt INGEST_DESTROYING_STREAM ''ingest-destroyed-processor-1'', ManualAckOpt, AckExplicitOpt, DeliverLastPerSubjectOpt] = None"
  shows "receivers matches (service_subscriptions js peers) (NewIngestDestroyed i) = [DestroyedWorker]"
    and "receivers matches (service_subscriptions js peers) (NewStreamDestroyedNotification i)
      = replicate (count_list peers i) (PeerDestroyed i)"
  using workers_hear [OF assms(1,2,4) refl] peers_hear [OF assms(1-3)] by (simp_all add: service_subscriptions_def)

text \<open>C28: when the operator announces that a broadcaster's ingest was destroyed, then after two deliveries
  no message is left, the announcement is settled, the broadcaster's stream is not recorded and every other
  stream is, each of the broadcaster's peers was told once that nothing runs, which is what the service
  answers from then on, and no other peer was told anything.\<close>

theorem ended_ingest_settles:
  assumes "subject_laws matches" and "plain_token i" and "list_all plain_token peers"
    and "jc_QueueSubscribe js IngestAnyUserDestroyed ''ingest-destroyed-processor-1''
      [BindOpt INGEST_DESTROYING_STREAM ''ingest-destroyed-processor-1'', ManualAckOpt, AckExplicitOpt, DeliverLastPerSubjectOpt] = None"
    and "queue_laws b" and "pb_laws b" and "\<forall>k. pg_fault (se_pg E) k = None"
    and "Destroyed_Meta req = Some m" and "parse (BroadcasterId m) = Inr i" and "pb_Marshal b (MDestroyed req) = Inr bytes"
    and "JsPublishProtobufWithID b (NewIngestDestroyed i) mid (MDestroyed req) [] = (None, queue)"
  shows "\<exists>db' n'. deliver_all matches (service_subscriptions js peers) (se_pg E) b parse 2
        \<lparr>ms_conn = (db, n), ms_queue = queue, ms_told = told, ms_unsettled = uns\<rparr>
      = Some (Ret \<lparr>ms_conn = (db', n'), ms_queue = [],
          ms_told = told @ replicate (count_list peers i) (i, \<lparr>ss_Running = False, ss_Deployed = False\<rparr>), ms_unsettled = uns\<rparr>)
    \<and> active_streams db' = filter (\<lambda>s. as_BroadcasterID s \<noteq> i) (active_streams db)
    \<and> (\<forall>token. tp_UserID token = i \<longrightarrow> fst (IsRunning E token (db', n')) = \<lparr>ss_Running = False, ss_Deployed = False\<rparr>)"
proof -
  have nf: "pg_fault (se_pg E) k = None" for k using assms(7) by blast
  have queue: "queue = [(NewIngestDestroyed i, bytes)]"
    using assms(5,10,11) by (simp add: JsPublishProtobufWithID_def queue_laws_def)
  note rec = service_receivers [OF assms(1-4)]
  let ?sys = "\<lparr>ms_conn = (db, n), ms_queue = queue, ms_told = told, ms_unsettled = uns\<rparr>"
  have "pb_Unmarshal_destroyed b bytes = Inr req" using assms(6,10) by (simp add: pb_laws_def)
  from worker_settles [where pg = "se_pg E" and b = b and parse = parse and sys = "?sys\<lparr>ms_queue := []\<rparr>" and db = db and n = n,
      OF nf assms(5) this assms(8,9)] obtain db' where
    del: "active_streams db' = filter (\<lambda>s. as_BroadcasterID s \<noteq> i) (active_streams db)"
    and first: "receive_all (se_pg E) b parse [DestroyedWorker] bytes (?sys\<lparr>ms_queue := []\<rparr>)
      = Ret (?sys\<lparr>ms_conn := (db', n + 1), ms_queue := [(NewStreamDestroyedNotification i, '''')]\<rparr>)" by auto
  let ?sys1 = "?sys\<lparr>ms_conn := (db', n + 1), ms_queue := [(NewStreamDestroyedNotification i, '''')]\<rparr>"
  let ?told = "told @ replicate (count_list peers i) (i, \<lparr>ss_Running = False, ss_Deployed = False\<rparr>)"
  have "deliver_all matches (service_subscriptions js peers) (se_pg E) b parse (Suc (Suc 0)) ?sys
      = deliver_all matches (service_subscriptions js peers) (se_pg E) b parse (Suc 0) ?sys1"
    by (rule deliver_all_Cons [where s = "NewIngestDestroyed i" and data = bytes and q = "[]"]) (simp add: queue, simp only: rec first)
  also have "\<dots> = deliver_all matches (service_subscriptions js peers) (se_pg E) b parse 0 (?sys1\<lparr>ms_queue := [], ms_told := ?told\<rparr>)"
    by (rule deliver_all_Cons [where s = "NewStreamDestroyedNotification i" and data = "''''" and q = "[]"]) (simp_all add: rec peers_told)
  also have "\<dots> = Some (Ret (?sys1\<lparr>ms_queue := [], ms_told := ?told\<rparr>))" by (rule deliver_all_Nil) simp
  finally have run: "deliver_all matches (service_subscriptions js peers) (se_pg E) b parse 2 ?sys
      = Some (Ret (?sys1\<lparr>ms_queue := [], ms_told := ?told\<rparr>))" by (simp only: numeral_2_eq_2)
  have "find (\<lambda>s. as_BroadcasterID s = i) (active_streams db') = None" by (auto simp: del find_None_iff')
  then show ?thesis using del run
    by (intro exI [of _ db'] exI [of _ "n + 1"]) (simp add: IsRunning_find [OF nf])
qed

text \<open>Witnesses: two peers of bob and one of alice.\<close>

definition nats_matches :: "string \<Rightarrow> string \<Rightarrow> bool" where
  "nats_matches p s = token_match (subject_tokens p) (subject_tokens s)"

definition ok_js :: js_calls where
  "ok_js = \<lparr>jc_AddStream = \<lambda>_. None, jc_AddConsumer = \<lambda>_ _. None, jc_QueueSubscribe = \<lambda>_ _ _. None\<rparr>"

definition queue_bus :: "(string \<times> string) list bus" where
  "queue_bus = bob_bus\<lparr>nats_Publish := \<lambda>s m w. (None, w @ [(s, m)]), js_PublishMsg := \<lambda>s m w. (None, w @ [(s, m)])\<rparr>"

lemma queue_bus_laws: "subject_laws nats_matches" "queue_laws queue_bus" "pb_laws queue_bus"
  "list_all plain_token [''2'', ''1'', ''2'']" "plain_token ''2''"
  using one_bus_laws [of "stub_message (mem_token ''2'')" "destroyed_of (mem_token ''2'')"]
  by (simp_all add: subject_laws_def nats_matches_def queue_laws_def queue_bus_def pb_laws_def plain_token_def)

theorem messages_reach_their_subscribers_witness:
  "receivers nats_matches (service_subscriptions ok_js [''2'', ''1'', ''2'']) (NewIngestDeployed ''2'')
    = [StatusWorker, PeerDeployed ''2'', PeerDeployed ''2'']"
  using messages_reach_their_subscribers [OF queue_bus_laws(1,5,4), of ok_js] by (simp add: ok_js_def numeral_2_eq_2)

theorem ended_ingest_settles_witness:
  "\<exists>db' n'. deliver_all nats_matches (service_subscriptions ok_js [''2'', ''1'', ''2'']) (se_pg standalone_env) queue_bus Inr 2
      \<lparr>ms_conn = (bob_db, 0), ms_queue = [(NewIngestDestroyed ''2'', ''destroyed'')], ms_told = [], ms_unsettled = []\<rparr>
    = Some (Ret \<lparr>ms_conn = (db', n'), ms_queue = [],
        ms_told = replicate 2 (''2'', \<lparr>ss_Running = False, ss_Deployed = False\<rparr>), ms_unsettled = []\<rparr>)
    \<and> active_streams db' = []"
proof -
  have bus: "pb_Marshal queue_bus (MDestroyed (destroyed_of (mem_token ''2''))) = Inr ''destroyed''"
    "Destroyed_Meta (destroyed_of (mem_token ''2'')) = Some \<lparr>BroadcasterId = ''2'', Username = ''bob''\<rparr>"
    "JsPublishProtobufWithID queue_bus (NewIngestDestroyed ''2'') ''id'' (MDestroyed (destroyed_of (mem_token ''2''))) []
      = (None, [(NewIngestDestroyed ''2'', ''destroyed'')])"
    by (simp_all add: JsPublishProtobufWithID_def queue_bus_def one_bus_def destroyed_of_def mem_token_def two_users_def)
  have pg: "\<forall>k. pg_fault (se_pg standalone_env) k = None" by (simp add: bob_message(1))
  have sub: "jc_QueueSubscribe ok_js IngestAnyUserDestroyed ''ingest-destroyed-processor-1''
      [BindOpt INGEST_DESTROYING_STREAM ''ingest-destroyed-processor-1'', ManualAckOpt, AckExplicitOpt, DeliverLastPerSubjectOpt] = None"
    by (simp add: ok_js_def)
  have parse: "(Inr :: string \<Rightarrow> goerr + uuid) (BroadcasterId \<lparr>BroadcasterId = ''2'', Username = ''bob''\<rparr>) = Inr ''2''" by simp
  have count: "count_list [''2'', ''1'', ''2''] ''2'' = 2" by simp
  have "filter (\<lambda>s. as_BroadcasterID s \<noteq> ''2'') (active_streams bob_db) = []" by (simp add: bob_db_def)
  with ended_ingest_settles [where E = standalone_env and parse = Inr and told = "[]" and uns = "[]" and n = 0 and db = bob_db,
      OF queue_bus_laws(1,5,4) sub queue_bus_laws(2,3) pg bus(2) parse bus(1,3)]
  show ?thesis unfolding count by auto
qed

end
