(* ===== verification/ApiTypes.thy ===== *)
theory ApiTypes imports StreamHandlers IdentityHttp OpenapiMiddleware begin

text \<open>
  The types of the answers as the API documents them, which are the types of the three
  \<open>handler_gen.go\<close> files, and which answers of the handlers are of the documented type.
\<close>

section \<open>The documented types\<close>

text \<open>
  An object has fields with a name and a type, which are required or not: in the generated code a
  required field is no pointer.  A value of an object type may have more fields.  \<open>null\<close> is a value of
  no type.
\<close>

datatype api_type = AString | AInteger | ABoolean | AArray api_type | AObject "(string \<times> bool \<times> api_type) list"

fun conforms :: "api_type \<Rightarrow> json \<Rightarrow> bool" where
  "conforms AString j = (case j of JStr _ \<Rightarrow> True | _ \<Rightarrow> False)"
| "conforms AInteger j = (case j of JNum _ \<Rightarrow> True | _ \<Rightarrow> False)"
| "conforms ABoolean j = (case j of JBool _ \<Rightarrow> True | _ \<Rightarrow> False)"
| "conforms (AArray t) j = (case j of JArr js \<Rightarrow> list_all (conforms t) js | _ \<Rightarrow> False)"
| "conforms (AObject fs) j = (case j of
     JObj ps \<Rightarrow> list_all (\<lambda>(k, required, t). case map_of ps k of None \<Rightarrow> \<not> required | Some v \<Rightarrow> conforms t v) fs
   | _ \<Rightarrow> False)"

text \<open>\<open>handler/stream/handler_gen.go\<close>, and the same in the identity service's.\<close>

definition ErrorResponse :: api_type where
  "ErrorResponse = AObject [(''message'', True, AString)]"

definition StreamStartResponse :: api_type where
  "StreamStartResponse = AObject [(''errorResponse'', False, ErrorResponse), (''ingestServer'', False, AString)]"

definition StreamStopResponse :: api_type where
  "StreamStopResponse = AObject []"

text \<open>\<open>handler/streamchannels/handler_gen.go\<close>.\<close>

definition StreamEgress :: api_type where
  "StreamEgress = AObject [(''type'', False, AInteger)]"

definition StreamChannel :: api_type where
  "StreamChannel = AObject [(''egresses'', False, AArray StreamEgress), (''title'', False, AString), (''username'', False, AString)]"

definition GetStreamChannelResponse :: api_type where
  "GetStreamChannelResponse = AObject [(''channel'', False, StreamChannel)]"

definition StreamChannelListResponse :: api_type where
  "StreamChannelListResponse = AObject [(''channels'', False, AArray StreamChannel)]"

text \<open>\<open>identity/handler_gen.go\<close>.\<close>

definition ExchangeTokenResponse :: api_type where
  "ExchangeTokenResponse = AObject [(''accessToken'', False, AString)]"

definition SignInResponse :: api_type where
  "SignInResponse = AObject [(''errorResponse'', False, ErrorResponse)]"

definition SignUpResponse :: api_type where
  "SignUpResponse = AObject []"

definition SignOutResponse :: api_type where
  "SignOutResponse = AObject []"

lemmas api_types = ErrorResponse_def StreamStartResponse_def StreamStopResponse_def StreamEgress_def StreamChannel_def
  GetStreamChannelResponse_def StreamChannelListResponse_def ExchangeTokenResponse_def SignInResponse_def
  SignUpResponse_def SignOutResponse_def

section \<open>Documented answers\<close>

text \<open>
  Every route documents its answer for status 200, and the error type for all other statuses; a body is
  one value.
\<close>

definition documented :: "api_type \<Rightarrow> response_writer \<Rightarrow> bool" where
  "documented t w \<longleftrightarrow> (case resp_body w of
     [Json j] \<Rightarrow> conforms (if resp_status w = 200 then t else ErrorResponse) j
   | _ \<Rightarrow> False)"

lemma conforms_error [simp]: "error_body msg = Json (JObj [(''message'', JStr msg)])"
  by (simp add: error_body_def)

lemma documented_json_error:
  assumes "w_sent w = None" and "w_body w = []" and "code \<noteq> 200"
  shows "documented t (json_error code msg w)" "resp_status (json_error code msg w) = code"
  using assms by (simp_all add: documented_def identity_http ErrorResponse_def)

lemma documented_write_error:
  assumes "code \<noteq> 200"
  shows "documented t (WriteErrorResponse new_writer code ms)"
  using assms by (simp add: documented_def resp_WriteErrorResponse new_writer_simps ErrorResponse_def)

lemma documented_tokens:
  assumes "w_sent w = None" and "w_body w = []" and "code \<noteq> 200"
  shows "\<not> documented t (tokens_response code r w)" "resp_status (tokens_response code r w) = code"
  using assms by (simp_all add: documented_def identity_http ErrorResponse_def access_token_body_def)

lemma UserLogin_status:
  "UserLogin I now u p c = (Inl (e, code), c') \<Longrightarrow> code \<in> {404, 422, 500}"
  "UserLogin I now u p c = (Inr (r, code), c') \<Longrightarrow> code = 200"
  by (auto simp: UserLogin_def status_of_def split: sum.splits prod.splits option.splits)

lemma RegisterUser_status:
  "RegisterUser I now u p c = (Inl (e, code), c') \<Longrightarrow> code = 500"
  "RegisterUser I now u p c = (Inr (r, code), c') \<Longrightarrow> code = 201"
  by (auto simp: RegisterUser_def status_of_def split: sum.splits prod.splits)

lemma sign_in_documented: "documented SignInResponse (fst (IdentityServiceSignIn I decode now r new_writer c))"
proof -
  have ok: "documented SignInResponse (tokens_response 200 q new_writer)" for q
    by (simp add: documented_def identity_http api_types access_token_body_def)
  show ?thesis
    by (auto simp: IdentityServiceSignIn_def documented_json_error new_writer_simps ok
        dest: UserLogin_status split: sum.split prod.split)
qed

lemma unsent_deleted [simp]: "w_sent (deleteRefreshTokenCookie new_writer) = None" "w_body (deleteRefreshTokenCookie new_writer) = []"
  by (simp_all add: identity_http)

lemma sign_up_documented:
  "documented SignUpResponse (fst (IdentityServiceSignUp I decode now r new_writer c))
    \<longleftrightarrow> resp_status (fst (IdentityServiceSignUp I decode now r new_writer c)) \<noteq> 201"
  by (auto simp: IdentityServiceSignUp_def documented_json_error documented_tokens new_writer_simps
      dest: RegisterUser_status split: sum.split prod.split)

lemma exchange_documented:
  "documented ExchangeTokenResponse (fst (TokenServiceExchangeToken I now r new_writer c))
    \<longleftrightarrow> resp_status (fst (TokenServiceExchangeToken I now r new_writer c)) \<noteq> 201"
  by (auto simp: TokenServiceExchangeToken_def documented_json_error documented_tokens new_writer_simps
      split: sum.split prod.split)

lemma sign_out_documented:
  "documented SignOutResponse (fst (IdentityServiceSignOut I r new_writer c))
    \<longleftrightarrow> resp_status (fst (IdentityServiceSignOut I r new_writer c)) \<noteq> 204"
proof -
  let ?w = "header_set ''Content-Type'' ''application/json'' (write_header 204 (deleteRefreshTokenCookie new_writer))"
  have "resp_body ?w = []" "resp_status ?w = 204" by (simp_all add: deleteRefreshTokenCookie_def http_model)
  then have "\<not> documented SignOutResponse ?w" "resp_status ?w = 204" by (simp_all add: documented_def)
  then show ?thesis
    by (auto simp: IdentityServiceSignOut_def documented_json_error new_writer_simps split: sum.split prod.split option.split)
qed

lemma empty_answer: "\<not> documented t new_writer"
  by (simp add: documented_def http_model)

lemma start_error_documented:
  "documented t (unableStartIngestServerErrorHandler new_writer err)"
  "resp_status (unableStartIngestServerErrorHandler new_writer err) \<noteq> 200"
proof -
  obtain code m where "unableStartIngestServerErrorHandler new_writer err = WriteErrorResponse new_writer code m" "code \<noteq> 200"
  proof (cases "status_FromError err")
    case None
    then show ?thesis using that
      by (cases "err = UnableInsertStream"; cases "err = StreamAlredyExists") (auto simp: unableStartIngestServerErrorHandler_def)
  next
    case (Some q)
    then show ?thesis using that by (cases q; cases "fst q") (auto simp: unableStartIngestServerErrorHandler_def)
  qed
  then show "documented t (unableStartIngestServerErrorHandler new_writer err)"
    "resp_status (unableStartIngestServerErrorHandler new_writer err) \<noteq> 200" by (simp_all add: documented_write_error)
qed

lemma start_documented:
  "documented StreamStartResponse (fst (StreamingServiceStreamStart E ctl decode unmarshal r new_writer s))
    \<longleftrightarrow> resp_status (fst (StreamingServiceStreamStart E ctl decode unmarshal r new_writer s)) \<noteq> 200"
  by (auto simp: StreamingServiceStreamStart_def start_error_documented documented_write_error empty_answer
      split: sum.split prod.split option.split)

lemma stop_documented:
  "documented StreamStopResponse (fst (StreamingServiceStreamStop E ctl unmarshal r new_writer s))
    \<longleftrightarrow> resp_status (fst (StreamingServiceStreamStop E ctl unmarshal r new_writer s)) \<noteq> 200"
  by (auto simp: StreamingServiceStreamStop_def unableStopIngestServerErrorHandler_def documented_write_error empty_answer
      split: sum.split prod.split option.split)

text \<open>An aggregation keeps its rows, in an order that SQL leaves open.\<close>

definition sql_orders :: "stream_pg \<Rightarrow> bool" where
  "sql_orders pg \<longleftrightarrow> (\<forall>n xs. mset (pg_groups pg n xs) = mset xs) \<and> (\<forall>n es. mset (pg_agg pg n es) = mset es)"

lemma json_slice_map: "xs \<noteq> [] \<Longrightarrow> json_slice f xs = JArr (map f xs)"
  by (simp add: json_slice_def)

lemma channel_egresses_documented:
  "rs_Egresses x \<noteq> [] \<Longrightarrow> conforms (AArray StreamEgress)
     (json_slice (\<lambda>(i, t). JObj [(''egress'', egress_json i t)]) (rs_Egresses x))"
  by (auto simp: json_slice_map StreamEgress_def list_all_iff)

lemma channels_documented:
  assumes "\<And>x. x \<in> set xs \<Longrightarrow> rs_Egresses x \<noteq> []"
  shows "conforms StreamChannelListResponse (channels_json xs) \<longleftrightarrow> xs \<noteq> []"
proof (cases "xs = []")
  case True
  then show ?thesis by (simp add: channels_json_def json_slice_def StreamChannelListResponse_def)
next
  case False
  then show ?thesis using channel_egresses_documented [OF assms]
    by (auto simp: channels_json_def json_slice_map StreamChannelListResponse_def StreamChannel_def list_all_iff)
qed

lemma running_stream_egresses:
  assumes "sql_orders pg" and "has_egress db s"
  shows "rs_Egresses (running_stream_of pg n db s) \<noteq> []"
proof -
  let ?es = "filter (\<lambda>e. eg_ActiveStreamID e = as_ID s) (stream_egresses db)"
  from assms(2) have "?es \<noteq> []" by (auto simp: has_egress_def filter_empty_conv)
  moreover have "mset (pg_agg pg n ?es) = mset ?es" using assms(1) by (simp add: sql_orders_def)
  ultimately have "pg_agg pg n ?es \<noteq> []" by (metis mset_zero_iff)
  then show ?thesis by (simp add: running_stream_of_def)
qed

lemma list_documented:
  assumes "sql_orders (se_pg E)"
  shows "documented StreamChannelListResponse (fst (StreamChannelsServiceStreamChannelList E new_writer (db, n)))
    \<longleftrightarrow> resp_status (fst (StreamChannelsServiceStreamChannelList E new_writer (db, n))) \<noteq> 200
      \<or> list_ex (has_egress db) (active_streams db)"
proof (cases "pg_fault (se_pg E) n")
  case (Some e)
  then show ?thesis
    by (simp add: StreamChannelsServiceStreamChannelList_def GetActiveStreamsList_def GetAllRunningActiveStreams_def
        exec_stmt_def try_call_def unableGetActiveStreamsList_def documented_write_error)
next
  case None
  let ?rows = "filter (has_egress db) (active_streams db)"
  let ?xs = "map (running_stream_of (se_pg E) n db) (pg_groups (se_pg E) n ?rows)"
  have groups: "mset (pg_groups (se_pg E) n ?rows) = mset ?rows" using assms by (simp add: sql_orders_def)
  then have "set (pg_groups (se_pg E) n ?rows) = set ?rows" by (metis set_mset_mset)
  then have "rs_Egresses x \<noteq> []" if "x \<in> set ?xs" for x using that running_stream_egresses [OF assms] by auto
  then have conf: "conforms StreamChannelListResponse (channels_json ?xs) \<longleftrightarrow> ?xs \<noteq> []" by (rule channels_documented)
  have "?xs \<noteq> [] \<longleftrightarrow> ?rows \<noteq> []" using groups by (metis Nil_is_map_conv mset_zero_iff)
  moreover have "?rows \<noteq> [] \<longleftrightarrow> list_ex (has_egress db) (active_streams db)" by (simp add: filter_empty_conv list_ex_iff)
  moreover have "fst (StreamChannelsServiceStreamChannelList E new_writer (db, n)) = write_chunk (Json (channels_json ?xs)) new_writer"
    using None by (simp add: StreamChannelsServiceStreamChannelList_def GetActiveStreamsList_def GetAllRunningActiveStreams_def
        exec_stmt_def try_call_def return_def)
  moreover have "resp_body (write_chunk (Json j) new_writer) = [Json j]" "resp_status (write_chunk (Json j) new_writer) = 200" for j
    by (simp_all add: http_model)
  ultimately show ?thesis using conf by (simp add: documented_def)
qed

lemma channel_documented:
  assumes "sql_orders (se_pg E)"
  shows "documented GetStreamChannelResponse (fst (StreamChannelsServiceGetStreamChannel E username new_writer c))"
proof -
  obtain r c' where get: "GetActiveStream E username c = (r, c')" by (rule prod.exhaust)
  show ?thesis
  proof (cases r)
    case (Inl err)
    with get show ?thesis
      by (auto simp: StreamChannelsServiceGetStreamChannel_def unableGetActiveStream_def documented_write_error)
  next
    case (Inr x)
    obtain db n where c: "c = (db, n)" by (rule prod.exhaust)
    obtain s ss where "filter (\<lambda>s. has_egress db s \<and> as_Username s = username) (active_streams db) = s # ss"
      and row: "sr_Egresses x = map (egress_route (se_config E)) (rs_Egresses (running_stream_of (se_pg E) n db s))"
      using get Inr by (auto simp: c GetActiveStream_def try_call_def lift_def getEgressesRoutes_def return_def
          GetActiveStreamByUsername_def exec_stmt_def split: sum.splits option.splits list.splits if_splits prod.splits)
    then have "has_egress db s" by (auto simp: filter_eq_Cons_iff)
    with running_stream_egresses [OF assms] row have "sr_Egresses x \<noteq> []" by simp
    then have "conforms GetStreamChannelResponse (channel_json x)"
      by (auto simp: channel_json_def json_slice_map GetStreamChannelResponse_def StreamChannel_def StreamEgress_def list_all_iff)
    then show ?thesis using get Inr
      by (simp add: StreamChannelsServiceGetStreamChannel_def documented_def http_model)
  qed
qed

lemma middleware_documented:
  assumes "NewOpenAPIRequestMiddleware lib auth h r new_writer s = (Ret w, s')"
  shows "(documented t w \<and> resp_status w \<in> {400, 401, 404, 500})
    \<or> (resp_status w = 400 \<and> \<not> documented t w \<and> (\<exists>m ms. resp_body w = [MultipleErrorResponse (m # ms)]))
    \<or> (\<exists>r1 s1. h r1 new_writer s1 = (Ret w, s'))"
proof -
  let ?answer = "\<lambda>body status. write_chunk body (write_header status (header_set ''Content-Type'' ''application/json'' new_writer))"
  have answer: "resp_body (?answer body status) = [body]" "resp_status (?answer body status) = status" for body status
    by (simp_all add: http_model)
  then have plain: "documented t (?answer (error_body m) status)" if "status \<noteq> 200" for m status
    using that by (simp add: documented_def ErrorResponse_def)
  have many: "\<not> documented t (?answer (MultipleErrorResponse ms) 400)" for ms
    by (simp add: documented_def answer MultipleErrorResponse_def ErrorResponse_def)
  obtain r1 status body s1 where v: "validateRequest lib auth r s = ((r1, status, body), s1)" by (metis prod.exhaust)
  show ?thesis
  proof (cases body)
    case None
    with v assms show ?thesis by (auto simp: NewOpenAPIRequestMiddleware_def)
  next
    case (Some b)
    then have w: "w = ?answer b status" using v assms by (simp add: NewOpenAPIRequestMiddleware_def)
    have "(\<exists>m. b = error_body m) \<and> status \<in> {400, 401, 404, 500} \<or> (\<exists>ms. ms \<noteq> [] \<and> b = MultipleErrorResponse ms \<and> status = 400)"
      using v Some by (auto simp: validateRequest_def Let_def split: sum.splits prod.splits filter_error.splits if_splits)
    then have "(\<exists>m. b = error_body m) \<and> status \<in> {400, 401, 404, 500} \<or> (\<exists>m ms. b = MultipleErrorResponse (m # ms)) \<and> status = 400"
      by (metis list.exhaust)
    then show ?thesis unfolding w using plain [of status] many answer by auto
  qed
qed

section \<open>Properties\<close>




end
