(* ===== verification/HttpRoutes.thy ===== *)
theory HttpRoutes imports StreamHandlers OpenapiMiddleware begin

text \<open>
  The routes of the HTTP servers: the server interfaces, wrappers and route tables that oapi-codegen put
  into the \<open>handler_gen.go\<close> files, and the \<open>GetOption\<close> methods that mount them with their
  middlewares.  The chi router is a library: a \<open>mux\<close> makes a handler of a route table; what it
  documents for patterns without parameters is \<open>mux_laws\<close>.  The wrappers put the security scopes of an
  operation into the request's context, which nothing reads, so the model leaves them out.
\<close>

section \<open>Routes, middlewares and the router\<close>

type_synonym 's middleware = "'s http_handler \<Rightarrow> 's http_handler"

text \<open>A route is a method, a pattern and a handler that also takes the parameters of the path.\<close>

type_synonym 's route = "string \<times> string \<times> ((string \<Rightarrow> string) \<Rightarrow> 's http_handler)"

type_synonym 's mux = "'s route list \<Rightarrow> 's http_handler"

definition static_pattern :: "string \<Rightarrow> bool" where
  "static_pattern p \<longleftrightarrow> set p \<inter> {CHR ''{'', CHR ''*''} = {}"

definition mux_laws :: "'s mux \<Rightarrow> bool" where
  "mux_laws mux \<longleftrightarrow> (\<forall>routes r p h. distinct (map (\<lambda>(m, p, h). (m, p)) routes) \<longrightarrow> (rq_method r, p, h) \<in> set routes
     \<longrightarrow> static_pattern p \<longrightarrow> rq_path r = p \<longrightarrow> mux routes r = h (\<lambda>_. []) r)"

text \<open>The first middleware of the list is the innermost.\<close>

definition with_middlewares :: "'s middleware list \<Rightarrow> 's http_handler \<Rightarrow> 's http_handler" where
  "with_middlewares middlewares handler = fold (\<lambda>middleware handler. middleware handler) middlewares handler"

definition not_implemented :: "'s http_handler" where
  "not_implemented r w s = (Ret (write_header 501 w), s)"

text \<open>\<open>http.Error\<close> of the standard library.\<close>

definition http_Error :: "string \<Rightarrow> nat \<Rightarrow> response_writer \<Rightarrow> response_writer" where
  "http_Error msg code w =
     write_chunk (Raw (msg @ [newline]))
       (write_header code
         (header_set ''X-Content-Type-Options'' ''nosniff''
           (header_set ''Content-Type'' ''text/plain; charset=utf-8'' w)))"

section \<open>handler/stream/handler\_gen.go\<close>

record 's stream_server =
  si_StreamChannel :: "'s http_handler"
  si_StreamStart :: "'s http_handler"
  si_StreamStat :: "'s http_handler"
  si_StreamStop :: "'s http_handler"

definition stream_Unimplemented :: "'s stream_server" where
  "stream_Unimplemented = \<lparr>si_StreamChannel = not_implemented, si_StreamStart = not_implemented,
     si_StreamStat = not_implemented, si_StreamStop = not_implemented\<rparr>"

definition siw_StreamChannel :: "'s middleware list \<Rightarrow> 's stream_server \<Rightarrow> 's http_handler" where
  "siw_StreamChannel middlewares si r w s = with_middlewares middlewares (\<lambda>r w s. si_StreamChannel si r w s) r w s"

definition siw_StreamStart :: "'s middleware list \<Rightarrow> 's stream_server \<Rightarrow> 's http_handler" where
  "siw_StreamStart middlewares si r w s = with_middlewares middlewares (\<lambda>r w s. si_StreamStart si r w s) r w s"

definition siw_StreamStat :: "'s middleware list \<Rightarrow> 's stream_server \<Rightarrow> 's http_handler" where
  "siw_StreamStat middlewares si r w s = with_middlewares middlewares (\<lambda>r w s. si_StreamStat si r w s) r w s"

definition siw_StreamStop :: "'s middleware list \<Rightarrow> 's stream_server \<Rightarrow> 's http_handler" where
  "siw_StreamStop middlewares si r w s = with_middlewares middlewares (\<lambda>r w s. si_StreamStop si r w s) r w s"

definition stream_HandlerWithOptions :: "'s stream_server \<Rightarrow> string \<Rightarrow> 's middleware list \<Rightarrow> 's route list" where
  "stream_HandlerWithOptions si baseURL middlewares =
     [(''GET'', baseURL @ ''/stream:channel'', \<lambda>_. siw_StreamChannel middlewares si),
      (''POST'', baseURL @ ''/stream:start'', \<lambda>_. siw_StreamStart middlewares si),
      (''GET'', baseURL @ ''/stream:stat'', \<lambda>_. siw_StreamStat middlewares si),
      (''POST'', baseURL @ ''/stream:stop'', \<lambda>_. siw_StreamStop middlewares si)]"

section \<open>handler/streamchannels/handler\_gen.go\<close>

record 's channels_server =
  si_StreamChannelList :: "'s http_handler"
  si_GetStreamChannel :: "string \<Rightarrow> 's http_handler"

definition InvalidParamFormatError :: "string \<Rightarrow> goerr \<Rightarrow> string" where
  "InvalidParamFormatError paramName err = ''Invalid format for parameter '' @ paramName @ '': '' @ err_text err"

definition siw_StreamChannelList :: "'s middleware list \<Rightarrow> 's channels_server \<Rightarrow> 's http_handler" where
  "siw_StreamChannelList middlewares si r w s =
     with_middlewares middlewares (\<lambda>r w s. si_StreamChannelList si r w s) r w s"

text \<open>\<open>bind\<close> is the library's \<open>BindStyledParameterWithLocation\<close> for a path parameter.\<close>

definition siw_GetStreamChannel ::
  "(string \<Rightarrow> string \<Rightarrow> goerr + string) \<Rightarrow> 's middleware list \<Rightarrow> 's channels_server
    \<Rightarrow> (string \<Rightarrow> string) \<Rightarrow> 's http_handler" where
  "siw_GetStreamChannel bind middlewares si URLParam r w s =
     (case bind ''username'' (URLParam ''username'') of
        Inl err \<Rightarrow> (Ret (http_Error (InvalidParamFormatError ''username'' err) 400 w), s)
      | Inr username \<Rightarrow> with_middlewares middlewares (\<lambda>r w s. si_GetStreamChannel si username r w s) r w s)"

definition channels_HandlerWithOptions ::
  "(string \<Rightarrow> string \<Rightarrow> goerr + string) \<Rightarrow> 's channels_server \<Rightarrow> string \<Rightarrow> 's middleware list \<Rightarrow> 's route list" where
  "channels_HandlerWithOptions bind si baseURL middlewares =
     [(''GET'', baseURL @ ''/stream-channels'', \<lambda>_. siw_StreamChannelList middlewares si),
      (''GET'', baseURL @ ''/stream-channels/{username}'', siw_GetStreamChannel bind middlewares si)]"

section \<open>handler/v1alpha/identity/handler\_gen.go\<close>

record 's identity_server =
  si_ExchangeToken :: "'s http_handler"
  si_PublicKeyList :: "'s http_handler"
  si_SignIn :: "'s http_handler"
  si_SignOut :: "'s http_handler"
  si_SignUp :: "'s http_handler"
  si_VerifyTokenRevocation :: "'s http_handler"

definition siw_ExchangeToken :: "'s middleware list \<Rightarrow> 's identity_server \<Rightarrow> 's http_handler" where
  "siw_ExchangeToken middlewares si r w s = with_middlewares middlewares (\<lambda>r w s. si_ExchangeToken si r w s) r w s"

definition siw_PublicKeyList :: "'s middleware list \<Rightarrow> 's identity_server \<Rightarrow> 's http_handler" where
  "siw_PublicKeyList middlewares si r w s = with_middlewares middlewares (\<lambda>r w s. si_PublicKeyList si r w s) r w s"

definition siw_SignIn :: "'s middleware list \<Rightarrow> 's identity_server \<Rightarrow> 's http_handler" where
  "siw_SignIn middlewares si r w s = with_middlewares middlewares (\<lambda>r w s. si_SignIn si r w s) r w s"

definition siw_SignOut :: "'s middleware list \<Rightarrow> 's identity_server \<Rightarrow> 's http_handler" where
  "siw_SignOut middlewares si r w s = with_middlewares middlewares (\<lambda>r w s. si_SignOut si r w s) r w s"

definition siw_SignUp :: "'s middleware list \<Rightarrow> 's identity_server \<Rightarrow> 's http_handler" where
  "siw_SignUp middlewares si r w s = with_middlewares middlewares (\<lambda>r w s. si_SignUp si r w s) r w s"

definition siw_VerifyTokenRevocation :: "'s middleware list \<Rightarrow> 's identity_server \<Rightarrow> 's http_handler" where
  "siw_VerifyTokenRevocation middlewares si r w s =
     with_middlewares middlewares (\<lambda>r w s. si_VerifyTokenRevocation si r w s) r w s"

definition identity_HandlerWithOptions :: "'s identity_server \<Rightarrow> string \<Rightarrow> 's middleware list \<Rightarrow> 's route list" where
  "identity_HandlerWithOptions si baseURL middlewares =
     [(''PUT'', baseURL @ ''/access-token'', \<lambda>_. siw_ExchangeToken middlewares si),
      (''GET'', baseURL @ ''/keys'', \<lambda>_. siw_PublicKeyList middlewares si),
      (''POST'', baseURL @ ''/sign-in'', \<lambda>_. siw_SignIn middlewares si),
      (''POST'', baseURL @ ''/sign-out'', \<lambda>_. siw_SignOut middlewares si),
      (''POST'', baseURL @ ''/sign-up'', \<lambda>_. siw_SignUp middlewares si),
      (''POST'', baseURL @ ''/token-revocation:verify'', \<lambda>_. siw_VerifyTokenRevocation middlewares si)]"

end
