(* ===== verification/Platform.thy ===== *)
theory Platform imports HttpRoutes AuthTheorems IdentityHttp begin

text \<open>
  The services together: the HTTP servers of the identity and the stream service with their routes,
  middlewares and handlers, the stream service fetching keys from the identity service over gRPC and
  driving the ingest operator.  The state of the platform is the identity service's connection, the
  stream service's connection and the world of the ingest controller.  The theorems follow a request
  from the router to the cluster.
\<close>

type_synonym 'w platform = "conn \<times> sconn \<times> 'w"

section \<open>The stream service's HTTP server\<close>

record ('w, 'c, 'spec, 'r) stream_app =
  sa_env :: stream_env
  sa_ctl :: "'w controller"
  sa_decode :: "string \<Rightarrow> goerr + string"
  sa_unmarshal :: "string \<Rightarrow> goerr + token_payload"
  sa_upgrade :: "http_request \<Rightarrow> goerr + 'c"
  sa_verify_nil :: "string \<Rightarrow> (goerr + string) outcome"
  sa_bind :: "string \<Rightarrow> string \<Rightarrow> goerr + string"
  sa_lib :: "'spec \<Rightarrow> ('w platform, 'r) openapi_lib"
  sa_stream_swagger :: "goerr + 'spec"
  sa_channels_swagger :: "goerr + 'spec"

text \<open>The identity service's state within the platform's.\<close>

definition on_identity :: "(conn, 'a) call \<Rightarrow> ('w platform, 'a) call" where
  "on_identity f s = (let (r, c) = f (fst s) in (r, c, snd s))"

text \<open>
  The handlers on the platform's state.  \<open>StreamStat\<close> is the embedded \<open>Unimplemented\<close>'s.  What a handler
  does to a hijacked connection is not part of the response.
\<close>

definition StreamingService :: "'k identity \<Rightarrow> int \<Rightarrow> ('w, 'c, 'spec, 'r) stream_app \<Rightarrow> 'w platform stream_server" where
  "StreamingService I now A = stream_Unimplemented\<lparr>
     si_StreamChannel := (\<lambda>r w (c, sc, u).
       let (res, sc1, c1) = StreamingServiceStreamChannel (sa_env A)
             (RefreshTokenAuthenticator_Validate (id_jwx I) (sa_verify_nil A) now (keys_of I))
             (sa_unmarshal A) (sa_upgrade A) r w (sc, c)
       in (case res of Panic m \<Rightarrow> Panic m | Ret (w1, peer, status) \<Rightarrow> Ret w1, c1, sc1, u)),
     si_StreamStart := (\<lambda>r w (c, s).
       let (w1, s1) = StreamingServiceStreamStart (sa_env A) (sa_ctl A) (sa_decode A) (sa_unmarshal A) r w s
       in (Ret w1, c, s1)),
     si_StreamStop := (\<lambda>r w (c, s).
       let (w1, s1) = StreamingServiceStreamStop (sa_env A) (sa_ctl A) (sa_unmarshal A) r w s
       in (Ret w1, c, s1))\<rparr>"

definition ChannelsService :: "('w, 'c, 'spec, 'r) stream_app \<Rightarrow> 'w platform channels_server" where
  "ChannelsService A = \<lparr>
     si_StreamChannelList = (\<lambda>r w (c, sc, u).
       let (w1, sc1) = StreamChannelsServiceStreamChannelList (sa_env A) w sc in (Ret w1, c, sc1, u)),
     si_GetStreamChannel = (\<lambda>username r w (c, sc, u).
       let (w1, sc1) = StreamChannelsServiceGetStreamChannel (sa_env A) username w sc in (Ret w1, c, sc1, u))\<rparr>"

text \<open>
  \<open>GetOption\<close>: the routes a handler mounts on the chi router, or the panic when its spec cannot be read.
  The servers of the spec are dropped before it goes to the validator; that is part of \<open>validator\<close>.
\<close>

definition stream_GetOption ::
  "('spec \<Rightarrow> 's middleware) \<Rightarrow> goerr + 'spec \<Rightarrow> 's stream_server \<Rightarrow> 's route list outcome" where
  "stream_GetOption validator swagger h =
     (case swagger of
        Inl err \<Rightarrow> Panic (''unable get openapi spec for streamchannels.handler.Err: '' @ err_text err)
      | Inr spec \<Rightarrow> Ret (stream_HandlerWithOptions h [] [validator spec]))"

definition channels_GetOption ::
  "(string \<Rightarrow> string \<Rightarrow> goerr + string) \<Rightarrow> ('spec \<Rightarrow> 's middleware) \<Rightarrow> goerr + 'spec \<Rightarrow> 's channels_server
    \<Rightarrow> 's route list outcome" where
  "channels_GetOption bind validator swagger h =
     (case swagger of
        Inl err \<Rightarrow> Panic (''unable get openapi spec for streamchannels.handler.Err: '' @ err_text err)
      | Inr spec \<Rightarrow> Ret (channels_HandlerWithOptions bind h [] [validator spec, JsonMiddleware]))"

definition platform_auth :: "'k identity \<Rightarrow> int \<Rightarrow> 'w platform auth_func" where
  "platform_auth I now = NewAsymmetricEncryptionAuthenticator (id_jwx I) now
     (GetKeys (id_jwx I) (\<lambda>md. on_identity (identity_client I md)))"

text \<open>\<open>NewSpecOptionsHandlerConstructor\<close> of \<open>pkg/service/openapi.go\<close>.\<close>

definition NewSpecOptionsHandlerConstructor ::
  "('spec \<Rightarrow> ('s, 'r) openapi_lib) \<Rightarrow> 's auth_func \<Rightarrow> 'spec \<Rightarrow> 's middleware" where
  "NewSpecOptionsHandlerConstructor lib auth spec = NewOpenAPIRequestMiddleware (lib spec) auth"

text \<open>The routes of the server, and the server; CORS headers, which a library adds, are left out.\<close>

definition stream_server_routes ::
  "'k identity \<Rightarrow> int \<Rightarrow> ('w, 'c, 'spec, 'r) stream_app \<Rightarrow> 'w platform route list outcome" where
  "stream_server_routes I now A =
     (let validator = NewSpecOptionsHandlerConstructor (sa_lib A) (platform_auth I now) in
      case stream_GetOption validator (sa_stream_swagger A) (StreamingService I now A) of
        Panic m \<Rightarrow> Panic m
      | Ret streams \<Rightarrow>
          (case channels_GetOption (sa_bind A) validator (sa_channels_swagger A) (ChannelsService A) of
             Panic m \<Rightarrow> Panic m
           | Ret channels \<Rightarrow> Ret (streams @ channels)))"

definition StartStreamHttp :: "'w platform mux \<Rightarrow> 'k identity \<Rightarrow> int \<Rightarrow> ('w, 'c, 'spec, 'r) stream_app \<Rightarrow> 'w platform http_handler" where
  "StartStreamHttp mux I now A r w s =
     (case stream_server_routes I now A of Panic m \<Rightarrow> (Panic m, s) | Ret routes \<Rightarrow> mux routes r w s)"

section \<open>The identity service's HTTP server\<close>

definition IdentityHandler_server ::
  "'k identity \<Rightarrow> (string \<Rightarrow> goerr + sign_request) \<Rightarrow> int \<Rightarrow> conn identity_server" where
  "IdentityHandler_server I decode now = (let ret = (\<lambda>(w, c). (Ret w, c)) in \<lparr>
     si_ExchangeToken = (\<lambda>r w c. ret (TokenServiceExchangeToken I now r w c)),
     si_PublicKeyList = (\<lambda>r w c. ret (PublicKeyServicePublicKeyList I r w c)),
     si_SignIn = (\<lambda>r w c. ret (IdentityServiceSignIn I decode now r w c)),
     si_SignOut = (\<lambda>r w c. ret (IdentityServiceSignOut I r w c)),
     si_SignUp = (\<lambda>r w c. ret (IdentityServiceSignUp I decode now r w c)),
     si_VerifyTokenRevocation = (\<lambda>r w c. ret (TokenRevocationServiceVerifyTokenRevocation I now r w c))\<rparr>)"

text \<open>The authentication function of its options: the operations of its spec ask for no scopes.\<close>

definition WithOpenAPI3FilterOptions :: "(string \<Rightarrow> goerr + jwt_token) \<Rightarrow> 's auth_func" where
  "WithOpenAPI3FilterOptions parse schemeName r s =
     (case Authenticate (FakeAuthenticator_ValidateJWS parse) schemeName [] r of
        Some err \<Rightarrow> (Inl err, s)
      | None \<Rightarrow> (Inr r, s))"

text \<open>The middleware is in front of the router here.\<close>

definition NewIdentityHandler ::
  "conn mux \<Rightarrow> (conn, 'r) openapi_lib \<Rightarrow> (string \<Rightarrow> goerr + jwt_token) \<Rightarrow> 'k identity
    \<Rightarrow> (string \<Rightarrow> goerr + sign_request) \<Rightarrow> int \<Rightarrow> conn http_handler" where
  "NewIdentityHandler mux lib parse I decode now =
     NewOpenAPIRequestMiddleware lib (WithOpenAPI3FilterOptions parse)
       (mux (identity_HandlerWithOptions (IdentityHandler_server I decode now) [] []))"

section \<open>Lemmas\<close>

text \<open>The authenticator on the platform is the one on the identity service's connection.\<close>

lemma on_identity_simp: "on_identity f (c, t) = (case f c of (r, c1) \<Rightarrow> (r, c1, t))"
  by (simp add: on_identity_def split: prod.split)

lemma platform_auth_lift:
  "(platform_auth I now :: 'w platform auth_func) scheme r = on_identity (NewAsymmetricEncryptionAuthenticator (id_jwx I) now (keys_of I) scheme r)"
proof -
  have keys: "GetKeys (id_jwx I) (\<lambda>md. on_identity (identity_client I md))
      = ((\<lambda>tok. on_identity (keys_of I tok)) :: ('w platform, 'a) resolver)"
    by (simp add: fun_eq_iff GetKeys_def keys_of_def try_call_def on_identity_simp lift_def return_def
        split: prod.split sum.split)
  have "authenticator (id_jwx I) now (\<lambda>tok. on_identity (keys_of I tok)) scheme r
      = (on_identity (authenticator (id_jwx I) now (keys_of I) scheme r) :: ('w platform, http_request) call)"
    by (auto simp: fun_eq_iff authenticator_def try_call_def on_identity_simp lift_def return_def fail_def Let_def
        split: prod.split sum.split option.split)
  then show ?thesis
    unfolding platform_auth_def keys NewAsymmetricEncryptionAuthenticator_def
    by (simp add: fun_eq_iff try_call_def on_identity_simp return_def split: prod.split sum.split)
qed

lemma secured_pass:
  assumes "find_route lib r = Inr route" and "secures lib route ok" and "ok r" and "auth ''BearerAuth'' r s = (Inr r1, s1)"
  shows "NewOpenAPIRequestMiddleware lib auth next_handler r w s = next_handler r1 w s1"
  using assms unfolding secures_def
  by (auto simp: NewOpenAPIRequestMiddleware_def validateRequest_def dest!: spec [of _ auth] spec [of _ r] spec [of _ s])

lemma secured_refuse:
  assumes "find_route lib r = Inr route" and "secures lib route ok" and "auth ''BearerAuth'' r s = (Inl (NewSecurityError e), s1)"
  shows "\<exists>w. (\<forall>next_handler. NewOpenAPIRequestMiddleware lib auth next_handler r new_writer s = (Ret w, s1))
    \<and> resp_status w \<in> {400, 401} \<and> (ok r \<longrightarrow> resp_status w = 401)"
proof -
  from assms(2,3) obtain others where
    "validate lib auth route r s = (Inl (MultiError (''security requirements failed: '' @ err_text (NewSecurityError e) @ others)), s1)"
    "ok r \<longrightarrow> others = []" unfolding secures_def by (auto dest!: spec [of _ auth] spec [of _ r] spec [of _ s])
  with middleware_error [OF assms(1) this(1)] NewSecurityError_suffix [of "''security requirements failed: ''" e]
  show ?thesis by auto
qed

text \<open>What the validator does with a request to a secured operation, on the platform's state.\<close>

lemma platform_accepts:
  assumes laws: "fetch_laws I db" and plain: "\<not> has_prefix (TrimTokenBearer (rq_header r ''Authorization'')) ''Bearer ''"
    and route: "find_route lib r = Inr route" "secures lib route ok" "ok r"
    and val: "ValidateToken I now (rq_header r ''Authorization'') (db, n) = (Inr payload, c)"
  shows "NewOpenAPIRequestMiddleware lib (platform_auth I now) next_handler r w ((db, n), t)
    = next_handler (r\<lparr>rq_token := Some payload\<rparr>) w (c, t)"
proof (rule secured_pass [OF route])
  from authenticator_iff [OF laws plain refl] val
  have "authenticator (id_jwx I) now (keys_of I) ''BearerAuth'' r (db, n) = (Inr (r\<lparr>rq_token := Some payload\<rparr>), c)" by blast
  then show "platform_auth I now ''BearerAuth'' r ((db, n), t) = (Inr (r\<lparr>rq_token := Some payload\<rparr>), c, t)"
    by (simp add: platform_auth_lift on_identity_simp NewAsymmetric_cases)
qed

lemma platform_refuses:
  fixes t :: "sconn \<times> 'w"
  assumes laws: "fetch_laws I db" and plain: "\<not> has_prefix (TrimTokenBearer (rq_header r ''Authorization'')) ''Bearer ''"
    and route: "find_route lib r = Inr route" "secures lib route ok"
    and val: "ValidateToken I now (rq_header r ''Authorization'') (db, n) = (Inl err, c)"
  shows "\<exists>w n'. (\<forall>next_handler. NewOpenAPIRequestMiddleware lib (platform_auth I now) next_handler r new_writer ((db, n), t)
      = (Ret w, (db, n'), t)) \<and> resp_status w \<in> {400, 401} \<and> (ok r \<longrightarrow> resp_status w = 401)"
proof -
  obtain a ca where au: "authenticator (id_jwx I) now (keys_of I) ''BearerAuth'' r (db, n) = (a, ca)" by (rule prod.exhaust)
  have "a \<noteq> Inr r1" for r1
    using authenticator_iff [OF laws plain refl, of now n r1 ca] au val by simp
  then obtain e where e: "a = Inl e" by (cases a) auto
  from authenticator_db [of "id_jwx I" now I "''BearerAuth''" r "(db, n)"] au have "fst ca = db" by simp
  then obtain n' where "ca = (db, n')" by (cases ca) auto
  with au e have "platform_auth I now ''BearerAuth'' r ((db, n), t) = (Inl (NewSecurityError e), (db, n'), t)"
    by (simp add: platform_auth_lift on_identity_simp NewAsymmetric_cases)
  from secured_refuse [where auth = "platform_auth I now", OF route this] show ?thesis by blast
qed

text \<open>A request is served by the handler of its route, behind the validator.\<close>

lemma served_routes:
  assumes "mux_laws mux" and "sa_stream_swagger A = Inr spec" and "sa_channels_swagger A = Inr spec'"
    and "validator = NewOpenAPIRequestMiddleware (sa_lib A spec) (platform_auth I now)"
  shows "rq_method r = ''POST'' \<Longrightarrow> rq_path r = ''/stream:start'' \<Longrightarrow>
      StartStreamHttp mux I now A r w s = validator (si_StreamStart (StreamingService I now A)) r w s"
    and "rq_method r = ''POST'' \<Longrightarrow> rq_path r = ''/stream:stop'' \<Longrightarrow>
      StartStreamHttp mux I now A r w s = validator (si_StreamStop (StreamingService I now A)) r w s"
    and "rq_method r = ''GET'' \<Longrightarrow> rq_path r = ''/stream:stat'' \<Longrightarrow>
      StartStreamHttp mux I now A r w s = validator not_implemented r w s"
proof -
  obtain routes where routes: "stream_server_routes I now A = Ret routes"
    and table: "routes = stream_HandlerWithOptions (StreamingService I now A) [] [validator]
      @ channels_HandlerWithOptions (sa_bind A) (ChannelsService A) []
          [NewOpenAPIRequestMiddleware (sa_lib A spec') (platform_auth I now), JsonMiddleware]"
    using assms(2-4) by (simp add: stream_server_routes_def stream_GetOption_def channels_GetOption_def
        NewSpecOptionsHandlerConstructor_def)
  have distinct: "distinct (map (\<lambda>(m, p, h). (m, p)) routes)"
    by (simp add: table stream_HandlerWithOptions_def channels_HandlerWithOptions_def)
  have served: "StartStreamHttp mux I now A r w s = h (\<lambda>_. []) r w s"
    if "(rq_method r, rq_path r, h) \<in> set routes" "static_pattern (rq_path r)" for r w s h
    using assms(1) distinct that routes unfolding mux_laws_def StartStreamHttp_def by simp
  have stat: "si_StreamStat (StreamingService I now A) = not_implemented"
    by (simp add: StreamingService_def stream_Unimplemented_def)
  show "StartStreamHttp mux I now A r w s = validator (si_StreamStart (StreamingService I now A)) r w s"
    if "rq_method r = ''POST''" "rq_path r = ''/stream:start''" for r w s
    using served [of r "\<lambda>_. siw_StreamStart [validator] (StreamingService I now A)" w s] that
    by (simp add: table stream_HandlerWithOptions_def static_pattern_def siw_StreamStart_def with_middlewares_def)
  show "StartStreamHttp mux I now A r w s = validator (si_StreamStop (StreamingService I now A)) r w s"
    if "rq_method r = ''POST''" "rq_path r = ''/stream:stop''" for r w s
    using served [of r "\<lambda>_. siw_StreamStop [validator] (StreamingService I now A)" w s] that
    by (simp add: table stream_HandlerWithOptions_def static_pattern_def siw_StreamStop_def with_middlewares_def)
  show "StartStreamHttp mux I now A r w s = validator not_implemented r w s"
    if "rq_method r = ''GET''" "rq_path r = ''/stream:stat''" for r w s
    using served [of r "\<lambda>_. siw_StreamStat [validator] (StreamingService I now A)" w s] that
    by (simp add: table stream_HandlerWithOptions_def static_pattern_def siw_StreamStat_def with_middlewares_def stat)
qed

end
