(* ===== verification/PlatformTheorems.thy ===== *)
theory PlatformTheorems imports Platform begin

text \<open>
  What a client of the platform gets: its requests to the stream service do nothing without a token that
  the identity service validates, and with the access token of a sign-in they start and stop the ingest
  of the user who signed in, for a minute.
\<close>

section \<open>What a sign-in leaves\<close>

text \<open>The access token is not a bearer header, and the only new key has an id of the database's making.\<close>

lemma login_token:
  assumes laws: "jwx_laws (id_jwx I)" and inv: "idb_inv db"
    and login: "UserLogin I now nm pw (db, n) = (Inr (res, st), db1, n1)"
  shows "\<not> has_prefix (AccessToken res) ''Bearer ''"
    and "key_of_id db1 i \<noteq> None \<Longrightarrow> key_of_id db i \<noteq> None \<or> i \<in> range (pg_uuid (id_pg I))"
proof -
  from login have "fst (snd (FindUserByUsername (id_pg I) nm (db, n))) = db"
    using FindUserByUsername_db [of "id_pg I" nm "(db, n)"] by simp
  with login have "\<exists>(u :: user_row) m n2. userGenerateTokens I now
      \<lparr>ui_userID = u_id u, ui_username = u_username u, ui_claims = DEFAULT_CLAIMS\<rparr> (db, m) = (Inr res, db1, n2)"
    by (auto simp: UserLogin_def status_of_def in_transaction_Inr split: prod.splits sum.splits option.splits) blast
  then obtain u :: user_row and m n2 where
    "userGenerateTokens I now \<lparr>ui_userID = u_id u, ui_username = u_username u, ui_claims = DEFAULT_CLAIMS\<rparr> (db, m)
      = (Inr res, db1, n2)" by blast
  then obtain k t where kt:
      "CreateUserAccessToken (id_jwx I) now (token_params (k_jws_message k) (k_id k)
        \<lparr>ui_userID = u_id u, ui_username = u_username u, ui_claims = DEFAULT_CLAIMS\<rparr>) = Inr (AccessToken res)"
      "key_of_id db (k_id k) = None" "t_private_key_id t = k_id k" "t_id t \<notin> t_id ` set (refresh_tokens db)"
      "db1 = add_session k (u_id u) t db" "pg_uuid (id_pg I) m = k_id k"
    by (rule userGenerateTokens_Inr) simp
  from access_token_signed [OF kt(1)] jwx_signed(2) [OF laws] show "\<not> has_prefix (AccessToken res) ''Bearer ''" by blast
  show "key_of_id db i \<noteq> None \<or> i \<in> range (pg_uuid (id_pg I))" if "key_of_id db1 i \<noteq> None"
    using that kt(6) [symmetric] unfolding kt(5) add_session_lookups(1) [OF kt(2) inv kt(3,4)] by (auto split: if_splits)
qed

text \<open>The identity service can serve the keys of every token after a sign-in.\<close>

lemma login_fetch_laws:
  assumes "healthy I" and "idb_inv db" and "UserLogin I now nm pw (db, n) = (Inr (res, st), db1, n1)"
    and "\<forall>s i e. uuid_Parse (id_jwx I) s = (i, Some e) \<longrightarrow> key_of_id db i = None \<and> i \<notin> range (pg_uuid (id_pg I))"
  shows "fetch_laws I db1"
proof -
  have "\<forall>ks. \<exists>m. jwk_MarshalSet (id_jwx I) ks = Inr m" using healthyD(5) [OF assms(1)] by (simp add: jwx_healthy_def)
  moreover have "key_of_id db1 i = None" if "uuid_Parse (id_jwx I) s = (i, Some e)" for s i e
    using login_token(2) [OF healthyD(4) [OF assms(1)] assms(2,3), of i] assms(4) that by metis
  ultimately show ?thesis using healthyD(4) [OF assms(1)] by (simp add: fetch_laws_def)
qed

section \<open>Requests with and without a valid token\<close>

lemma refused_request:
  fixes t :: "sconn \<times> 'w"
  assumes "fetch_laws I db" and "\<not> has_prefix (TrimTokenBearer (rq_header r ''Authorization'')) ''Bearer ''"
    and "ValidateToken I now (rq_header r ''Authorization'') (db, n) = (Inl err, c)"
    and "mux_laws mux" and "sa_stream_swagger A = Inr spec" and "sa_channels_swagger A = Inr spec'"
    and "find_route (sa_lib A spec) r = Inr route" and "secures (sa_lib A spec) route ok"
    and "(rq_method r, rq_path r) \<in> {(''POST'', ''/stream:start''), (''POST'', ''/stream:stop''), (''GET'', ''/stream:stat'')}"
  shows "\<exists>w n'. StartStreamHttp mux I now A r new_writer ((db, n), t) = (Ret w, (db, n'), t)
    \<and> resp_status w \<in> {400, 401} \<and> (ok r \<longrightarrow> resp_status w = 401)"
proof -
  note serve = served_routes [OF assms(4-6) refl]
  from platform_refuses [where t = t, OF assms(1,2,7,8,3)] obtain w n' where
    "\<forall>next_handler. NewOpenAPIRequestMiddleware (sa_lib A spec) (platform_auth I now) next_handler r new_writer ((db, n), t)
      = (Ret w, (db, n'), t)" "resp_status w \<in> {400, 401} \<and> (ok r \<longrightarrow> resp_status w = 401)" by blast
  moreover have "\<exists>handler. StartStreamHttp mux I now A r new_writer ((db, n), t)
      = NewOpenAPIRequestMiddleware (sa_lib A spec) (platform_auth I now) handler r new_writer ((db, n), t)"
    using assms(9) by (simp, elim disjE conjE) (simp_all only: serve, blast+)
  ultimately show ?thesis by metis
qed

lemma accepted_request:
  assumes "fetch_laws I db" and "\<not> has_prefix (TrimTokenBearer (rq_header r ''Authorization'')) ''Bearer ''"
    and "ValidateToken I now (rq_header r ''Authorization'') (db, n) = (Inr p, db, n')"
    and A: "mux_laws mux" "sa_stream_swagger A = Inr spec" "sa_channels_swagger A = Inr spec'"
      "sa_ctl A = operator_client env sch"
    and "find_route (sa_lib A spec) r = Inr route" and "secures (sa_lib A spec) route ok" and "ok r"
    and post: "rq_method r = ''POST''"
    and token: "sa_unmarshal A p = Inr token" "user_token U name token"
    and su: "stream_setup env cl sch lo hi s (sa_env A) U name"
      "list_all (\<lambda>oper. user_token U name (op_token oper)) ops"
      "stream_run (sa_env A) (operator_client env sch) ops ((empty_sdb, 0), s, 0) = ((sdb, k), s1, j)"
      "ns = isa_Namespace (IngestStandalone (se_config (sa_env A)))"
  shows "rq_path r = ''/stream:start'' \<Longrightarrow> sa_decode A (rq_body r) = Inr template \<Longrightarrow>
      \<exists>w sdb' k' s' j'. StartStreamHttp mux I now A r new_writer ((db, n), (sdb, k), s1, j) = (Ret w, (db, n'), (sdb', k'), s', j')
      \<and> resp_status w \<in> {200, 202, 500} \<and> (recorded (tp_UserID token) sdb' \<longleftrightarrow> resp_status w \<noteq> 500)
      \<and> (cl (os_world s') (KDeployment, ns, tp_Sub token) \<noteq> None \<longleftrightarrow> recorded (tp_UserID token) sdb')"
    and "rq_path r = ''/stream:stop'' \<Longrightarrow>
      \<exists>w sdb' k' s' j'. StartStreamHttp mux I now A r new_writer ((db, n), (sdb, k), s1, j) = (Ret w, (db, n'), (sdb', k'), s', j')
      \<and> resp_status w = (if recorded (tp_UserID token) sdb then 200 else 404) \<and> \<not> recorded (tp_UserID token) sdb'
      \<and> cl (os_world s') (KDeployment, ns, tp_Sub token) = None"
proof -
  let ?r = "r\<lparr>rq_token := Some p\<rparr>"
  note pass = platform_accepts [OF assms(1,2,8,9,10,3)]
  note serve = served_routes [OF A(1-3) refl]
  have rq: "rq_token ?r = Some p" by simp
  note spec = start_stop_spec [where unmarshal = "sa_unmarshal A" and r = ?r, OF su rq token, folded A(4)]
  have handlers: "si_StreamStart (StreamingService I now A) ?r new_writer (c, t)
      = (case StreamingServiceStreamStart (sa_env A) (sa_ctl A) (sa_decode A) (sa_unmarshal A) ?r new_writer t of
          (w, t1) \<Rightarrow> (Ret w, c, t1))"
    "si_StreamStop (StreamingService I now A) ?r new_writer (c, t)
      = (case StreamingServiceStreamStop (sa_env A) (sa_ctl A) (sa_unmarshal A) ?r new_writer t of (w, t1) \<Rightarrow> (Ret w, c, t1))" for c t
    by (simp_all add: StreamingService_def)
  show "\<exists>w sdb' k' s' j'. StartStreamHttp mux I now A r new_writer ((db, n), (sdb, k), s1, j) = (Ret w, (db, n'), (sdb', k'), s', j')
      \<and> resp_status w \<in> {200, 202, 500} \<and> (recorded (tp_UserID token) sdb' \<longleftrightarrow> resp_status w \<noteq> 500)
      \<and> (cl (os_world s') (KDeployment, ns, tp_Sub token) \<noteq> None \<longleftrightarrow> recorded (tp_UserID token) sdb')"
    if "rq_path r = ''/stream:start''" "sa_decode A (rq_body r) = Inr template"
    using conjunct1 [OF spec [where decode = "sa_decode A" and template = template]] that(2)
    by (auto simp: serve(1) [OF post that(1)] pass handlers)
  show "\<exists>w sdb' k' s' j'. StartStreamHttp mux I now A r new_writer ((db, n), (sdb, k), s1, j) = (Ret w, (db, n'), (sdb', k'), s', j')
      \<and> resp_status w = (if recorded (tp_UserID token) sdb then 200 else 404) \<and> \<not> recorded (tp_UserID token) sdb'
      \<and> cl (os_world s') (KDeployment, ns, tp_Sub token) = None"
    if "rq_path r = ''/stream:stop''"
    using conjunct2 [OF spec [where decode = "\<lambda>_. Inr []" and template = "[]"]] by (auto simp: serve(2) [OF post that] pass handlers)
qed

text \<open>What requests with a token come to that is accepted until a time.\<close>

lemma requests_with_token:
  assumes laws: "fetch_laws I db1" and plain: "\<not> has_prefix (TrimTokenBearer auth) ''Bearer ''"
    and val: "\<And>now' m. now' < expiry \<Longrightarrow> \<exists>m'. ValidateToken I now' auth (db1, m) = (Inr p, db1, m')"
    and old: "\<And>now' m. now' \<ge> expiry \<Longrightarrow> \<exists>e c. ValidateToken I now' auth (db1, m) = (Inl e, c)"
    and A: "mux_laws mux" "sa_stream_swagger A = Inr spec" "sa_channels_swagger A = Inr spec'" "sa_ctl A = operator_client env sch"
    and routes: "\<forall>r. rq_method r = ''POST'' \<longrightarrow> rq_path r \<in> {''/stream:start'', ''/stream:stop''}
      \<longrightarrow> (\<exists>route. find_route (sa_lib A spec) r = Inr route \<and> secures (sa_lib A spec) route ok)"
    and token: "sa_unmarshal A p = Inr token" "user_token U name token"
    and su: "stream_setup env cl sch lo hi s (sa_env A) U name"
    and history: "list_all (\<lambda>oper. user_token U name (op_token oper)) ops"
      "stream_run (sa_env A) (operator_client env sch) ops ((empty_sdb, 0), s, 0) = ((sdb, k), s1, j)"
    and ns: "ns = isa_Namespace (IngestStandalone (se_config (sa_env A)))"
    and r: "rq_method r = ''POST''" "rq_header r ''Authorization'' = auth" "ok r"
  shows "now' < expiry \<Longrightarrow> rq_path r = ''/stream:start'' \<Longrightarrow> sa_decode A (rq_body r) = Inr template \<Longrightarrow>
      \<exists>w m' sdb' k' s' j'. StartStreamHttp mux I now' A r new_writer ((db1, m), (sdb, k), s1, j) = (Ret w, (db1, m'), (sdb', k'), s', j')
      \<and> resp_status w \<in> {200, 202, 500} \<and> (recorded (tp_UserID token) sdb' \<longleftrightarrow> resp_status w \<noteq> 500)
      \<and> (cl (os_world s') (KDeployment, ns, tp_Sub token) \<noteq> None \<longleftrightarrow> recorded (tp_UserID token) sdb')"
    and "now' < expiry \<Longrightarrow> rq_path r = ''/stream:stop'' \<Longrightarrow>
      \<exists>w m' sdb' k' s' j'. StartStreamHttp mux I now' A r new_writer ((db1, m), (sdb, k), s1, j) = (Ret w, (db1, m'), (sdb', k'), s', j')
      \<and> resp_status w = (if recorded (tp_UserID token) sdb then 200 else 404) \<and> \<not> recorded (tp_UserID token) sdb'
      \<and> cl (os_world s') (KDeployment, ns, tp_Sub token) = None"
    and "now' \<ge> expiry \<Longrightarrow> rq_path r \<in> {''/stream:start'', ''/stream:stop''} \<Longrightarrow>
      \<exists>w m'. StartStreamHttp mux I now' A r new_writer ((db1, m), (sdb, k), s1, j) = (Ret w, (db1, m'), (sdb, k), s1, j) \<and> resp_status w = 401"
proof -
  have route: "\<exists>route. find_route (sa_lib A spec) r = Inr route \<and> secures (sa_lib A spec) route ok"
    if "rq_path r = ''/stream:start'' \<or> rq_path r = ''/stream:stop''"
    using routes r(1) that by blast
  show "\<exists>w m' sdb' k' s' j'. StartStreamHttp mux I now' A r new_writer ((db1, m), (sdb, k), s1, j) = (Ret w, (db1, m'), (sdb', k'), s', j')
      \<and> resp_status w \<in> {200, 202, 500} \<and> (recorded (tp_UserID token) sdb' \<longleftrightarrow> resp_status w \<noteq> 500)
      \<and> (cl (os_world s') (KDeployment, ns, tp_Sub token) \<noteq> None \<longleftrightarrow> recorded (tp_UserID token) sdb')"
    if p: "now' < expiry" "rq_path r = ''/stream:start''" "sa_decode A (rq_body r) = Inr template"
  proof -
    obtain m' where v: "ValidateToken I now' (rq_header r ''Authorization'') (db1, m) = (Inr p, db1, m')" using val [OF p(1)] r(2) by auto
    obtain rt where rt: "find_route (sa_lib A spec) r = Inr rt" "secures (sa_lib A spec) rt ok" using route p(2) by blast
    from accepted_request(1) [OF laws plain [folded r(2)] v A rt r(3,1) token su history ns p(2,3)] show ?thesis by blast
  qed
  show "\<exists>w m' sdb' k' s' j'. StartStreamHttp mux I now' A r new_writer ((db1, m), (sdb, k), s1, j) = (Ret w, (db1, m'), (sdb', k'), s', j')
      \<and> resp_status w = (if recorded (tp_UserID token) sdb then 200 else 404) \<and> \<not> recorded (tp_UserID token) sdb'
      \<and> cl (os_world s') (KDeployment, ns, tp_Sub token) = None"
    if p: "now' < expiry" "rq_path r = ''/stream:stop''"
  proof -
    obtain m' where v: "ValidateToken I now' (rq_header r ''Authorization'') (db1, m) = (Inr p, db1, m')" using val [OF p(1)] r(2) by auto
    obtain rt where rt: "find_route (sa_lib A spec) r = Inr rt" "secures (sa_lib A spec) rt ok" using route p(2) by blast
    from accepted_request(2) [OF laws plain [folded r(2)] v A rt r(3,1) token su history ns p(2)] show ?thesis by blast
  qed
  show "\<exists>w m'. StartStreamHttp mux I now' A r new_writer ((db1, m), (sdb, k), s1, j) = (Ret w, (db1, m'), (sdb, k), s1, j) \<and> resp_status w = 401"
    if p: "now' \<ge> expiry" "rq_path r \<in> {''/stream:start'', ''/stream:stop''}"
  proof -
    obtain rt where rt: "find_route (sa_lib A spec) r = Inr rt" "secures (sa_lib A spec) rt ok" using route p(2) by blast
    obtain e c where "ValidateToken I now' (rq_header r ''Authorization'') (db1, m) = (Inl e, c)" using old [OF p(1)] r(2) by blast
    note ref = refused_request [where t = "((sdb, k), s1, j)", OF laws plain [folded r(2)] this A(1-3) rt]
    have "(rq_method r, rq_path r) \<in> {(''POST'', ''/stream:start''), (''POST'', ''/stream:stop''), (''GET'', ''/stream:stat'')}"
      using r(1) p(2) by auto
    from ref [OF this] r(3) show ?thesis by blast
  qed
qed

section \<open>The example\<close>

definition toy_mux :: "'s mux" where
  "toy_mux routes r w s =
     (case find (\<lambda>(m, p, h). m = rq_method r \<and> p = rq_path r) routes of
        None \<Rightarrow> (Ret (http_Error ''404 page not found'' 404 w), s)
      | Some (m, p, h) \<Rightarrow> h (\<lambda>_. []) r w s)"

lemma toy_mux_laws: "mux_laws (toy_mux :: 's mux)"
proof -
  have "find (\<lambda>(m, p, h). m = m0 \<and> p = p0) routes = Some (m0, p0, h0)"
    if "distinct (map (\<lambda>(m, p, h). (m, p)) routes)" "(m0, p0, h0) \<in> set routes" for routes :: "'s route list" and m0 p0 h0
    using that by (induction routes) (force simp: image_iff split_def)+
  then show ?thesis by (auto simp: mux_laws_def toy_mux_def fun_eq_iff)
qed

definition toy_validation :: "('s, unit) openapi_lib" where
  "toy_validation = \<lparr>find_route = \<lambda>_. Inr (),
     validate = \<lambda>auth _ r s. (case auth ''BearerAuth'' r s of
        (Inl e, s1) \<Rightarrow> (Inl (MultiError (''security requirements failed: '' @ err_text e)), s1) | (Inr r1, s1) \<Rightarrow> (Inr r1, s1)),
     json_Unmarshal = \<lambda>_. None\<rparr>"

lemma toy_validation_secures: "find_route toy_validation r = Inr ()" "secures toy_validation () (\<lambda>_. True)"
  by (auto simp: secures_def toy_validation_def split: prod.split sum.split)

definition toy_app :: "(mem_world operator_state \<times> nat, unit, unit, unit) stream_app" where
  "toy_app = \<lparr>sa_env = mem_stream_env, sa_ctl = operator_client mem_env mem_schedules, sa_decode = Inr,
     sa_unmarshal = (\<lambda>p. case jwt_Parse toy_jwx p of
        Inl e \<Rightarrow> Inl e
      | Inr c \<Rightarrow> Inr \<lparr>tp_Aud = tc_aud c, tp_Exp = tc_exp c, tp_Iss = tc_iss c, tp_Sub = tc_sub c, tp_TokenUse = [],
          tp_UserID = the (tc_user_id c)\<rparr>),
     sa_upgrade = (\<lambda>_. Inr ()), sa_verify_nil = (\<lambda>_. nil_deref), sa_bind = (\<lambda>_. Inr), sa_lib = (\<lambda>_. toy_validation),
     sa_stream_swagger = Inr (), sa_channels_swagger = Inr ()\<rparr>"

lemma toy_app_simps [simp]:
  "sa_env toy_app = mem_stream_env" "sa_ctl toy_app = operator_client mem_env mem_schedules" "sa_decode toy_app = Inr"
  "sa_lib toy_app spec = toy_validation" "sa_stream_swagger toy_app = Inr ()" "sa_channels_swagger toy_app = Inr ()"
  by (simp_all add: toy_app_def)

lemma toy_app_payload: "jwt_Parse toy_jwx p = Inr c \<Longrightarrow> tc_user_id c = Some i \<Longrightarrow>
  \<exists>token. sa_unmarshal toy_app p = Inr token \<and> tp_UserID token = i \<and> tp_Sub token = tc_sub c"
  by (simp add: toy_app_def)

lemma admin_setup:
  "stream_setup mem_env mem_cl mem_schedules 20000 20001 mem_operator mem_stream_env {u_id admin_row} (\<lambda>_. ''adminuser'')"
proof -
  have "apps_ok {''adminuser''} ns" for ns by (simp add: apps_ok_def)
  moreover have "u_id admin_row \<noteq> []" by (simp add: admin_row_def)
  ultimately show ?thesis using mem_setup by (auto simp: stream_setup_def Let_def mem_operator_def)
qed

definition toy_start :: "string \<Rightarrow> http_request" where
  "toy_start tok = (bearer_request tok)\<lparr>rq_method := ''POST'', rq_path := ''/stream:start''\<rparr>"

section \<open>Properties\<close>



text \<open>C1: a user's way through the platform: a user of the identity service who signs in over HTTP with the
  right password gets 200 and an access token; for a minute, requests to the stream service that bear it
  start and stop that user's stream, with 200 or 202 exactly if the stream is recorded after the start,
  500 if not, and 200 or 404 for a stop as it was recorded or not, the user's deployment being in the
  cluster exactly if the stream is recorded; after the minute they are answered with 401 and change
  neither the records nor the cluster.  This holds after any earlier starts and stops of any users.\<close>

theorem signed_in_user_controls_stream:
  assumes I: "healthy I" "idb_inv db" "fresh_ids (id_pg I) db n"
    and login: "decode (rq_body sreq) = Inr req" "user_named db (sr_Username req) = Some u"
      "bcrypt_Compare I (u_password u) (sr_Password req) = None"
    and nil: "\<forall>s i e. uuid_Parse (id_jwx I) s = (i, Some e) \<longrightarrow> key_of_id db i = None \<and> i \<notin> range (pg_uuid (id_pg I))"
    and A: "mux_laws mux" "sa_stream_swagger A = Inr spec" "sa_channels_swagger A = Inr spec'"
      "sa_ctl A = operator_client env sch"
    and routes: "\<forall>r. rq_method r = ''POST'' \<longrightarrow> rq_path r \<in> {''/stream:start'', ''/stream:stop''}
      \<longrightarrow> (\<exists>route. find_route (sa_lib A spec) r = Inr route \<and> secures (sa_lib A spec) route ok)"
    and payload: "\<forall>p c i. jwt_Parse (id_jwx I) p = Inr c \<longrightarrow> tc_user_id c = Some i
      \<longrightarrow> (\<exists>token. sa_unmarshal A p = Inr token \<and> tp_UserID token = i \<and> tp_Sub token = tc_sub c)"
    and su: "stream_setup env cl sch lo hi s (sa_env A) U name" "u_id u \<in> U" "name (u_id u) = u_username u"
    and history: "list_all (\<lambda>oper. user_token U name (op_token oper)) ops"
      "stream_run (sa_env A) (operator_client env sch) ops ((empty_sdb, 0), s, 0) = ((sdb, k), s1, j)"
    and ns: "ns = isa_Namespace (IngestStandalone (se_config (sa_env A)))"
  shows "\<exists>w1 db1 n1 tok. IdentityServiceSignIn I decode now sreq new_writer (db, n) = (w1, db1, n1)
    \<and> resp_status w1 = 200 \<and> resp_body w1 = [access_token_body tok]
    \<and> (\<forall>r now' m. rq_method r = ''POST'' \<longrightarrow> rq_header r ''Authorization'' = ''Bearer '' @ tok \<longrightarrow> ok r \<longrightarrow>
        (now' < now + 60 \<longrightarrow> rq_path r = ''/stream:start'' \<longrightarrow> sa_decode A (rq_body r) = Inr template \<longrightarrow>
          (\<exists>w m' sdb' k' s' j'. StartStreamHttp mux I now' A r new_writer ((db1, m), (sdb, k), s1, j)
             = (Ret w, (db1, m'), (sdb', k'), s', j')
           \<and> resp_status w \<in> {200, 202, 500} \<and> (recorded (u_id u) sdb' \<longleftrightarrow> resp_status w \<noteq> 500)
           \<and> (cl (os_world s') (KDeployment, ns, u_username u) \<noteq> None \<longleftrightarrow> recorded (u_id u) sdb')))
      \<and> (now' < now + 60 \<longrightarrow> rq_path r = ''/stream:stop'' \<longrightarrow>
          (\<exists>w m' sdb' k' s' j'. StartStreamHttp mux I now' A r new_writer ((db1, m), (sdb, k), s1, j)
             = (Ret w, (db1, m'), (sdb', k'), s', j')
           \<and> resp_status w = (if recorded (u_id u) sdb then 200 else 404) \<and> \<not> recorded (u_id u) sdb'
           \<and> cl (os_world s') (KDeployment, ns, u_username u) = None))
      \<and> (now' \<ge> now + 60 \<longrightarrow> rq_path r \<in> {''/stream:start'', ''/stream:stop''} \<longrightarrow>
          (\<exists>w m'. StartStreamHttp mux I now' A r new_writer ((db1, m), (sdb, k), s1, j)
             = (Ret w, (db1, m'), (sdb, k), s1, j) \<and> resp_status w = 401)))"
proof -
  obtain res db1 n1 where login: "UserLogin I now (sr_Username req) (sr_Password req) (db, n) = (Inr (res, 200), db1, n1)"
    and acc: "accepted_until I db1 (''Bearer '' @ AccessToken res) (user_claims u ''access_token'' (now + 60)) (now + 60)"
    and decoded: "decode (rq_body sreq) = Inr req"
    using login_ok [OF I login(2,3), of now] login(1) by blast
  note laws = login_fetch_laws [OF I(1,2) login nil]
  have plain: "\<not> has_prefix (TrimTokenBearer (''Bearer '' @ AccessToken res)) ''Bearer ''"
    using login_token(1) [OF healthyD(4) [OF I(1)] I(2) login] unfolding TrimTokenBearer_simps .
  from acc obtain p where p: "jwt_Parse (id_jwx I) p = Inr (user_claims u ''access_token'' (now + 60))"
    "\<And>now' m. now' < now + 60 \<Longrightarrow> \<exists>c. ValidateToken I now' (''Bearer '' @ AccessToken res) (db1, m) = (Inr p, c)"
    "\<And>now' m. now' \<ge> now + 60 \<Longrightarrow> \<exists>e c. ValidateToken I now' (''Bearer '' @ AccessToken res) (db1, m) = (Inl e, c)"
    unfolding accepted_until_def by blast
  from payload p(1) obtain token where token: "sa_unmarshal A p = Inr token" "tp_UserID token = u_id u" "tp_Sub token = u_username u"
    unfolding user_claims_def by (metis token_claims.simps)
  have tok: "user_token U name token" using token su(2,3) by (simp add: user_token_def)
  have sign: "IdentityServiceSignIn I decode now sreq new_writer (db, n) = (tokens_response 200 res new_writer, db1, n1)"
    by (simp add: IdentityServiceSignIn_def decoded login)
  have val: "\<exists>m'. ValidateToken I now' (''Bearer '' @ AccessToken res) (db1, m) = (Inr p, db1, m')" if "now' < now + 60" for now' m
    using p(2) [OF that, of m] ValidateToken_db [of I now' "''Bearer '' @ AccessToken res" "(db1, m)"] by auto
  note request = requests_with_token [OF laws plain val p(3) A routes token(1) tok su(1) history ns, unfolded token(2,3)]
  show ?thesis
    by (rule exI [of _ "tokens_response 200 res new_writer"], rule exI [of _ db1], rule exI [of _ n1],
        rule exI [of _ "AccessToken res"], intro conjI allI impI sign)
      (rule request; assumption | simp add: identity_http)+
qed

theorem signed_in_user_controls_stream_witness:
  "\<exists>w1 db1 n1 tok. IdentityServiceSignIn (toy_identity\<lparr>bcrypt_Compare := \<lambda>h pw. None\<rparr>)
        (\<lambda>_. Inr \<lparr>sr_Username = ''adminuser'', sr_Password = ''admin''\<rparr>) 0 admin_request new_writer (migrated_db, 0)
      = (w1, db1, n1)
    \<and> resp_status w1 = 200 \<and> resp_body w1 = [access_token_body tok]
    \<and> (\<exists>w m sdb k s' j. StartStreamHttp toy_mux (toy_identity\<lparr>bcrypt_Compare := \<lambda>h pw. None\<rparr>) 59 toy_app (toy_start tok)
          new_writer ((db1, n1), (empty_sdb, 0), mem_operator, 0) = (Ret w, (db1, m), (sdb, k), s', j)
        \<and> resp_status w \<in> {200, 202, 500}
        \<and> (mem_cl (os_world s') (KDeployment, ''default'', ''adminuser'') \<noteq> None \<longleftrightarrow> recorded (u_id admin_row) sdb))
    \<and> (\<exists>w m. StartStreamHttp toy_mux (toy_identity\<lparr>bcrypt_Compare := \<lambda>h pw. None\<rparr>) 60 toy_app (toy_start tok)
          new_writer ((db1, n1), (empty_sdb, 0), mem_operator, 0) = (Ret w, (db1, m), (empty_sdb, 0), mem_operator, 0)
        \<and> resp_status w = 401)"
proof -
  let ?I = "toy_identity\<lparr>bcrypt_Compare := \<lambda>h pw. None\<rparr>"
  let ?d = "\<lambda>_. Inr \<lparr>sr_Username = ''adminuser'', sr_Password = ''admin''\<rparr>"
  have I: "healthy ?I" by (simp add: healthy_def inj_def toy_identity_def toy_pg_def)
  have fresh: "fresh_ids (id_pg ?I) migrated_db 0" using toy_fresh by simp
  have login: "?d (rq_body admin_request) = Inr \<lparr>sr_Username = ''adminuser'', sr_Password = ''admin''\<rparr>"
    "user_named migrated_db (sr_Username \<lparr>sr_Username = ''adminuser'', sr_Password = ''admin''\<rparr>) = Some admin_row"
    "bcrypt_Compare ?I (u_password admin_row) (sr_Password \<lparr>sr_Username = ''adminuser'', sr_Password = ''admin''\<rparr>) = None"
    by simp_all
  have uuid: "\<forall>s i e. uuid_Parse (id_jwx ?I) s = (i, Some e) \<longrightarrow> key_of_id migrated_db i = None \<and> i \<notin> range (pg_uuid (id_pg ?I))"
    by (auto simp: toy_identity_simps key_of_id_def migrated_db_def) (metis nat_str_not_Nil)
  have routes: "\<forall>r. rq_method r = ''POST'' \<longrightarrow> rq_path r \<in> {''/stream:start'', ''/stream:stop''}
      \<longrightarrow> (\<exists>route. find_route (sa_lib toy_app ()) r = Inr route \<and> secures (sa_lib toy_app ()) route (\<lambda>_. True))"
    using toy_validation_secures by auto
  have payload: "\<forall>p c i. jwt_Parse (id_jwx ?I) p = Inr c \<longrightarrow> tc_user_id c = Some i
      \<longrightarrow> (\<exists>token. sa_unmarshal toy_app p = Inr token \<and> tp_UserID token = i \<and> tp_Sub token = tc_sub c)"
    using toy_app_payload by simp
  have user: "u_id admin_row \<in> {u_id admin_row}" "(\<lambda>_. ''adminuser'') (u_id admin_row) = u_username admin_row"
    by (simp_all add: admin_row_def)
  have hist: "list_all (\<lambda>oper. user_token {u_id admin_row} (\<lambda>_. ''adminuser'') (op_token oper)) []"
    "stream_run mem_stream_env (operator_client mem_env mem_schedules) [] ((empty_sdb, 0), mem_operator, 0) = ((empty_sdb, 0), mem_operator, 0)"
    by (simp_all add: stream_run_def)
  have ns: "''default'' = isa_Namespace (IngestStandalone (se_config mem_stream_env))" by (simp add: mem_stream_env_def)
  note main = signed_in_user_controls_stream [where A = toy_app and ok = "\<lambda>_. True" and template = "[]" and now = 0
      and sreq = admin_request and decode = ?d, OF I migrated_inv fresh login uuid toy_mux_laws
      toy_app_simps(5,6,2) routes payload, unfolded toy_app_simps, OF admin_setup user hist ns]
  show ?thesis
  proof (insert main, elim exE conjE, goal_cases)
    case (1 w1 db1 n1 tok)
    have rq: "rq_method (toy_start tok) = ''POST''" "rq_header (toy_start tok) ''Authorization'' = ''Bearer '' @ tok"
      "rq_path (toy_start tok) = ''/stream:start''" "rq_body (toy_start tok) = []" "u_username admin_row = ''adminuser''"
      by (simp_all add: toy_start_def bearer_request_def admin_row_def)
    note at = spec [where x = "toy_start tok", OF 1(4)]
    note run = spec [where x = n1, OF spec [where x = now' for now', OF at], unfolded rq, rule_format, OF refl refl TrueI]
    from 1(1-3) run [THEN conjunct1, of 59] run [THEN conjunct2, THEN conjunct2, of 60] show ?case
      by (intro exI [of _ w1] exI [of _ db1] exI [of _ n1] exI [of _ tok]) auto
  qed
qed

end
