(* ===== verification/IngestMedia.thy ===== *)
theory IngestMedia imports Prelude "HOL-Library.Word" "HOL-Library.Signed_Division" begin

text \<open>
  The media path of the ingest service (\<open>services/ingest/internal/media\<close>): RTP packets read from a remote
  track go to a local track and to a muxer that writes WebM.  RTP parsing, the sample builder and the
  WebM writer are libraries, so parameters: \<open>rtp_lib\<close>.  What the muxers do is the trace of their calls to
  the WebM writer.  A duration is an \<open>int64\<close> of nanoseconds, an \<open>int\<close> here.
\<close>

unbundle bit_operations_syntax

type_synonym bytes = "8 word list"

section \<open>Writers\<close>

text \<open>An \<open>io.Writer\<close> on a state, and \<open>io.MultiWriter\<close> of the standard library.  A write may panic.\<close>

type_synonym 's writer = "bytes \<Rightarrow> 's \<Rightarrow> (nat \<times> goerr option) outcome \<times> 's"

definition ErrShortWrite :: goerr where
  "ErrShortWrite = Sentinel ''short write''"

definition io_EOF :: goerr where
  "io_EOF = Sentinel ''EOF''"

fun MultiWriter :: "'s writer list \<Rightarrow> 's writer" where
  "MultiWriter [] p s = (Ret (length p, None), s)"
| "MultiWriter (w # ws) p s =
     (case w p s of
        (Panic m, s1) \<Rightarrow> (Panic m, s1)
      | (Ret (n, Some err), s1) \<Rightarrow> (Ret (n, Some err), s1)
      | (Ret (n, None), s1) \<Rightarrow>
          if n \<noteq> length p then (Ret (n, Some ErrShortWrite), s1) else MultiWriter ws p s1)"

text \<open>\<open>generalmediawriters.go\<close>\<close>

definition TargetMediaWriter_Write :: "'s writer \<Rightarrow> 's writer" where
  "TargetMediaWriter_Write target p s = target p s"

section \<open>demuxerbuilder.go, muxerbuilder.go\<close>

text \<open>
  A loop over what the reads yield: it still waits for the next one, has returned, or has panicked, which
  ends the process.  \<open>Demux\<close> goes on after any error but the end of file.
\<close>

datatype loop_end = Waiting | Returned | Crashed string

definition DemuxerBuilder_Write :: "'s writer \<Rightarrow> 's writer" where
  "DemuxerBuilder_Write writer p s = writer p s"

fun Demux :: "'s writer \<Rightarrow> (goerr + bytes) list \<Rightarrow> 's \<Rightarrow> loop_end \<times> 's" where
  "Demux writer [] s = (Waiting, s)"
| "Demux writer (Inl err # rs) s = (if err = io_EOF then (Returned, s) else Demux writer rs s)"
| "Demux writer (Inr sample # rs) s =
     (case DemuxerBuilder_Write writer sample s of
        (Panic m, s1) \<Rightarrow> (Crashed m, s1)
      | (Ret _, s1) \<Rightarrow> Demux writer rs s1)"

definition NewDemuxerBuilder :: "'s writer list \<Rightarrow> 's writer" where
  "NewDemuxerBuilder mediaWriters = MultiWriter mediaWriters"

definition MuxerBuilder_Write :: "'s writer \<Rightarrow> 's writer" where
  "MuxerBuilder_Write muxerWriter p s = muxerWriter p s"

text \<open>
  A muxer's \<open>Mux\<close> copies the chunks that its writer produced to the media writers; \<open>io.Copy\<close> ends at an
  error and is called again.
\<close>

fun Mux :: "'s writer \<Rightarrow> bytes list \<Rightarrow> 's \<Rightarrow> loop_end \<times> 's" where
  "Mux writer [] s = (Waiting, s)"
| "Mux writer (p # ps) s =
     (case writer p s of
        (Panic m, s1) \<Rightarrow> (Crashed m, s1)
      | (Ret _, s1) \<Rightarrow> Mux writer ps s1)"

definition NewMuxerBuilder :: "'s writer list \<Rightarrow> 's writer" where
  "NewMuxerBuilder mediaWriters = MultiWriter mediaWriters"

section \<open>Samples and WebM\<close>

record sample =
  sm_Data :: bytes
  sm_Duration :: int

datatype webm_call = WebmNew string "(nat \<times> nat) option" | WebmWrite bool int bytes

record ('b, 'p) rtp_lib =
  rtp_Unmarshal :: "bytes \<Rightarrow> goerr + 'p"
  rtp_Marshal :: "'p \<Rightarrow> goerr + bytes"
  rtp_Payload :: "'p \<Rightarrow> bytes"
  sb_Push :: "'p \<Rightarrow> 'b \<Rightarrow> 'b"
  sb_Pop :: "'b \<Rightarrow> sample option \<times> 'b"
  webm_ok :: bool
  webm_Write :: "bool \<Rightarrow> int \<Rightarrow> bytes \<Rightarrow> nat \<times> goerr option"
  h264_WriteRTP :: "'p \<Rightarrow> goerr option"

definition Millisecond :: int where "Millisecond = 1000000"

section \<open>vp8/muxerwriter.go\<close>

record 'b vp8_mux =
  vp8builder :: 'b
  webmBuilder :: "(nat \<times> nat) option"
  vm_timestamp :: int
  vm_calls :: "webm_call list"

definition vp8_EmptySampleError :: goerr where
  "vp8_EmptySampleError = Sentinel ''Empty Opus sample''"

definition UnableInitWebmBuilder :: goerr where
  "UnableInitWebmBuilder = Sentinel ''Unable init webm builder''"

definition NewRtpToWebmVP8Writer :: "'b \<Rightarrow> 'b vp8_mux" where
  "NewRtpToWebmVP8Writer b = \<lparr>vp8builder = b, webmBuilder = None, vm_timestamp = 0, vm_calls = []\<rparr>"

text \<open>The frame's dimensions: two numbers of 14 bits in the bytes 6 to 9.\<close>

definition vp8_raw :: "bytes \<Rightarrow> 64 word" where
  "vp8_raw d = ucast (d ! 6) OR push_bit 8 (ucast (d ! 7)) OR push_bit 16 (ucast (d ! 8)) OR push_bit 24 (ucast (d ! 9))"

definition vp8_dims :: "bytes \<Rightarrow> nat \<times> nat" where
  "vp8_dims d = (unat (vp8_raw d AND 0x3FFF), unat (drop_bit 16 (vp8_raw d) AND 0x3FFF))"

definition vp8_block :: "('b, 'p) rtp_lib \<Rightarrow> bool \<Rightarrow> sample \<Rightarrow> 'b vp8_mux \<Rightarrow> (nat \<times> goerr option) \<times> 'b vp8_mux" where
  "vp8_block L keyframe s w =
     (let t = vm_timestamp w + sm_Duration s; ms = t sdiv Millisecond in
      (webm_Write L keyframe ms (sm_Data s),
       w\<lparr>vm_timestamp := t, vm_calls := vm_calls w @ [WebmWrite keyframe ms (sm_Data s)]\<rparr>))"

definition index_out_of_range :: "'a outcome" where
  "index_out_of_range = Panic ''runtime error: index out of range''"

text \<open>
  An index beyond the sample panics, and so does taking the first of no block writers when WebM's header
  could not be written.
\<close>

definition vp8_Write :: "('b, 'p) rtp_lib \<Rightarrow> 'b vp8_mux writer" where
  "vp8_Write L p w =
     (case rtp_Unmarshal L p of
        Inl err \<Rightarrow> (Ret (0, Some err), w)
      | Inr packet \<Rightarrow>
          (case sb_Pop L (sb_Push L packet (vp8builder w)) of
             (None, b) \<Rightarrow> (Ret (0, Some vp8_EmptySampleError), w\<lparr>vp8builder := b\<rparr>)
           | (Some s, b) \<Rightarrow>
               (let w1 = w\<lparr>vp8builder := b\<rparr> in
                case sm_Data s of
                  [] \<Rightarrow> (index_out_of_range, w1)
                | d0 # _ \<Rightarrow>
                    (let keyframe = (d0 AND 1 = 0) in
                     case webmBuilder w1 of
                       Some dims \<Rightarrow> (let (r, w2) = vp8_block L keyframe s w1 in (Ret r, w2))
                     | None \<Rightarrow>
                         if \<not> keyframe then (Ret (0, Some UnableInitWebmBuilder), w1)
                         else if length (sm_Data s) < 10 then (index_out_of_range, w1)
                         else if \<not> webm_ok L then (index_out_of_range, w1)
                         else
                           (let dims = vp8_dims (sm_Data s);
                                (r, w2) = vp8_block L keyframe s (w1\<lparr>webmBuilder := Some dims,
                                  vm_calls := vm_calls w1 @ [WebmNew ''V_VP8'' (Some dims)]\<rparr>)
                            in (Ret r, w2))))))"

section \<open>opus/muxerwriter.go\<close>

record 'b opus_mux =
  opusBuilder :: 'b
  om_timestamp :: int
  om_calls :: "webm_call list"

definition EmptySampleError :: goerr where
  "EmptySampleError = Sentinel ''Empty Opus sample''"

definition NewRtpToWebmOpusWriter :: "('b, 'p) rtp_lib \<Rightarrow> 'b \<Rightarrow> 'b opus_mux outcome" where
  "NewRtpToWebmOpusWriter L b =
     (if webm_ok L then Ret \<lparr>opusBuilder = b, om_timestamp = 0, om_calls = [WebmNew ''A_OPUS'' None]\<rparr>
      else index_out_of_range)"

definition opus_Write :: "('b, 'p) rtp_lib \<Rightarrow> 'b opus_mux writer" where
  "opus_Write L p w =
     (case rtp_Unmarshal L p of
        Inl err \<Rightarrow> (Ret (0, Some err), w)
      | Inr packet \<Rightarrow>
          (case sb_Pop L (sb_Push L packet (opusBuilder w)) of
             (None, b) \<Rightarrow> (Ret (0, Some EmptySampleError), w\<lparr>opusBuilder := b\<rparr>)
           | (Some s, b) \<Rightarrow>
               (let t = om_timestamp w + sm_Duration s; ms = t sdiv Millisecond in
                (Ret (webm_Write L True ms (sm_Data s)),
                 w\<lparr>opusBuilder := b, om_timestamp := t, om_calls := om_calls w @ [WebmWrite True ms (sm_Data s)]\<rparr>))))"

section \<open>h264/mediawriter.go, rtp/mediawriter.go, rtp/muxerwriter.go, rtp/demuxerreader.go\<close>

text \<open>The H264 writer is a library; its state is the list of packets it was given.\<close>

definition InvalidRTPData :: goerr where
  "InvalidRTPData = Sentinel ''Invalid rtp packet''"

definition RtpToH264MediaWriter_Write :: "('b, 'p) rtp_lib \<Rightarrow> 'p list writer" where
  "RtpToH264MediaWriter_Write L p s =
     (case rtp_Unmarshal L p of
        Inl err \<Rightarrow> (Ret (0, Some InvalidRTPData), s)
      | Inr packet \<Rightarrow>
          (Ret (case h264_WriteRTP L packet of Some err \<Rightarrow> (0, Some err) | None \<Rightarrow> (length p, None)), s @ [packet]))"

definition RtpToSampleMediaWriter_Write :: "('b, 'p) rtp_lib \<Rightarrow> 's writer \<Rightarrow> 's writer" where
  "RtpToSampleMediaWriter_Write L target p s =
     (case rtp_Unmarshal L p of Inl err \<Rightarrow> (Ret (0, Some err), s) | Inr packet \<Rightarrow> target (rtp_Payload L packet) s)"

definition NotRTPPackerError :: goerr where
  "NotRTPPackerError = Sentinel ''Invalid written packet payload unable serialize that.''"

definition RtpToRtpMuxerWriter_Write :: "('b, 'p) rtp_lib \<Rightarrow> 's writer \<Rightarrow> 's writer" where
  "RtpToRtpMuxerWriter_Write L target p s =
     (case rtp_Unmarshal L p of
        Inl err \<Rightarrow> (Ret (0, Some err), s)
      | Inr packet \<Rightarrow>
          (case rtp_Marshal L packet of Inl err \<Rightarrow> (Ret (0, Some NotRTPPackerError), s) | Inr b \<Rightarrow> target b s))"

definition RtpTrackDemuxerReader_Read :: "('b, 'p) rtp_lib \<Rightarrow> goerr + 'p \<Rightarrow> goerr + bytes" where
  "RtpTrackDemuxerReader_Read L pkt = (case pkt of Inl err \<Rightarrow> Inl err | Inr p \<Rightarrow> rtp_Marshal L p)"

section \<open>What the muxer does with a whole track\<close>

text \<open>Packets written one after another; \<open>None\<close> once a write has panicked.\<close>

fun write_all :: "'s writer \<Rightarrow> bytes list \<Rightarrow> 's \<Rightarrow> 's option" where
  "write_all writer [] w = Some w"
| "write_all writer (p # ps) w = (case writer p w of (Panic m, w1) \<Rightarrow> None | (Ret r, w1) \<Rightarrow> write_all writer ps w1)"

text \<open>The samples that the sample builder makes of the packets.\<close>

fun samples :: "('b, 'p) rtp_lib \<Rightarrow> bytes list \<Rightarrow> 'b \<Rightarrow> sample list" where
  "samples L [] b = []"
| "samples L (p # ps) b =
     (case rtp_Unmarshal L p of
        Inl err \<Rightarrow> samples L ps b
      | Inr packet \<Rightarrow>
          (case sb_Pop L (sb_Push L packet b) of
             (None, b1) \<Rightarrow> samples L ps b1
           | (Some s, b1) \<Rightarrow> s # samples L ps b1))"

definition keyframe :: "sample \<Rightarrow> bool" where
  "keyframe s \<longleftrightarrow> hd (sm_Data s) AND 1 = 0"

fun webm_blocks :: "int \<Rightarrow> sample list \<Rightarrow> webm_call list" where
  "webm_blocks t [] = []"
| "webm_blocks t (s # ss) = WebmWrite (keyframe s) ((t + sm_Duration s) sdiv Millisecond) (sm_Data s)
     # webm_blocks (t + sm_Duration s) ss"

text \<open>The reference: nothing before the first key frame, whose dimensions make the header; then every sample.\<close>

definition webm_of :: "sample list \<Rightarrow> webm_call list" where
  "webm_of ss = (case dropWhile (\<lambda>s. \<not> keyframe s) ss of
       [] \<Rightarrow> []
     | s # ss' \<Rightarrow> WebmNew ''V_VP8'' (Some (vp8_dims (sm_Data s))) # webm_blocks 0 (s # ss'))"

lemma mask_14: "unat (x AND 0x3FFF :: 64 word) = unat x mod 16384"
proof -
  have "x AND 0x3FFF = take_bit 14 x" by (simp add: take_bit_eq_mask mask_eq_exp_minus_1)
  then show ?thesis by (simp only: unsigned_take_bit_eq) (simp add: take_bit_eq_mod)
qed

lemma vp8_dims_bound: "vp8_dims d = (w, h) \<Longrightarrow> w < 16384 \<and> h < 16384"
  unfolding vp8_dims_def mask_14 by auto

lemma vp8_block_simps [simp]:
  "vp8builder (snd (vp8_block L k s w)) = vp8builder w" "webmBuilder (snd (vp8_block L k s w)) = webmBuilder w"
  "vm_timestamp (snd (vp8_block L k s w)) = vm_timestamp w + sm_Duration s"
  "vm_calls (snd (vp8_block L k s w)) = vm_calls w @ [WebmWrite k ((vm_timestamp w + sm_Duration s) sdiv Millisecond) (sm_Data s)]"
  by (simp_all add: vp8_block_def Let_def)

text \<open>One write, by what the sample builder makes of it.\<close>

lemma vp8_Write_cases:
  "rtp_Unmarshal L p = Inl e \<Longrightarrow> vp8_Write L p w = (Ret (0, Some e), w)"
  "rtp_Unmarshal L p = Inr packet \<Longrightarrow> sb_Pop L (sb_Push L packet (vp8builder w)) = (None, b) \<Longrightarrow>
     vp8_Write L p w = (Ret (0, Some vp8_EmptySampleError), w\<lparr>vp8builder := b\<rparr>)"
  "rtp_Unmarshal L p = Inr packet \<Longrightarrow> sb_Pop L (sb_Push L packet (vp8builder w)) = (Some s, b) \<Longrightarrow> sm_Data s \<noteq> [] \<Longrightarrow>
     webmBuilder w = Some dims \<Longrightarrow>
     vp8_Write L p w = (Ret (fst (vp8_block L (keyframe s) s (w\<lparr>vp8builder := b\<rparr>))),
       snd (vp8_block L (keyframe s) s (w\<lparr>vp8builder := b\<rparr>)))"
  "rtp_Unmarshal L p = Inr packet \<Longrightarrow> sb_Pop L (sb_Push L packet (vp8builder w)) = (Some s, b) \<Longrightarrow> sm_Data s \<noteq> [] \<Longrightarrow>
     webmBuilder w = None \<Longrightarrow> \<not> keyframe s \<Longrightarrow>
     vp8_Write L p w = (Ret (0, Some UnableInitWebmBuilder), w\<lparr>vp8builder := b\<rparr>)"
  "rtp_Unmarshal L p = Inr packet \<Longrightarrow> sb_Pop L (sb_Push L packet (vp8builder w)) = (Some s, b) \<Longrightarrow> 10 \<le> length (sm_Data s) \<Longrightarrow>
     webmBuilder w = None \<Longrightarrow> keyframe s \<Longrightarrow> webm_ok L \<Longrightarrow>
     w1 = w\<lparr>vp8builder := b, webmBuilder := Some (vp8_dims (sm_Data s)),
         vm_calls := vm_calls w @ [WebmNew ''V_VP8'' (Some (vp8_dims (sm_Data s)))]\<rparr> \<Longrightarrow>
     vp8_Write L p w = (Ret (fst (vp8_block L True s w1)), snd (vp8_block L True s w1))"
  by (auto simp: vp8_Write_def keyframe_def Let_def split_def split: list.split)

lemma vp8_run_open:
  assumes "webmBuilder w = Some dims" and "\<And>s. s \<in> set (samples L ps (vp8builder w)) \<Longrightarrow> sm_Data s \<noteq> []"
  shows "\<exists>w'. write_all (vp8_Write L) ps w = Some w'
    \<and> vm_calls w' = vm_calls w @ webm_blocks (vm_timestamp w) (samples L ps (vp8builder w))"
  using assms
proof (induction ps arbitrary: w)
  case (Cons p ps)
  show ?case
  proof (cases "rtp_Unmarshal L p")
    case (Inl e)
    with Cons show ?thesis by (simp add: vp8_Write_cases(1))
  next
    case (Inr packet)
    obtain so b where pop: "sb_Pop L (sb_Push L packet (vp8builder w)) = (so, b)" by (rule prod.exhaust)
    show ?thesis
    proof (cases so)
      case None
      with Inr pop Cons.prems Cons.IH [of "w\<lparr>vp8builder := b\<rparr>"] show ?thesis by (simp add: vp8_Write_cases(2))
    next
      case (Some s)
      let ?w = "snd (vp8_block L (keyframe s) s (w\<lparr>vp8builder := b\<rparr>))"
      have "sm_Data s \<noteq> []" using Cons.prems(2) Inr pop Some by simp
      note vp8_Write_cases(3) [OF Inr pop [unfolded Some] this Cons.prems(1)]
      with Cons.IH [of ?w] Cons.prems Inr pop Some show ?thesis by simp
    qed
  qed
qed simp

lemma vp8_run_closed:
  assumes "webmBuilder w = None" and "vm_timestamp w = 0" and "webm_ok L"
    and "\<And>s. s \<in> set (samples L ps (vp8builder w)) \<Longrightarrow> sm_Data s \<noteq> [] \<and> (keyframe s \<longrightarrow> 10 \<le> length (sm_Data s))"
  shows "\<exists>w'. write_all (vp8_Write L) ps w = Some w' \<and> vm_calls w' = vm_calls w @ webm_of (samples L ps (vp8builder w))"
  using assms
proof (induction ps arbitrary: w)
  case (Cons p ps)
  show ?case
  proof (cases "rtp_Unmarshal L p")
    case (Inl e)
    with Cons show ?thesis by (simp add: vp8_Write_cases(1))
  next
    case (Inr packet)
    obtain so b where pop: "sb_Pop L (sb_Push L packet (vp8builder w)) = (so, b)" by (rule prod.exhaust)
    show ?thesis
    proof (cases so)
      case None
      with Inr pop Cons.prems Cons.IH [of "w\<lparr>vp8builder := b\<rparr>"] show ?thesis by (simp add: vp8_Write_cases(2))
    next
      case (Some s)
      have sm: "samples L (p # ps) (vp8builder w) = s # samples L ps b" using Inr pop Some by simp
      have ok: "sm_Data s \<noteq> []" "keyframe s \<Longrightarrow> 10 \<le> length (sm_Data s)" using Cons.prems(4) sm by auto
      show ?thesis
      proof (cases "keyframe s")
        case False
        from vp8_Write_cases(4) [OF Inr pop [unfolded Some] ok(1) Cons.prems(1) False]
          Cons.IH [of "w\<lparr>vp8builder := b\<rparr>"] Cons.prems sm False show ?thesis
          by (simp add: webm_of_def)
      next
        case True
        let ?w0 = "w\<lparr>vp8builder := b, webmBuilder := Some (vp8_dims (sm_Data s)),
            vm_calls := vm_calls w @ [WebmNew ''V_VP8'' (Some (vp8_dims (sm_Data s)))]\<rparr>"
        let ?w = "snd (vp8_block L True s ?w0)"
        note vp8_Write_cases(5) [OF Inr pop [unfolded Some] ok(2) [OF True] Cons.prems(1) True Cons.prems(3) refl]
        moreover have "\<exists>w'. write_all (vp8_Write L) ps ?w = Some w'
            \<and> vm_calls w' = vm_calls ?w @ webm_blocks (vm_timestamp ?w) (samples L ps (vp8builder ?w))"
          by (rule vp8_run_open [of _ "vp8_dims (sm_Data s)"]) (use Cons.prems(4) sm in auto)
        ultimately show ?thesis using sm True Cons.prems(2) by (auto simp: webm_of_def)
      qed
    qed
  qed
qed (simp add: webm_of_def)

text \<open>
  From the first packet: provided no sample is empty and no key frame shorter than its header, no write
  panics, and the calls to the WebM writer are those of the reference.
\<close>

lemma vp8_muxer_reference:
  assumes "webm_ok L"
    and "\<forall>s\<in>set (samples L ps b). sm_Data s \<noteq> [] \<and> (keyframe s \<longrightarrow> 10 \<le> length (sm_Data s))"
  shows "\<exists>w. write_all (vp8_Write L) ps (NewRtpToWebmVP8Writer b) = Some w \<and> vm_calls w = webm_of (samples L ps b)
    \<and> (\<forall>c x y. WebmNew c (Some (x, y)) \<in> set (vm_calls w) \<longrightarrow> x < 16384 \<and> y < 16384)"
proof -
  have "WebmNew c d \<notin> set (webm_blocks t ss)" for c d t ss by (induction ss arbitrary: t) auto
  then have "x < 16384 \<and> y < 16384" if "WebmNew c (Some (x, y)) \<in> set (webm_of ss)" for c x y ss
    using that vp8_dims_bound [OF sym] by (auto simp: webm_of_def split: list.splits)
  with vp8_run_closed [of "NewRtpToWebmVP8Writer b" L ps] assms show ?thesis
    by (auto simp: NewRtpToWebmVP8Writer_def)
qed

section \<open>What the Opus muxer does with a whole track\<close>

fun opus_blocks :: "int \<Rightarrow> sample list \<Rightarrow> webm_call list" where
  "opus_blocks t [] = []"
| "opus_blocks t (s # ss) = WebmWrite True ((t + sm_Duration s) sdiv Millisecond) (sm_Data s) # opus_blocks (t + sm_Duration s) ss"

lemma opus_muxer_reference:
  "\<exists>w'. write_all (opus_Write L) ps w = Some w'
    \<and> om_calls w' = om_calls w @ opus_blocks (om_timestamp w) (samples L ps (opusBuilder w))"
proof (induction ps arbitrary: w)
  case (Cons p ps)
  obtain so b where pop: "\<And>packet. rtp_Unmarshal L p = Inr packet \<Longrightarrow> sb_Pop L (sb_Push L packet (opusBuilder w)) = (so, b)"
    by (metis prod.exhaust sum.inject(2) sum.exhaust)
  let ?w = "w\<lparr>opusBuilder := b\<rparr>"
  let ?w' = "\<lambda>s. let t = om_timestamp w + sm_Duration s in
    w\<lparr>opusBuilder := b, om_timestamp := t, om_calls := om_calls w @ [WebmWrite True (t sdiv Millisecond) (sm_Data s)]\<rparr>"
  show ?case
  proof (cases "rtp_Unmarshal L p")
    case (Inl e)
    with Cons.IH [of w] show ?thesis by (simp add: opus_Write_def)
  next
    case (Inr packet)
    with pop Cons.IH [of ?w] Cons.IH [of "?w' s" for s] show ?thesis
      by (cases so) (simp_all add: opus_Write_def Let_def)
  qed
qed simp

end
