(* ===== verification/IngestPipelines.thy ===== *)
theory IngestPipelines imports IngestMedia begin

text \<open>
  What becomes of a broadcaster's tracks
  (\<open>statefulstream/webrtcstatefulstream/webrtcstatefulstream.go\<close>): each packet of a remote track goes to the
  local track the viewers share and, through a muxer, to the media processor.  The goroutines of a
  pipeline hand packets on one after another, so a pipeline is a function of what the reads yield.
\<close>

section \<open>A stream's tracks\<close>

text \<open>The packets given to the local track, and the muxer.\<close>

record 'm track_state =
  ts_local :: "bytes list"
  ts_mux :: 'm

text \<open>The library's \<open>TrackLocalStaticRTP.Write\<close> answers \<open>lt\<close>.\<close>

definition RtpTrackMediaWriter_Write :: "(bytes \<Rightarrow> nat \<times> goerr option) \<Rightarrow> 'm track_state writer" where
  "RtpTrackMediaWriter_Write lt p ts = (Ret (lt p), ts\<lparr>ts_local := ts_local ts @ [p]\<rparr>)"

definition on_mux :: "'m writer \<Rightarrow> 'm track_state writer" where
  "on_mux writer p ts = (let (r, m) = writer p (ts_mux ts) in (r, ts\<lparr>ts_mux := m\<rparr>))"

definition track_demux ::
  "('b, 'p) rtp_lib \<Rightarrow> (bytes \<Rightarrow> nat \<times> goerr option) \<Rightarrow> 'm writer \<Rightarrow> (goerr + 'p) list \<Rightarrow> 'm track_state
    \<Rightarrow> loop_end \<times> 'm track_state" where
  "track_demux L lt muxer track ts =
     Demux (NewDemuxerBuilder [RtpTrackMediaWriter_Write lt, TargetMediaWriter_Write (on_mux (MuxerBuilder_Write muxer))])
       (map (RtpTrackDemuxerReader_Read L) track) ts"

text \<open>
  The three pipelines.  The first two hand the muxer's WebM on to the pipe the processor reads; the third's
  muxer hands packets on to a writer of H264, so its two goroutines are composed.
\<close>

definition PipeVP8RemoteTrack ::
  "('b, 'p) rtp_lib \<Rightarrow> (bytes \<Rightarrow> nat \<times> goerr option) \<Rightarrow> 'b \<Rightarrow> (goerr + 'p) list \<Rightarrow> loop_end \<times> 'b vp8_mux track_state" where
  "PipeVP8RemoteTrack L lt b track =
     track_demux L lt (vp8_Write L) track \<lparr>ts_local = [], ts_mux = NewRtpToWebmVP8Writer b\<rparr>"

definition PipeOpusRemoteTrack ::
  "('b, 'p) rtp_lib \<Rightarrow> (bytes \<Rightarrow> nat \<times> goerr option) \<Rightarrow> 'b \<Rightarrow> (goerr + 'p) list
    \<Rightarrow> (loop_end \<times> 'b opus_mux track_state) outcome" where
  "PipeOpusRemoteTrack L lt b track =
     (case NewRtpToWebmOpusWriter L b of
        Panic m \<Rightarrow> Panic m
      | Ret mux \<Rightarrow> Ret (track_demux L lt (opus_Write L) track \<lparr>ts_local = [], ts_mux = mux\<rparr>))"

text \<open>A write to a pipe is a chunk for its reader.\<close>

definition pipe_Write :: "bytes list writer" where
  "pipe_Write p chunks = (Ret (length p, None), chunks @ [p])"

definition PipeH264RemoteTrack ::
  "('b, 'p) rtp_lib \<Rightarrow> (bytes \<Rightarrow> nat \<times> goerr option) \<Rightarrow> (goerr + 'p) list \<Rightarrow> loop_end \<times> bytes list \<times> loop_end \<times> 'p list" where
  "PipeH264RemoteTrack L lt track =
     (let (demuxed, ts) = track_demux L lt (RtpToRtpMuxerWriter_Write L pipe_Write) track \<lparr>ts_local = [], ts_mux = []\<rparr>;
          (muxed, given) = Mux (NewMuxerBuilder [RtpToH264MediaWriter_Write L]) (ts_mux ts) []
      in (demuxed, ts_local ts, muxed, given))"

section \<open>wrtc/offer.go\<close>

text \<open>
  \<open>PipeRemoteTrack\<close> over what its rounds see: whether the context is done, and what the read yields.
  \<open>None\<close> is a loop that waits for the next round.
\<close>

definition PipeRemoteTrackEOF :: goerr where
  "PipeRemoteTrackEOF = Sentinel ''End of remote track''"

fun PipeRemoteTrack :: "('p \<Rightarrow> 's \<Rightarrow> goerr option \<times> 's) \<Rightarrow> (bool \<times> (goerr + 'p)) list \<Rightarrow> 's \<Rightarrow> goerr option \<times> 's" where
  "PipeRemoteTrack WriteRTP [] s = (None, s)"
| "PipeRemoteTrack WriteRTP ((done, pkt) # rounds) s =
     (if done then (Some PipeRemoteTrackEOF, s)
      else case pkt of
        Inl err \<Rightarrow> (Some err, s)
      | Inr packet \<Rightarrow>
          (case WriteRTP packet s of
             (Some err, s1) \<Rightarrow> (Some PipeRemoteTrackEOF, s1)
           | (None, s1) \<Rightarrow> PipeRemoteTrack WriteRTP rounds s1))"

section \<open>Lemmas\<close>

text \<open>The packets of a track up to its end; those the local track takes whole.\<close>

fun received :: "('b, 'p) rtp_lib \<Rightarrow> (goerr + 'p) list \<Rightarrow> bytes list" where
  "received L [] = []"
| "received L (r # rs) =
     (case RtpTrackDemuxerReader_Read L r of
        Inl err \<Rightarrow> if err = io_EOF then [] else received L rs
      | Inr p \<Rightarrow> p # received L rs)"

fun track_end :: "('b, 'p) rtp_lib \<Rightarrow> (goerr + 'p) list \<Rightarrow> loop_end" where
  "track_end L [] = Waiting"
| "track_end L (r # rs) = (if RtpTrackDemuxerReader_Read L r = Inl io_EOF then Returned else track_end L rs)"

definition taken :: "(bytes \<Rightarrow> nat \<times> goerr option) \<Rightarrow> bytes list \<Rightarrow> bytes list" where
  "taken lt ps = filter (\<lambda>p. lt p = (length p, None)) ps"

lemma demux_writes:
  "MultiWriter [RtpTrackMediaWriter_Write lt, TargetMediaWriter_Write (on_mux (MuxerBuilder_Write muxer))] p
      \<lparr>ts_local = ps, ts_mux = m\<rparr>
    = (if lt p = (length p, None) then
         (case muxer p m of
            (Panic e, m1) \<Rightarrow> (Panic e, \<lparr>ts_local = ps @ [p], ts_mux = m1\<rparr>)
          | (Ret (n, None), m1) \<Rightarrow> (Ret (if n \<noteq> length p then (n, Some ErrShortWrite) else (length p, None)),
              \<lparr>ts_local = ps @ [p], ts_mux = m1\<rparr>)
          | (Ret (n, Some err), m1) \<Rightarrow> (Ret (n, Some err), \<lparr>ts_local = ps @ [p], ts_mux = m1\<rparr>))
       else (Ret (case lt p of (n, None) \<Rightarrow> (n, Some ErrShortWrite) | (n, Some err) \<Rightarrow> (n, Some err)),
         \<lparr>ts_local = ps @ [p], ts_mux = m\<rparr>))"
  by (auto simp: RtpTrackMediaWriter_Write_def TargetMediaWriter_Write_def on_mux_def MuxerBuilder_Write_def
      split: prod.split option.split outcome.split)

text \<open>A pipeline gives every packet to the local track, and the taken ones to the muxer.\<close>

lemma track_demux_run:
  assumes "write_all muxer (taken lt (received L track)) m = Some m'"
  shows "track_demux L lt muxer track \<lparr>ts_local = ps, ts_mux = m\<rparr>
    = (track_end L track, \<lparr>ts_local = ps @ received L track, ts_mux = m'\<rparr>)"
  using assms
proof (induction track arbitrary: ps m)
  case Nil
  then show ?case by (simp add: track_demux_def taken_def)
next
  case (Cons r track)
  show ?case
  proof (cases "RtpTrackDemuxerReader_Read L r")
    case (Inl err)
    with Cons show ?thesis by (auto simp: track_demux_def taken_def)
  next
    case (Inr p)
    show ?thesis
    proof (cases "lt p = (length p, None)")
      case True
      obtain r1 m1 where mw: "muxer p m = (Ret r1, m1)" "write_all muxer (taken lt (received L track)) m1 = Some m'"
        using Cons.prems Inr True by (auto simp: taken_def split: prod.splits outcome.splits)
      with Cons.IH [OF mw(2), of "ps @ [p]"] Inr True show ?thesis
        by (cases r1) (auto simp: track_demux_def NewDemuxerBuilder_def DemuxerBuilder_Write_def demux_writes
            simp del: MultiWriter.simps split: option.split)
    next
      case False
      with Cons.IH [of m "ps @ [p]"] Cons.prems Inr show ?thesis
        by (auto simp: track_demux_def NewDemuxerBuilder_def DemuxerBuilder_Write_def demux_writes taken_def
            simp del: MultiWriter.simps)
    qed
  qed
qed

text \<open>The muxer of the third pipeline passes packets through, if the library reads back what it writes.\<close>

lemma rtp_passthrough:
  assumes "\<And>p x. rtp_Unmarshal L p = Inr x \<Longrightarrow> rtp_Marshal L x = Inr p"
  shows "write_all (RtpToRtpMuxerWriter_Write L pipe_Write) ps chunks
    = Some (chunks @ filter (\<lambda>p. \<exists>x. rtp_Unmarshal L p = Inr x) ps)"
  using assms
  by (induction ps arbitrary: chunks) (auto simp: RtpToRtpMuxerWriter_Write_def pipe_Write_def split: sum.split)

lemma h264_given:
  "(\<And>p. p \<in> set ps \<Longrightarrow> rtp_Unmarshal L p = Inr (f p)) \<Longrightarrow>
   Mux (NewMuxerBuilder [RtpToH264MediaWriter_Write L]) ps xs = (Waiting, xs @ map f ps)"
  by (induction ps arbitrary: xs) (auto simp: NewMuxerBuilder_def RtpToH264MediaWriter_Write_def split: option.split)

text \<open>So the H264 writer is given the packets the local track took, if the library reads back what it writes.\<close>

lemma h264_pipeline:
  assumes "\<And>p x. rtp_Unmarshal L p = Inr x \<longleftrightarrow> rtp_Marshal L x = Inr p"
  shows "\<exists>xs. PipeH264RemoteTrack L lt track = (track_end L track, received L track, Waiting, xs)
    \<and> map (rtp_Marshal L) xs = map Inr (taken lt (received L track))"
proof -
  let ?ps = "taken lt (received L track)"
  have "\<exists>x. rtp_Marshal L x = Inr p" if "p \<in> set (received L track)" for p
    using that by (induction track) (auto simp: RtpTrackDemuxerReader_Read_def split: sum.splits if_splits)
  then have ex: "\<exists>x. rtp_Unmarshal L p = Inr x" if "p \<in> set ?ps" for p using that assms by (auto simp: taken_def)
  then have "filter (\<lambda>p. \<exists>x. rtp_Unmarshal L p = Inr x) ?ps = ?ps" by simp
  with rtp_passthrough [of L ?ps "[]"] assms
  have run: "write_all (RtpToRtpMuxerWriter_Write L pipe_Write) ?ps [] = Some ?ps" by simp
  define f where "f p = (SOME x. rtp_Unmarshal L p = Inr x)" for p
  have f: "rtp_Unmarshal L p = Inr (f p)" if "p \<in> set ?ps" for p unfolding f_def using someI_ex [OF ex [OF that]] .
  then have "map (rtp_Marshal L) (map f ?ps) = map Inr ?ps" using assms by simp
  with track_demux_run [OF run, of "[]"] h264_given [of ?ps L f "[]"] f show ?thesis
    by (intro exI [of _ "map f ?ps"]) (simp add: PipeH264RemoteTrack_def)
qed

section \<open>Properties\<close>


definition toy_rtp :: "(bytes option, bytes) rtp_lib" where
  "toy_rtp = \<lparr>rtp_Unmarshal = (\<lambda>p. if p = [] then Inl (GoErr ''RTP header size insufficient'') else Inr p),
     rtp_Marshal = Inr, rtp_Payload = (\<lambda>p. p), sb_Push = (\<lambda>p _. Some p),
     sb_Pop = (\<lambda>b. (map_option (\<lambda>d. \<lparr>sm_Data = d, sm_Duration = 20000000\<rparr>) b, None)),
     webm_ok = True, webm_Write = (\<lambda>_ _ d. (length d, None)), h264_WriteRTP = (\<lambda>_. None)\<rparr>"

definition toy_track :: "(goerr + bytes) list" where
  "toy_track = [Inr [0x11, 7], Inl (GoErr ''RTP header size insufficient''),
     Inr [0x10, 0, 0, 0x9D, 0x01, 0x2A, 0x80, 0x02, 0xE0, 0x01], Inr [0x11, 5], Inl io_EOF, Inr [0x11, 6]]"


end
