(* ===== verification/IngestSession.thy ===== *)
theory IngestSession imports IngestMedia HttpModel begin

text \<open>
  Ingest sessions (\<open>services/ingest/internal\<close>): the WHIP handler makes a stateful stream for a broadcaster's
  peer connection, its media processor transcodes to HLS, the WHEP and HLS handlers serve viewers.  There
  is one HLS processor, which every stream shares.  The WebRTC library and the outcomes of file-system
  calls are arguments; the file system is a map from paths to contents, a set of directories and one of
  named pipes.
\<close>

section \<open>The file system\<close>

record ingest_fs =
  fs_files :: "string \<Rightarrow> string option"
  fs_dirs :: "string set"
  fs_pipes :: "string set"

text \<open>\<open>os.RemoveAll\<close> of the empty path does nothing.\<close>

definition RemoveAll :: "string \<Rightarrow> ingest_fs \<Rightarrow> ingest_fs" where
  "RemoveAll path fs =
     (if path = [] then fs
      else let below = (\<lambda>p. p = path \<or> has_prefix p (path @ ''/'')) in
        \<lparr>fs_files = (\<lambda>p. if below p then None else fs_files fs p), fs_dirs = {p \<in> fs_dirs fs. \<not> below p},
         fs_pipes = {p \<in> fs_pipes fs. \<not> below p}\<rparr>)"

section \<open>pkg/namedpipe\<close>

text \<open>A failed \<open>mkfifo\<close> removes the whole directory for temporary files.\<close>

definition NewNamedPipe :: "string \<Rightarrow> string \<Rightarrow> goerr option \<Rightarrow> ingest_fs \<Rightarrow> (goerr + string) \<times> ingest_fs" where
  "NewNamedPipe tempDir pipe_uuid mkfifo fs =
     (let pipePath = tempDir @ ''/pipe-'' @ pipe_uuid @ ''.fifo'' in
      case mkfifo of
        Some err \<Rightarrow> (Inl (errorf ''cannot create pipe. Err: '' err), RemoveAll tempDir fs)
      | None \<Rightarrow> (Inr pipePath, fs\<lparr>fs_pipes := insert pipePath (fs_pipes fs)\<rparr>))"

definition NamedPipe_Close :: "string \<Rightarrow> ingest_fs \<Rightarrow> ingest_fs" where
  "NamedPipe_Close path fs = fs\<lparr>fs_pipes := fs_pipes fs - {path}\<rparr>"

section \<open>mediaprocessor/hls\<close>

record hls_processor =
  SourceDirectory :: string
  ManifestFile :: string
  SegmentPrefixURL :: string
  audioNamedPipe :: "string option"

definition NewFFmpegHLSMediaProcessor :: hls_processor where
  "NewFFmpegHLSMediaProcessor = \<lparr>SourceDirectory = [], ManifestFile = [], SegmentPrefixURL = [], audioNamedPipe = None\<rparr>"

definition processor_Destroy :: "hls_processor \<times> ingest_fs \<Rightarrow> hls_processor \<times> ingest_fs" where
  "processor_Destroy s =
     (let (p, fs) = s; fs1 = RemoveAll (SourceDirectory p) fs
      in (p, case audioNamedPipe p of None \<Rightarrow> fs1 | Some path \<Rightarrow> NamedPipe_Close path fs1))"

text \<open>
  \<open>Transcode\<close> up to the start of ffmpeg: a failure to make the directory is only logged, a failure to
  make the pipe leaves a nil pipe, whose method panics.  Its end, when ffmpeg has exited, is the deferred
  \<open>Destroy\<close>.
\<close>

record transcode_calls =
  tc_MkdirTemp :: "goerr + string"
  tc_manifest_uuid :: string
  tc_TempDir :: string
  tc_pipe_uuid :: string
  tc_Mkfifo :: "goerr option"

definition Transcode_setup :: "transcode_calls \<Rightarrow> hls_processor \<times> ingest_fs \<Rightarrow> unit outcome \<times> hls_processor \<times> ingest_fs" where
  "Transcode_setup tc s =
     (let (p, fs) = s;
          (dir, fs1) = (case tc_MkdirTemp tc of Inl err \<Rightarrow> ([], fs) | Inr d \<Rightarrow> (d, fs\<lparr>fs_dirs := insert d (fs_dirs fs)\<rparr>));
          p1 = p\<lparr>SourceDirectory := dir, ManifestFile := dir @ ''/'' @ tc_manifest_uuid tc @ ''.m3u8'',
            SegmentPrefixURL := ''hls/''\<rparr>
      in case NewNamedPipe (tc_TempDir tc) (tc_pipe_uuid tc) (tc_Mkfifo tc) fs1 of
           (Inl err, fs2) \<Rightarrow> (nil_deref, p1\<lparr>audioNamedPipe := None\<rparr>, fs2)
         | (Inr path, fs2) \<Rightarrow> (Ret (), p1\<lparr>audioNamedPipe := Some path\<rparr>, fs2))"

definition ffmpeg_args :: "hls_processor \<Rightarrow> string list" where
  "ffmpeg_args p =
     [''-fflags'', ''nobuffer+genpts'',
      ''-threads'', ''0'',
      ''-re'',
      ''-i'', ''pipe:0'',
      ''-i'', ''pipe:3'',
      ''-loglevel'', ''info'',
      ''-c:v'', ''libx264'',
      ''-preset'', ''ultrafast'',
      ''-tune'', ''zerolatency'',
      ''-crf'', ''30'',
      ''-maxrate'', ''2000k'',
      ''-bufsize'', ''1500k'',
      ''-pix_fmt'', ''yuv420p'',
      ''-c:a'', ''libopus'',
      ''-err_detect'', ''ignore_err'',
      ''-muxdelay'', ''0'',
      ''-map_metadata'', ''0'',
      ''-copyts'',
      ''-copytb'', ''0'',
      ''-strftime'', ''1'',
      ''-f'', ''hls'',
      ''-hls_time'', ''4'',
      ''-hls_list_size'', ''8'',
      ''-hls_flags'', ''delete_segments+independent_segments'',
      ''-hls_start_number_source'', ''datetime'',
      ''-hls_allow_cache'', ''0'',
      ''-hls_base_url'', SegmentPrefixURL p,
      ''-hls_segment_filename'', ''output_%03d.ts'',
      ''-hls_segment_filename'', SourceDirectory p @ ''/'' @ ''%Y-%m-%d-%s.ts'',
      ManifestFile p]"

text \<open>
  The whole run: \<open>ffmpeg\<close> is what running the program with these arguments returns and leaves in the file
  system, be it stopped by the context or not; the deferred \<open>Destroy\<close> runs after a panic too.
\<close>

definition Transcode ::
  "transcode_calls \<Rightarrow> (string list \<Rightarrow> ingest_fs \<Rightarrow> goerr option \<times> ingest_fs) \<Rightarrow> hls_processor \<times> ingest_fs
    \<Rightarrow> goerr option outcome \<times> hls_processor \<times> ingest_fs" where
  "Transcode tc ffmpeg s =
     (case Transcode_setup tc s of
        (Panic m, s1) \<Rightarrow> (Panic m, processor_Destroy s1)
      | (Ret _, p, fs) \<Rightarrow> (let (err, fs1) = ffmpeg (ffmpeg_args p) fs in (Ret err, processor_Destroy (p, fs1))))"

text \<open>ffmpeg writes the manifest that is served, and a run leaves nothing of its directory.\<close>

lemma ffmpeg_writes_manifest: "last (ffmpeg_args p) = ManifestFile p"
  by (simp add: ffmpeg_args_def)

lemma Transcode_leaves_no_files:
  assumes "Transcode tc ffmpeg s = (r, p, fs)" and "SourceDirectory p \<noteq> []" and "has_prefix path (SourceDirectory p @ ''/'')"
  shows "fs_files fs path = None"
proof -
  have gone: "fs_files (snd (processor_Destroy (q, fs'))) path = None" if "SourceDirectory q = SourceDirectory p" for q fs'
    using that assms(2,3) by (simp add: processor_Destroy_def RemoveAll_def NamedPipe_Close_def Let_def split: option.split)
  have keep: "fst (processor_Destroy x) = fst x" for x by (simp add: processor_Destroy_def split_def Let_def)
  from assms(1) have "\<exists>q fs'. processor_Destroy (q, fs') = (p, fs)"
    by (auto simp: Transcode_def split: prod.splits outcome.splits)
  then obtain q fs' where "processor_Destroy (q, fs') = (p, fs)" by blast
  with keep [of "(q, fs')"] gone [of q fs'] show ?thesis by (metis fst_conv snd_conv)
qed

section \<open>statefulstream\<close>

text \<open>The global state: the current stream, if any, by number; the processor and the files it works on.\<close>

record ingest_global =
  ig_stream :: "nat option"
  ig_allocated :: nat
  ig_proc :: "hls_processor \<times> ingest_fs"

text \<open>Destroying a stream destroys its processors: the shared one.\<close>

definition stream_Destroy :: "ingest_global \<Rightarrow> ingest_global" where
  "stream_Destroy g = g\<lparr>ig_proc := processor_Destroy (ig_proc g)\<rparr>"

definition HandleWebrtc :: "ingest_global \<Rightarrow> nat \<times> ingest_global" where
  "HandleWebrtc g =
     (let g1 = (case ig_stream g of None \<Rightarrow> g | Some _ \<Rightarrow> (stream_Destroy g)\<lparr>ig_stream := None\<rparr>)
      in (ig_allocated g1, g1\<lparr>ig_stream := Some (ig_allocated g1), ig_allocated := ig_allocated g1 + 1\<rparr>))"

text \<open>
  The end of a session, when its context is done: its goroutine destroys the stream that is current then,
  whichever session made it.
\<close>

definition session_end :: "ingest_global \<Rightarrow> ingest_global outcome" where
  "session_end g = (case ig_stream g of None \<Rightarrow> nil_deref | Some _ \<Rightarrow> Ret (stream_Destroy g))"

datatype track_pipe = PipeOpus | PipeVP8 | PipeH264

datatype track_action = CancelSession | SetVideo "track_pipe option" | SetAudio "track_pipe option"

definition pipe_of_mime :: "string \<Rightarrow> track_pipe option" where
  "pipe_of_mime mime =
     (if mime = ''audio/opus'' \<or> mime = ''audio/OPUS'' then Some PipeOpus
      else if mime = ''video/VP8'' then Some PipeVP8
      else if mime = ''video/H264'' then Some PipeH264 else None)"

definition track_handler :: "string \<Rightarrow> goerr option \<Rightarrow> track_action" where
  "track_handler mime new_track =
     (if has_prefix mime ''video'' then
        (case new_track of Some err \<Rightarrow> CancelSession | None \<Rightarrow> SetVideo (pipe_of_mime mime))
      else if has_prefix mime ''audio'' then
        (case new_track of Some err \<Rightarrow> CancelSession | None \<Rightarrow> SetAudio (pipe_of_mime mime))
      else CancelSession)"

section \<open>wrtc/offer.go\<close>

record rtc_peer =
  rp_SetRemoteDescription :: "string \<Rightarrow> goerr option"
  rp_CreateAnswer :: "goerr + string"
  rp_SetLocalDescription :: "string \<Rightarrow> goerr option"
  rp_LocalDescription :: "string \<Rightarrow> string"

text \<open>The local description is what gathering made of the session.\<close>

definition Answer :: "rtc_peer \<Rightarrow> string \<Rightarrow> goerr + string" where
  "Answer peer offer =
     (case rp_SetRemoteDescription peer offer of
        Some err \<Rightarrow> Inl err
      | None \<Rightarrow>
          (case rp_CreateAnswer peer of
             Inl err \<Rightarrow> Inl err
           | Inr session \<Rightarrow>
               (case rp_SetLocalDescription peer session of
                  Some err \<Rightarrow> Inl err
                | None \<Rightarrow> Inr (rp_LocalDescription peer session))))"

section \<open>The handlers\<close>

definition Cors :: "string \<Rightarrow> response_writer \<Rightarrow> response_writer" where
  "Cors method w =
     header_set ''Access-Control-Allow-Methods'' method
       (header_set ''Access-Control-Allow-Headers'' ''*''
         (header_set ''Access-Control-Allow-Origin'' ''*''
           (header_set ''Cache-Control'' ''no-cache, no-store, private'' w)))"

record rtc_calls =
  rc_NewPeerConnection :: "goerr + rtc_peer"
  rc_AddVideo :: "goerr option"
  rc_AddAudio :: "goerr option"
  rc_ReadOffer :: "goerr + string"

definition whip_Handler :: "rtc_calls \<Rightarrow> string \<Rightarrow> response_writer \<Rightarrow> ingest_global \<Rightarrow> response_writer \<times> ingest_global" where
  "whip_Handler rc method w g =
     (let w = Cors ''POST'' w in
      if method = ''OPTIONS'' then (w, g)
      else case rc_NewPeerConnection rc of
        Inl err \<Rightarrow> (WriteErrorResponse w 500 [''unable create peer connection. Err:'', err_text err], g)
      | Inr peer \<Rightarrow>
          (case rc_AddVideo rc of
             Some err \<Rightarrow> (WriteErrorResponse w 500 [''unable set resiving only mode for video. Err:'', err_text err], g)
           | None \<Rightarrow>
               (case rc_AddAudio rc of
                  Some err \<Rightarrow> (WriteErrorResponse w 500 [''unable set resiving only mode for audio. Err:'', err_text err], g)
                | None \<Rightarrow>
                    (case rc_ReadOffer rc of
                       Inl err \<Rightarrow> (WriteErrorResponse w 500 [''unable read offer. Err:'', err_text err], g)
                     | Inr offer \<Rightarrow>
                         (case Answer peer offer of
                            Inl err \<Rightarrow>
                              (WriteErrorResponse w 500 [''unable handle and generate answer. Err:'', err_text err], g)
                          | Inr answer \<Rightarrow>
                              (write_chunk (Raw answer) (write_header 201 w), snd (HandleWebrtc g)))))))"

text \<open>The errors of adding the tracks are dropped.\<close>

definition whep_Whep :: "rtc_calls \<Rightarrow> string \<Rightarrow> response_writer \<Rightarrow> ingest_global \<Rightarrow> response_writer" where
  "whep_Whep rc method w g =
     (let w = Cors ''POST'' w in
      if method = ''OPTIONS'' then w
      else case rc_NewPeerConnection rc of
        Inl err \<Rightarrow> WriteErrorResponse w 500 [''unable create peer connection. Err:'', err_text err]
      | Inr peer \<Rightarrow>
          (case ig_stream g of
             None \<Rightarrow> WriteErrorResponse w 409
               [''invalid stream type start . The stream with webrtc'', ''Support only webrtc stream type'']
           | Some _ \<Rightarrow>
               (case rc_ReadOffer rc of
                  Inl err \<Rightarrow> WriteErrorResponse w 500 [''unable read offer. Err:'', err_text err]
                | Inr offer \<Rightarrow>
                    (case Answer peer offer of
                       Inl err \<Rightarrow> WriteErrorResponse w 500 [''unable handle and generate answer. Err:'', err_text err]
                     | Inr answer \<Rightarrow> write_chunk (Raw answer) (write_header 201 w)))))"

definition MediaResourceResponseStream :: "ingest_fs \<Rightarrow> string \<Rightarrow> response_writer \<Rightarrow> goerr option \<times> response_writer" where
  "MediaResourceResponseStream fs file w =
     (case fs_files fs file of
        None \<Rightarrow> (Some (GoErr (''media file not exists. Error: open '' @ file @ '': no such file or directory'')), w)
      | Some media \<Rightarrow> (None, write_chunk (Raw media) w))"

definition hls_Manifest :: "hls_processor \<times> ingest_fs \<Rightarrow> response_writer \<Rightarrow> response_writer" where
  "hls_Manifest s w =
     (let (p, fs) = s; w1 = header_set ''Content-Type'' ''application/vnd.apple.mpegurl'' (Cors ''GET'' w) in
      if ManifestFile p = [] then write_header 404 w1
      else case MediaResourceResponseStream fs (ManifestFile p) w1 of
        (Some err, w2) \<Rightarrow> write_header 500 w2
      | (None, w2) \<Rightarrow> w2)"

text \<open>\<open>vars\<close> are the variables of the route, decoded into the request.\<close>

definition hls_Segment :: "(string \<Rightarrow> string option) \<Rightarrow> hls_processor \<times> ingest_fs \<Rightarrow> response_writer \<Rightarrow> response_writer" where
  "hls_Segment vars s w =
     (let (p, fs) = s;
          w1 = header_set ''Transfer-Encoding'' ''chunked''
                 (header_set ''Content-Type'' ''application/octet-stream'' (Cors ''GET'' w));
          segment = (case vars ''segment'' of None \<Rightarrow> [] | Some v \<Rightarrow> v)
      in if segment = [] then write_header 400 w1
         else case MediaResourceResponseStream fs (SourceDirectory p @ ''/'' @ segment) w1 of
           (Some err, w2) \<Rightarrow> write_header 404 w2
         | (None, w2) \<Rightarrow> w2)"

section \<open>Properties\<close>

lemma Cors_sent [simp]: "w_sent (Cors m w) = w_sent w" "w_body (Cors m w) = w_body w"
  by (simp_all add: Cors_def header_set_def)

text \<open>A session that ends late takes the next one with it: after a broadcaster has connected anew and
  its processor has written a manifest, the manifest is served; when the context of the earlier session
  is done after that, its goroutine destroys the processor that both share, and the manifest of the live
  session is answered with 500 while viewers over WHEP are still accepted.\<close>

theorem late_session_end_breaks_hls:
  assumes "snd (HandleWebrtc g) = g1" and "tc_MkdirTemp tc = Inr dir" and "dir \<noteq> []" and "tc_Mkfifo tc = None"
    and "Transcode_setup tc (ig_proc g1) = (Ret (), p, fs)"
    and "g2 = g1\<lparr>ig_proc := (p, fs\<lparr>fs_files := (fs_files fs)(ManifestFile p \<mapsto> manifest)\<rparr>)\<rparr>"
    and "rc_NewPeerConnection rc = Inr peer" and "rc_ReadOffer rc = Inr offer" and "Answer peer offer = Inr answer"
    and "method \<noteq> ''OPTIONS''"
  shows "resp_status (hls_Manifest (ig_proc g2) new_writer) = 200
    \<and> resp_body (hls_Manifest (ig_proc g2) new_writer) = [Raw manifest]
    \<and> (\<exists>g3. session_end g2 = Ret g3 \<and> ig_stream g3 = ig_stream g2
         \<and> resp_status (hls_Manifest (ig_proc g3) new_writer) = 500
         \<and> resp_status (whep_Whep rc method new_writer g3) = 201)"
proof -
  have p: "SourceDirectory p = dir" "ManifestFile p = dir @ ''/'' @ tc_manifest_uuid tc @ ''.m3u8''"
    using assms(2,4,5) by (auto simp: Transcode_setup_def NewNamedPipe_def Let_def split: prod.splits)
  have cur: "ig_stream g2 \<noteq> None" using assms(1,6) by (auto simp: HandleWebrtc_def Let_def)
  have "has_prefix (dir @ ''/'' @ tc_manifest_uuid tc @ ''.m3u8'') (dir @ ''/'')"
    using has_prefix_append [of "dir @ ''/''" "tc_manifest_uuid tc @ ''.m3u8''"] by simp
  then have gone: "fs_files (RemoveAll dir x) (ManifestFile p) = None" for x
    using assms(3) by (simp add: RemoveAll_def p(2) Let_def)
  then have gone': "fs_files (snd (processor_Destroy (ig_proc g2))) (ManifestFile p) = None"
    by (simp add: processor_Destroy_def assms(6) p(1) NamedPipe_Close_def Let_def split: option.split)
  have ends: "session_end g2 = Ret (stream_Destroy g2)" "ig_stream (stream_Destroy g2) = ig_stream g2"
    using cur by (auto simp: session_end_def stream_Destroy_def)
  have keep: "fst (processor_Destroy (ig_proc g2)) = p" by (simp add: processor_Destroy_def assms(6) Let_def)
  have "resp_status (hls_Manifest (ig_proc (stream_Destroy g2)) new_writer) = 500"
    using gone' keep p(2) by (simp add: stream_Destroy_def hls_Manifest_def MediaResourceResponseStream_def split_def
        http_model Cors_def)
  moreover have "resp_status (whep_Whep rc method new_writer (stream_Destroy g2)) = 201"
    using cur ends(2) assms(7-10) by (auto simp: whep_Whep_def http_model Cors_def)
  moreover have "resp_status (hls_Manifest (ig_proc g2) new_writer) = 200"
    "resp_body (hls_Manifest (ig_proc g2) new_writer) = [Raw manifest]"
    using p(2) by (simp_all add: assms(6) hls_Manifest_def MediaResourceResponseStream_def http_model Cors_def)
  ultimately show ?thesis using ends by blast
qed

definition two_sessions :: ingest_global where
  "two_sessions = \<lparr>ig_stream = Some 0, ig_allocated = 1,
     ig_proc = (NewFFmpegHLSMediaProcessor, \<lparr>fs_files = Map.empty, fs_dirs = {}, fs_pipes = {}\<rparr>)\<rparr>"

definition second_transcode :: transcode_calls where
  "second_transcode = \<lparr>tc_MkdirTemp = Inr ''/tmp/a-1'', tc_manifest_uuid = ''b'', tc_TempDir = ''/tmp'', tc_pipe_uuid = ''c'', tc_Mkfifo = None\<rparr>"

definition ok_rtc :: rtc_calls where
  "ok_rtc = \<lparr>rc_NewPeerConnection = Inr \<lparr>rp_SetRemoteDescription = (\<lambda>_. None), rp_CreateAnswer = Inr ''v=0'',
       rp_SetLocalDescription = (\<lambda>_. None), rp_LocalDescription = (\<lambda>s. s)\<rparr>,
     rc_AddVideo = None, rc_AddAudio = None, rc_ReadOffer = Inr ''v=0''\<rparr>"

theorem late_session_end_breaks_hls_witness:
  "\<exists>p fs g2. Transcode_setup second_transcode (ig_proc (snd (HandleWebrtc two_sessions))) = (Ret (), p, fs)
    \<and> g2 = (snd (HandleWebrtc two_sessions))\<lparr>ig_proc := (p, fs\<lparr>fs_files := (fs_files fs)(ManifestFile p \<mapsto> ''#EXTM3U'')\<rparr>)\<rparr>
    \<and> resp_status (hls_Manifest (ig_proc g2) new_writer) = 200
    \<and> (\<exists>g3. session_end g2 = Ret g3 \<and> resp_status (hls_Manifest (ig_proc g3) new_writer) = 500)"
proof -
  obtain p fs where setup_run: "Transcode_setup second_transcode (ig_proc (snd (HandleWebrtc two_sessions))) = (Ret (), p, fs)"
    by (simp add: Transcode_setup_def NewNamedPipe_def second_transcode_def split_def Let_def)
  have tc: "tc_MkdirTemp second_transcode = Inr ''/tmp/a-1''" "''/tmp/a-1'' \<noteq> []" "tc_Mkfifo second_transcode = None"
    by (simp_all add: second_transcode_def)
  obtain peer answer where rtc: "rc_NewPeerConnection ok_rtc = Inr peer" "rc_ReadOffer ok_rtc = Inr ''v=0''" "Answer peer ''v=0'' = Inr answer"
    by (simp add: ok_rtc_def Answer_def)
  from late_session_end_breaks_hls [OF refl tc setup_run refl rtc, of "''POST''" "''#EXTM3U''"] setup_run
  show ?thesis by auto
qed

end
