(* ===== verification/IngestRuns.thy ===== *)
theory IngestRuns imports IngestSession begin

text \<open>
  The ingest server over its whole life: broadcasters connect and disconnect, the goroutine of a session
  runs the shared processor, ffmpeg writes files and exits.  Each of these is an event, and events of
  different sessions come in any order.  What the goroutines do between two events is not observable.
\<close>

section \<open>Sessions\<close>

text \<open>
  A session is the goroutine that \<open>HandleWebrtc\<close> starts: whether its context is done; the directory and
  manifest of its run of the processor, once it has entered \<open>Ingest\<close>; whether ffmpeg's process exists and
  whether it has exited; whether the goroutine has destroyed the stream and ended.  \<open>is_files\<close> is what
  its ffmpeg has written, by name.
\<close>

record ingest_session =
  is_ctx_done :: bool
  is_out :: "(string \<times> string) option"
  is_spawned :: bool
  is_exited :: bool
  is_ended :: bool
  is_files :: "string \<Rightarrow> string option"

record ingest_server =
  sv_global :: ingest_global
  sv_sessions :: "ingest_session list"

definition new_session :: ingest_session where
  "new_session = \<lparr>is_ctx_done = False, is_out = None, is_spawned = False, is_exited = False, is_ended = False,
     is_files = Map.empty\<rparr>"

definition new_server :: ingest_server where
  "new_server = \<lparr>sv_global = \<lparr>ig_stream = None, ig_allocated = 0,
       ig_proc = (NewFFmpegHLSMediaProcessor, \<lparr>fs_files = Map.empty, fs_dirs = {}, fs_pipes = {}\<rparr>)\<rparr>,
     sv_sessions = []\<rparr>"

definition set_session :: "nat \<Rightarrow> ingest_session \<Rightarrow> ingest_server \<Rightarrow> ingest_server" where
  "set_session k x sv = sv\<lparr>sv_sessions := (sv_sessions sv)[k := x]\<rparr>"

section \<open>Events\<close>

datatype ingest_event =
    Connect
  | Begin nat transcode_calls
  | Spawn nat
  | WriteMedia nat string string
  | Kill nat
  | FfmpegExit nat
  | Disconnect nat
  | EndSession nat

text \<open>\<open>HandleWebrtc\<close> replaces the stream; the session before it goes on.\<close>

definition connect :: "ingest_server \<Rightarrow> ingest_server" where
  "connect sv = \<lparr>sv_global = snd (HandleWebrtc (sv_global sv)), sv_sessions = sv_sessions sv @ [new_session]\<rparr>"

text \<open>The goroutine enters \<open>Ingest\<close>, which starts \<open>Transcode\<close>: the processor is pointed to a new directory.\<close>

definition begin_transcode :: "nat \<Rightarrow> transcode_calls \<Rightarrow> ingest_server \<Rightarrow> ingest_server outcome" where
  "begin_transcode k tc sv =
     (let g = sv_global sv in
      case Transcode_setup tc (ig_proc g) of
        (Panic m, _) \<Rightarrow> Panic m
      | (Ret _, p, fs) \<Rightarrow> Ret (set_session k ((sv_sessions sv ! k)\<lparr>is_out := Some (SourceDirectory p, ManifestFile p)\<rparr>)
          (sv\<lparr>sv_global := g\<lparr>ig_proc := (p, fs)\<rparr>\<rparr>)))"

text \<open>ffmpeg writes below the directory of its arguments, while that exists.\<close>

definition write_media :: "nat \<Rightarrow> string \<Rightarrow> string \<Rightarrow> ingest_server \<Rightarrow> ingest_server" where
  "write_media k file content sv =
     (let g = sv_global sv; (p, fs) = ig_proc g; x = sv_sessions sv ! k in
      case is_out x of
        None \<Rightarrow> sv
      | Some (dir, manifest) \<Rightarrow>
          if dir \<notin> fs_dirs fs then sv
          else set_session k (x\<lparr>is_files := (is_files x)(file \<mapsto> content)\<rparr>)
            (sv\<lparr>sv_global := g\<lparr>ig_proc := (p, fs\<lparr>fs_files := (fs_files fs)(dir @ ''/'' @ file \<mapsto> content)\<rparr>)\<rparr>\<rparr>))"

text \<open>
  The goroutine that waits for the context kills ffmpeg's process; before \<open>Run\<close> has started it there is
  none, and the method of the nil pointer panics.
\<close>

definition kill_ffmpeg :: "nat \<Rightarrow> ingest_server \<Rightarrow> ingest_server outcome" where
  "kill_ffmpeg k sv = (if is_spawned (sv_sessions sv ! k) then Ret sv else nil_deref)"

text \<open>When ffmpeg has exited, \<open>Transcode\<close> returns and its deferred \<open>Destroy\<close> runs, on the processor as it is now.\<close>

definition ffmpeg_exit :: "nat \<Rightarrow> ingest_server \<Rightarrow> ingest_server" where
  "ffmpeg_exit k sv = set_session k ((sv_sessions sv ! k)\<lparr>is_exited := True\<rparr>)
     (sv\<lparr>sv_global := (sv_global sv)\<lparr>ig_proc := processor_Destroy (ig_proc (sv_global sv))\<rparr>\<rparr>)"

text \<open>The end of the goroutine, after \<open>Ingest\<close> has returned and the context is done.\<close>

definition end_session :: "nat \<Rightarrow> ingest_server \<Rightarrow> ingest_server outcome" where
  "end_session k sv =
     (case session_end (sv_global sv) of
        Panic m \<Rightarrow> Panic m
      | Ret g \<Rightarrow> Ret (set_session k ((sv_sessions sv ! k)\<lparr>is_ended := True\<rparr>) (sv\<lparr>sv_global := g\<rparr>)))"

text \<open>When an event can happen, and what it does; a panic ends the server.\<close>

fun can_happen :: "ingest_event \<Rightarrow> ingest_server \<Rightarrow> bool" where
  "can_happen Connect sv = True"
| "can_happen (Begin k tc) sv = (k < length (sv_sessions sv) \<and> is_out (sv_sessions sv ! k) = None)"
| "can_happen (Spawn k) sv = (k < length (sv_sessions sv) \<and> is_out (sv_sessions sv ! k) \<noteq> None \<and> \<not> is_spawned (sv_sessions sv ! k))"
| "can_happen (WriteMedia k file content) sv =
     (k < length (sv_sessions sv) \<and> is_spawned (sv_sessions sv ! k) \<and> \<not> is_exited (sv_sessions sv ! k))"
| "can_happen (Kill k) sv =
     (k < length (sv_sessions sv) \<and> is_ctx_done (sv_sessions sv ! k) \<and> is_out (sv_sessions sv ! k) \<noteq> None
        \<and> \<not> is_exited (sv_sessions sv ! k))"
| "can_happen (FfmpegExit k) sv =
     (k < length (sv_sessions sv) \<and> is_spawned (sv_sessions sv ! k) \<and> \<not> is_exited (sv_sessions sv ! k))"
| "can_happen (Disconnect k) sv = (k < length (sv_sessions sv))"
| "can_happen (EndSession k) sv =
     (k < length (sv_sessions sv) \<and> is_ctx_done (sv_sessions sv ! k) \<and> \<not> is_ended (sv_sessions sv ! k))"

fun happen :: "ingest_event \<Rightarrow> ingest_server \<Rightarrow> ingest_server outcome" where
  "happen Connect sv = Ret (connect sv)"
| "happen (Begin k tc) sv = begin_transcode k tc sv"
| "happen (Spawn k) sv = Ret (set_session k ((sv_sessions sv ! k)\<lparr>is_spawned := True\<rparr>) sv)"
| "happen (WriteMedia k file content) sv = Ret (write_media k file content sv)"
| "happen (Kill k) sv = kill_ffmpeg k sv"
| "happen (FfmpegExit k) sv = Ret (ffmpeg_exit k sv)"
| "happen (Disconnect k) sv = Ret (set_session k ((sv_sessions sv ! k)\<lparr>is_ctx_done := True\<rparr>) sv)"
| "happen (EndSession k) sv = end_session k sv"

inductive ingest_reach :: "(ingest_event \<Rightarrow> ingest_server \<Rightarrow> bool) \<Rightarrow> ingest_server \<Rightarrow> ingest_server \<Rightarrow> bool" for may sv0 where
  ingest_start: "ingest_reach may sv0 sv0"
| ingest_step: "ingest_reach may sv0 sv \<Longrightarrow> may e sv \<Longrightarrow> can_happen e sv \<Longrightarrow> happen e sv = Ret sv' \<Longrightarrow> ingest_reach may sv0 sv'"

inductive_cases ingest_stepE: "ingest_reach may sv0 sv"

section \<open>Sessions one after another\<close>

text \<open>
  The operating system gives a fresh directory and makes the pipe; a broadcaster connects when the session
  before has come to its end.
\<close>

definition session_over :: "ingest_session \<Rightarrow> bool" where
  "session_over x \<longleftrightarrow> is_ended x \<and> is_exited x"

definition calls_ok :: "transcode_calls \<Rightarrow> ingest_fs \<Rightarrow> bool" where
  "calls_ok tc fs \<longleftrightarrow> (\<exists>dir. tc_MkdirTemp tc = Inr dir \<and> dir \<noteq> [] \<and> dir \<notin> fs_dirs fs) \<and> tc_Mkfifo tc = None"

fun one_by_one :: "ingest_event \<Rightarrow> ingest_server \<Rightarrow> bool" where
  "one_by_one Connect sv = list_all session_over (sv_sessions sv)"
| "one_by_one (Begin k tc) sv = calls_ok tc (snd (ig_proc (sv_global sv)))"
| "one_by_one _ sv = True"

text \<open>
  The session that is not over, if any, is the last; while its run goes on the processor points to its
  directory, whose files are those it wrote; otherwise there are no files.
\<close>

definition files_of :: "string \<Rightarrow> (string \<Rightarrow> string option) \<Rightarrow> string \<Rightarrow> string option" where
  "files_of dir written = (\<lambda>p. if has_prefix p (dir @ ''/'') then written (drop (length dir + 1) p) else None)"

definition session_wf :: "ingest_session \<Rightarrow> bool" where
  "session_wf x \<longleftrightarrow> (is_spawned x \<longrightarrow> is_out x \<noteq> None) \<and> (is_exited x \<longrightarrow> is_spawned x)
   \<and> (is_out x = None \<longrightarrow> is_files x = Map.empty)"

definition live_run :: "ingest_session \<Rightarrow> bool" where
  "live_run x \<longleftrightarrow> is_out x \<noteq> None \<and> \<not> is_exited x \<and> \<not> is_ended x"

definition session_inv :: "hls_processor \<times> ingest_fs \<Rightarrow> ingest_session \<Rightarrow> bool" where
  "session_inv s x \<longleftrightarrow> (case s of (p, fs) \<Rightarrow> (case is_out x of
     None \<Rightarrow> fs_files fs = Map.empty
   | Some out \<Rightarrow> out = (SourceDirectory p, ManifestFile p) \<and> SourceDirectory p \<noteq> []
       \<and> (\<exists>m. ManifestFile p = SourceDirectory p @ ''/'' @ m)
       \<and> (is_exited x \<longrightarrow> SourceDirectory p \<notin> fs_dirs fs) \<and> (live_run x \<longrightarrow> SourceDirectory p \<in> fs_dirs fs)
       \<and> fs_files fs = (if SourceDirectory p \<in> fs_dirs fs then files_of (SourceDirectory p) (is_files x) else Map.empty)))"

definition server_inv :: "ingest_server \<Rightarrow> bool" where
  "server_inv sv \<longleftrightarrow>
     (sv_sessions sv = [] \<and> fs_files (snd (ig_proc (sv_global sv))) = Map.empty)
   \<or> (\<exists>xs x. sv_sessions sv = xs @ [x] \<and> list_all session_over xs \<and> list_all session_wf (xs @ [x])
       \<and> session_inv (ig_proc (sv_global sv)) x)"

lemma server_invI:
  "sv_sessions sv = xs @ [x] \<Longrightarrow> list_all session_over xs \<Longrightarrow> list_all session_wf (xs @ [x])
    \<Longrightarrow> session_inv (ig_proc (sv_global sv)) x \<Longrightarrow> server_inv sv"
  by (auto simp: server_inv_def)

lemma files_of_simps [simp]:
  "files_of dir w (dir @ ''/'' @ f) = w f" "files_of dir w (dir @ CHR ''/'' # f) = w f" "files_of dir Map.empty = Map.empty"
proof -
  have "has_prefix (dir @ ''/'' @ f) (dir @ ''/'')" using has_prefix_append [of "dir @ ''/''" f] by simp
  then show "files_of dir w (dir @ ''/'' @ f) = w f" "files_of dir w (dir @ CHR ''/'' # f) = w f" by (simp_all add: files_of_def)
  show "files_of dir Map.empty = Map.empty" by (auto simp: files_of_def)
qed

lemma files_of_upd: "files_of dir (w(f \<mapsto> c)) = (files_of dir w)(dir @ ''/'' @ f \<mapsto> c)"
  by (auto simp: files_of_def fun_eq_iff has_prefix_iff)

text \<open>Destroying the processor empties its directory and leaves what it points to.\<close>

lemma destroy_facts:
  "fst (processor_Destroy (p, fs)) = p"
  "SourceDirectory p \<noteq> [] \<Longrightarrow> SourceDirectory p \<notin> fs_dirs (snd (processor_Destroy (p, fs)))"
  "fs_files fs = Map.empty \<Longrightarrow> fs_files (snd (processor_Destroy (p, fs))) = Map.empty"
  "SourceDirectory p \<noteq> [] \<Longrightarrow> fs_files fs = files_of (SourceDirectory p) w \<Longrightarrow> fs_files (snd (processor_Destroy (p, fs))) = Map.empty"
  by (auto simp: processor_Destroy_def RemoveAll_def NamedPipe_Close_def files_of_def Let_def fun_eq_iff split: option.split)

lemma destroy_inv:
  assumes "session_inv (p, fs) x" and "is_out y = is_out x" and "is_exited y \<or> is_ended y"
  shows "session_inv (processor_Destroy (p, fs)) y"
proof (cases "is_out x")
  case None
  with assms(1,2) destroy_facts(3) [of fs p] show ?thesis by (auto simp: session_inv_def split: prod.split)
next
  case x: (Some out)
  obtain q fs1 where d: "processor_Destroy (p, fs) = (q, fs1)" by (rule prod.exhaust)
  have q: "q = p" using destroy_facts(1) [of p fs] d by simp
  from assms(1) x have src: "SourceDirectory p \<noteq> []" "fs_files fs = Map.empty \<or> (\<exists>w. fs_files fs = files_of (SourceDirectory p) w)"
    and p: "out = (SourceDirectory p, ManifestFile p)" "\<exists>m. ManifestFile p = SourceDirectory p @ ''/'' @ m"
    by (auto simp: session_inv_def split: if_splits)
  have "fs_files fs1 = Map.empty" using destroy_facts(3) [of fs p] destroy_facts(4) [of p fs] src d by auto
  moreover have "SourceDirectory p \<notin> fs_dirs fs1" using destroy_facts(2) [of p fs] src(1) d by simp
  ultimately show ?thesis using assms(2,3) x p src(1) by (auto simp: session_inv_def live_run_def d q)
qed

lemma session_at [simp]: "sv_sessions sv = xs @ [x] \<Longrightarrow> sv_sessions (set_session (length xs) y sv) = xs @ [y]"
  "sv_global (set_session k y sv) = sv_global sv"
  by (simp_all add: set_session_def)

lemma connect_inv:
  assumes "server_inv sv" and "list_all session_over (sv_sessions sv)"
  shows "server_inv (connect sv)"
proof -
  obtain p fs where g: "ig_proc (sv_global sv) = (p, fs)" by (rule prod.exhaust)
  have "fs_files fs = Map.empty"
    using assms g by (auto simp: server_inv_def session_inv_def session_over_def session_wf_def split: option.splits)
  then have "fs_files (snd (ig_proc (snd (HandleWebrtc (sv_global sv))))) = Map.empty"
    using destroy_facts(3) [of fs p] g by (simp add: HandleWebrtc_def stream_Destroy_def Let_def split: option.split)
  then have "session_inv (ig_proc (sv_global (connect sv))) new_session"
    by (auto simp: session_inv_def connect_def new_session_def split: prod.split)
  moreover have "list_all session_wf (sv_sessions sv)" using assms(1) by (auto simp: server_inv_def)
  ultimately show ?thesis using assms(2)
    by (intro server_invI [where xs = "sv_sessions sv" and x = new_session]) (simp_all add: connect_def session_wf_def new_session_def)
qed

lemma begin_inv:
  assumes sv: "sv_sessions sv = xs @ [x]" "list_all session_over xs" "list_all session_wf (xs @ [x])" "session_inv (ig_proc (sv_global sv)) x"
    and ok: "calls_ok tc (snd (ig_proc (sv_global sv)))" and out: "is_out x = None" and step: "begin_transcode (length xs) tc sv = Ret sv'"
  shows "server_inv sv'"
proof -
  obtain p fs where g: "ig_proc (sv_global sv) = (p, fs)" by (rule prod.exhaust)
  from ok g obtain dir where tc: "tc_MkdirTemp tc = Inr dir" "dir \<noteq> []" "dir \<notin> fs_dirs fs" "tc_Mkfifo tc = None"
    by (auto simp: calls_ok_def)
  have empty: "fs_files fs = Map.empty" using sv(4) out g by (simp add: session_inv_def)
  obtain p1 fs1 where run: "Transcode_setup tc (p, fs) = (Ret (), p1, fs1)" and p1: "SourceDirectory p1 = dir"
    "ManifestFile p1 = dir @ ''/'' @ tc_manifest_uuid tc @ ''.m3u8''" "dir \<in> fs_dirs fs1" "fs_files fs1 = Map.empty"
    using tc empty by (simp add: Transcode_setup_def NewNamedPipe_def Let_def)
  let ?y = "x\<lparr>is_out := Some (dir, ManifestFile p1)\<rparr>"
  have x: "\<not> is_spawned x" "\<not> is_exited x" using sv(3) out by (auto simp: session_wf_def)
  have sv': "sv' = set_session (length xs) ?y (sv\<lparr>sv_global := (sv_global sv)\<lparr>ig_proc := (p1, fs1)\<rparr>\<rparr>)"
    using step by (simp add: begin_transcode_def g run p1 sv(1))
  have "is_files x = Map.empty" using sv(3) out by (simp add: session_wf_def)
  then have "session_inv (ig_proc (sv_global sv')) ?y" using x p1 tc(2) by (simp add: sv' session_inv_def live_run_def)
  then show ?thesis using sv x
    by (intro server_invI [where xs = xs and x = ?y]) (simp_all add: sv' session_wf_def)
qed

lemma write_inv:
  assumes sv: "sv_sessions sv = xs @ [x]" "list_all session_over xs" "list_all session_wf (xs @ [x])" "session_inv (ig_proc (sv_global sv)) x"
    and run: "is_spawned x" "\<not> is_exited x"
  shows "server_inv (write_media (length xs) file content sv)"
proof -
  obtain p fs where g: "ig_proc (sv_global sv) = (p, fs)" by (rule prod.exhaust)
  from sv(3) run obtain out where "is_out x = Some out" by (auto simp: session_wf_def)
  with sv(4) g have out: "is_out x = Some (SourceDirectory p, ManifestFile p)" by (auto simp: session_inv_def)
  have same: ?thesis if "write_media (length xs) file content sv = sv" unfolding that by (rule server_invI [OF sv])
  show ?thesis
  proof (cases "SourceDirectory p \<in> fs_dirs fs")
    case False
    then have "write_media (length xs) file content sv = sv" by (simp add: write_media_def g sv(1) out)
    then show ?thesis by (rule same)
  next
    case True
    let ?y = "x\<lparr>is_files := (is_files x)(file \<mapsto> content)\<rparr>"
    let ?fs = "fs\<lparr>fs_files := (fs_files fs)(SourceDirectory p @ ''/'' @ file \<mapsto> content)\<rparr>"
    have w: "write_media (length xs) file content sv
      = set_session (length xs) ?y (sv\<lparr>sv_global := (sv_global sv)\<lparr>ig_proc := (p, ?fs)\<rparr>\<rparr>)"
      using True by (simp add: write_media_def g sv(1) out)
    have "session_inv (p, ?fs) ?y"
      using sv(4) True out by (auto simp: session_inv_def live_run_def g files_of_upd)
    then show ?thesis unfolding w using sv(1-3) out
      by (intro server_invI [where xs = xs and x = ?y]) (simp_all add: session_wf_def)
  qed
qed

lemma exit_inv:
  assumes sv: "sv_sessions sv = xs @ [x]" "list_all session_over xs" "list_all session_wf (xs @ [x])" "session_inv (ig_proc (sv_global sv)) x"
    and run: "is_spawned x"
  shows "server_inv (ffmpeg_exit (length xs) sv)"
proof -
  obtain p fs where g: "ig_proc (sv_global sv) = (p, fs)" by (rule prod.exhaust)
  have out: "is_out x \<noteq> None" using sv(3) run by (simp add: session_wf_def)
  have "session_inv (processor_Destroy (p, fs)) (x\<lparr>is_exited := True\<rparr>)"
    by (rule destroy_inv [OF sv(4) [unfolded g]]) simp_all
  then show ?thesis using sv(1-3) run out
    by (intro server_invI [where xs = xs and x = "x\<lparr>is_exited := True\<rparr>"]) (auto simp: ffmpeg_exit_def session_wf_def g)
qed

lemma end_inv:
  assumes sv: "sv_sessions sv = xs @ [x]" "list_all session_over xs" "list_all session_wf (xs @ [x])" "session_inv (ig_proc (sv_global sv)) x"
    and step: "end_session (length xs) sv = Ret sv'"
  shows "server_inv sv'"
proof -
  obtain p fs where g: "ig_proc (sv_global sv) = (p, fs)" by (rule prod.exhaust)
  have sv': "sv' = set_session (length xs) (x\<lparr>is_ended := True\<rparr>) (sv\<lparr>sv_global := stream_Destroy (sv_global sv)\<rparr>)"
    using step sv(1) by (auto simp: end_session_def session_end_def split: option.splits)
  have "session_inv (processor_Destroy (p, fs)) (x\<lparr>is_ended := True\<rparr>)"
    by (rule destroy_inv [OF sv(4) [unfolded g]]) simp_all
  then show ?thesis using sv(1-3)
    by (intro server_invI [where xs = xs and x = "x\<lparr>is_ended := True\<rparr>"]) (auto simp: sv' session_wf_def stream_Destroy_def g)
qed

text \<open>A session that is over can only be disconnected once more.\<close>

lemma disconnect_inv:
  assumes "server_inv sv" and "k < length (sv_sessions sv)"
  shows "server_inv (set_session k ((sv_sessions sv ! k)\<lparr>is_ctx_done := True\<rparr>) sv)"
proof -
  from assms obtain xs x where sv: "sv_sessions sv = xs @ [x]" "list_all session_over xs" "list_all session_wf (xs @ [x])"
    "session_inv (ig_proc (sv_global sv)) x" by (auto simp: server_inv_def)
  have "session_inv s (y\<lparr>is_ctx_done := True\<rparr>) = session_inv s y" for s y
    by (cases s; cases "is_out y") (simp_all add: session_inv_def live_run_def)
  moreover have "session_wf (y\<lparr>is_ctx_done := True\<rparr>) = session_wf y"
    "session_over (y\<lparr>is_ctx_done := True\<rparr>) = session_over y" for y
    by (simp_all add: session_wf_def session_over_def)
  ultimately have keep: "session_inv s (y\<lparr>is_ctx_done := True\<rparr>) = session_inv s y" "session_wf (y\<lparr>is_ctx_done := True\<rparr>) = session_wf y"
    "session_over (y\<lparr>is_ctx_done := True\<rparr>) = session_over y" for s y by blast+
  show ?thesis
  proof (cases "k = length xs")
    case True
    with sv keep show ?thesis
      by (intro server_invI [where xs = xs and x = "x\<lparr>is_ctx_done := True\<rparr>"]) simp_all
  next
    case False
    with assms(2) sv(1) have k: "k < length xs" by simp
    let ?y = "(xs ! k)\<lparr>is_ctx_done := True\<rparr>"
    have "list_all P (xs[k := ?y])" if "list_all P xs" "P ?y = P (xs ! k)" for P
      using that k by (auto simp: list_all_length nth_list_update)
    with sv keep k show ?thesis
      by (intro server_invI [where xs = "xs[k := ?y]" and x = x])
        (simp_all add: set_session_def list_update_append nth_append)
  qed
qed

lemma happen_inv:
  assumes inv: "server_inv sv" and may: "one_by_one e sv" and can: "can_happen e sv" and step: "happen e sv = Ret sv'"
  shows "server_inv sv'"
proof (cases "sv_sessions sv = []")
  case True
  with can have "e = Connect" by (cases e) auto
  with connect_inv [OF inv] may step show ?thesis by auto
next
  case False
  with inv obtain xs x where sv: "sv_sessions sv = xs @ [x]" "list_all session_over xs" "list_all session_wf (xs @ [x])"
    "session_inv (ig_proc (sv_global sv)) x" by (auto simp: server_inv_def)
  have old: "is_out (xs ! k) \<noteq> None \<and> is_spawned (xs ! k) \<and> is_exited (xs ! k) \<and> is_ended (xs ! k)" if "k < length xs" for k
    using sv(2,3) nth_mem [OF that] by (auto simp: list_all_iff session_over_def session_wf_def)
  have last: "k = length xs" if "k < length (sv_sessions sv)" "\<not> k < length xs" for k using that sv(1) by simp
  show ?thesis
  proof (cases e)
    case Connect
    with connect_inv [OF inv] may step show ?thesis by auto
  next
    case (Begin k tc)
    then have "k = length xs" using can old [of k] last [of k] sv(1) by (cases "k < length xs") (auto simp: nth_append)
    with begin_inv [OF sv, of tc sv'] Begin may can step sv(1) show ?thesis by simp
  next
    case (Spawn k)
    then have k: "k = length xs" using can old [of k] last [of k] sv(1) by (cases "k < length xs") (auto simp: nth_append)
    have "session_inv s (x\<lparr>is_spawned := True\<rparr>) = session_inv s x" for s
      by (cases s; cases "is_out x") (simp_all add: session_inv_def live_run_def)
    with sv have "session_inv (ig_proc (sv_global sv)) (x\<lparr>is_spawned := True\<rparr>)" by simp
    moreover have "sv' = set_session k (x\<lparr>is_spawned := True\<rparr>) sv" "session_wf (x\<lparr>is_spawned := True\<rparr>)"
      using Spawn k can step sv by (simp_all add: session_wf_def)
    ultimately show ?thesis using sv k
      by (intro server_invI [where xs = xs and x = "x\<lparr>is_spawned := True\<rparr>"]) simp_all
  next
    case (WriteMedia k f content)
    then have "k = length xs" using can old [of k] last [of k] sv(1) by (cases "k < length xs") (auto simp: nth_append)
    with write_inv [OF sv, of f content] WriteMedia can step sv(1) show ?thesis by auto
  next
    case (Kill k)
    with step inv show ?thesis by (auto simp: kill_ffmpeg_def split: if_splits)
  next
    case (FfmpegExit k)
    then have "k = length xs" using can old [of k] last [of k] sv(1) by (cases "k < length xs") (auto simp: nth_append)
    with exit_inv [OF sv] FfmpegExit can step sv(1) show ?thesis by auto
  next
    case (Disconnect k)
    with disconnect_inv [OF inv, of k] can step show ?thesis by auto
  next
    case (EndSession k)
    then have "k = length xs" using can old [of k] last [of k] sv(1) by (cases "k < length xs") (auto simp: nth_append)
    with end_inv [OF sv, of sv'] EndSession can step sv(1) show ?thesis by auto
  qed
qed

lemma one_by_one_inv: "ingest_reach one_by_one new_server sv \<Longrightarrow> server_inv sv"
proof (induction rule: ingest_reach.induct)
  case ingest_start
  show ?case by (simp add: server_inv_def new_server_def)
next
  case (ingest_step sv e sv')
  show ?case by (rule happen_inv [OF ingest_step.IH ingest_step.hyps(2-4)])
qed

section \<open>Properties\<close>

lemma manifest_answer:
  assumes "ManifestFile p \<noteq> []"
  shows "resp_status (hls_Manifest (p, fs) new_writer) = (case fs_files fs (ManifestFile p) of None \<Rightarrow> 500 | Some c \<Rightarrow> 200)"
    "fs_files fs (ManifestFile p) = Some c \<Longrightarrow> resp_body (hls_Manifest (p, fs) new_writer) = [Raw c]"
  using assms by (simp_all add: hls_Manifest_def MediaResourceResponseStream_def http_model Cors_def split: option.split)

lemma segment_answer:
  assumes "name \<noteq> []"
  shows "resp_status (hls_Segment [''segment'' \<mapsto> name] (p, fs) new_writer)
      = (case fs_files fs (SourceDirectory p @ ''/'' @ name) of None \<Rightarrow> 404 | Some c \<Rightarrow> 200)"
    "fs_files fs (SourceDirectory p @ ''/'' @ name) = Some c
      \<Longrightarrow> resp_body (hls_Segment [''segment'' \<mapsto> name] (p, fs) new_writer) = [Raw c]"
  using assms by (simp_all add: hls_Segment_def MediaResourceResponseStream_def http_model Cors_def split: option.split)

text \<open>What a viewer gets while a session runs.\<close>

definition serves :: "ingest_server \<Rightarrow> ingest_session \<Rightarrow> bool" where
  "serves sv x \<longleftrightarrow> (\<exists>dir m. is_out x = Some (dir, dir @ ''/'' @ m)
     \<and> (case is_files x m of
          None \<Rightarrow> resp_status (hls_Manifest (ig_proc (sv_global sv)) new_writer) = 500
        | Some c \<Rightarrow> resp_status (hls_Manifest (ig_proc (sv_global sv)) new_writer) = 200
            \<and> resp_body (hls_Manifest (ig_proc (sv_global sv)) new_writer) = [Raw c])
     \<and> (\<forall>name. name \<noteq> [] \<longrightarrow> (case is_files x name of
          None \<Rightarrow> resp_status (hls_Segment [''segment'' \<mapsto> name] (ig_proc (sv_global sv)) new_writer) = 404
        | Some c \<Rightarrow> resp_status (hls_Segment [''segment'' \<mapsto> name] (ig_proc (sv_global sv)) new_writer) = 200
            \<and> resp_body (hls_Segment [''segment'' \<mapsto> name] (ig_proc (sv_global sv)) new_writer) = [Raw c])))"

lemma live_serves:
  assumes "session_inv (ig_proc (sv_global sv)) x" and "live_run x"
  shows "serves sv x"
proof -
  obtain p fs where g: "ig_proc (sv_global sv) = (p, fs)" by (rule prod.exhaust)
  from assms obtain m where p: "is_out x = Some (SourceDirectory p, ManifestFile p)" "SourceDirectory p \<noteq> []"
    "ManifestFile p = SourceDirectory p @ ''/'' @ m" "fs_files fs = files_of (SourceDirectory p) (is_files x)"
    by (auto simp: session_inv_def live_run_def g)
  have man: "fs_files fs (ManifestFile p) = is_files x m" and seg: "fs_files fs (SourceDirectory p @ ''/'' @ name) = is_files x name" for name
    by (simp_all add: p(3,4))
  have ne: "ManifestFile p \<noteq> []" by (simp add: p(3))
  have manifest: "case is_files x m of
          None \<Rightarrow> resp_status (hls_Manifest (p, fs) new_writer) = 500
        | Some c \<Rightarrow> resp_status (hls_Manifest (p, fs) new_writer) = 200 \<and> resp_body (hls_Manifest (p, fs) new_writer) = [Raw c]"
    using manifest_answer [OF ne, where fs = fs] man by (cases "is_files x m") simp_all
  have segments: "case is_files x name of
          None \<Rightarrow> resp_status (hls_Segment [''segment'' \<mapsto> name] (p, fs) new_writer) = 404
        | Some c \<Rightarrow> resp_status (hls_Segment [''segment'' \<mapsto> name] (p, fs) new_writer) = 200
            \<and> resp_body (hls_Segment [''segment'' \<mapsto> name] (p, fs) new_writer) = [Raw c]" if "name \<noteq> []" for name
  proof (cases "is_files x name")
    case None
    with segment_answer(1) [OF that, where fs = fs and p = p] seg [of name] show ?thesis by (simp only: option.case)
  next
    case (Some c)
    then have found: "fs_files fs (SourceDirectory p @ ''/'' @ name) = Some c" using seg by simp
    from segment_answer(1) [OF that, where fs = fs and p = p] segment_answer(2) [OF that found] Some found show ?thesis
      by (simp only: option.case)
  qed
  have "is_out x = Some (SourceDirectory p, SourceDirectory p @ ''/'' @ m)" by (simp only: p(1,3))
  then show ?thesis unfolding serves_def g
    by (intro exI [of _ "SourceDirectory p"] exI [of _ m] conjI manifest allI impI segments)
qed

lemma over_no_files:
  assumes "server_inv sv" and "list_all session_over (sv_sessions sv)"
  shows "fs_files (snd (ig_proc (sv_global sv))) = Map.empty"
  using assms by (auto simp: server_inv_def session_inv_def session_over_def session_wf_def split: option.splits)


text \<open>The events, as far as each can happen and none panics.\<close>

abbreviation any_event :: "ingest_event \<Rightarrow> ingest_server \<Rightarrow> bool" where
  "any_event \<equiv> \<lambda>_ _. True"

fun happen_all :: "(ingest_event \<Rightarrow> ingest_server \<Rightarrow> bool) \<Rightarrow> ingest_event list \<Rightarrow> ingest_server \<Rightarrow> ingest_server outcome option" where
  "happen_all may [] sv = Some (Ret sv)"
| "happen_all may (e # es) sv =
     (if may e sv \<and> can_happen e sv then (case happen e sv of Ret sv1 \<Rightarrow> happen_all may es sv1 | Panic m \<Rightarrow> Some (Panic m)) else None)"

lemma connected:
  "length (sv_sessions (connect sv)) = length (sv_sessions sv) + 1" "sv_sessions (connect sv) ! length (sv_sessions sv) = new_session"
  "k < length (sv_sessions sv) \<Longrightarrow> sv_sessions (connect sv) ! k = sv_sessions sv ! k"
  by (simp_all add: connect_def nth_append)

text \<open>Whose ffmpeg exits does not matter: the directory that the processor points to is emptied.\<close>

lemma exit_breaks:
  assumes "ig_proc (sv_global sv) = (p, fs)" and "SourceDirectory p \<noteq> []" and "ManifestFile p = SourceDirectory p @ ''/'' @ m"
  shows "resp_status (hls_Manifest (ig_proc (sv_global (ffmpeg_exit k sv))) new_writer) = 500"
proof -
  obtain q fs1 where d: "processor_Destroy (p, fs) = (q, fs1)" by (rule prod.exhaust)
  have q: "q = p" using destroy_facts(1) [of p fs] d by simp
  have "fs1 = snd (processor_Destroy (p, fs))" by (simp add: d)
  then have "fs_files fs1 (ManifestFile p) = None"
    using assms(2,3) has_prefix_append [of "SourceDirectory p @ ''/''" m]
    by (simp add: processor_Destroy_def RemoveAll_def NamedPipe_Close_def Let_def split: option.split)
  moreover have "ManifestFile p \<noteq> []" by (simp add: assms(3))
  ultimately show ?thesis using manifest_answer(1) [of p fs1] by (simp add: ffmpeg_exit_def assms(1) d q)
qed

lemma setup_ok:
  assumes "tc_MkdirTemp tc = Inr dir" and "tc_Mkfifo tc = None"
  obtains p1 fs1 where "Transcode_setup tc (p, fs) = (Ret (), p1, fs1)" "SourceDirectory p1 = dir"
    "ManifestFile p1 = dir @ ''/'' @ tc_manifest_uuid tc @ ''.m3u8''" "dir \<in> fs_dirs fs1"
  using assms by (simp add: Transcode_setup_def NewNamedPipe_def Let_def)

text \<open>A second session from its connection until it serves its manifest.\<close>

lemma second_session:
  assumes k: "k = length (sv_sessions sv)" and tc: "tc_MkdirTemp tc = Inr dir" "tc_Mkfifo tc = None"
  obtains p fs x where
    "happen_all any_event [Connect, Begin k tc, Spawn k, WriteMedia k (tc_manifest_uuid tc @ ''.m3u8'') c] sv
      = Some (Ret \<lparr>sv_global = (snd (HandleWebrtc (sv_global sv)))\<lparr>ig_proc := (p, fs)\<rparr>, sv_sessions = sv_sessions sv @ [x]\<rparr>)"
    "SourceDirectory p = dir" "ManifestFile p = dir @ ''/'' @ tc_manifest_uuid tc @ ''.m3u8''"
    "fs_files fs (ManifestFile p) = Some c" "live_run x" "is_spawned x" "\<not> is_ctx_done x"
proof -
  let ?g = "snd (HandleWebrtc (sv_global sv))" let ?f = "tc_manifest_uuid tc @ ''.m3u8''"
  obtain p0 fs0 where g: "ig_proc ?g = (p0, fs0)" by (rule prod.exhaust)
  from setup_ok [OF tc] obtain p1 fs1 where p1: "Transcode_setup tc (p0, fs0) = (Ret (), p1, fs1)" "SourceDirectory p1 = dir"
    "ManifestFile p1 = dir @ ''/'' @ ?f" "dir \<in> fs_dirs fs1" by metis
  let ?fs = "fs1\<lparr>fs_files := (fs_files fs1)(dir @ ''/'' @ ?f \<mapsto> c)\<rparr>"
  let ?x = "new_session\<lparr>is_out := Some (dir, ManifestFile p1), is_spawned := True, is_files := [?f \<mapsto> c]\<rparr>"
  have "happen_all any_event [Connect, Begin k tc, Spawn k, WriteMedia k ?f c] sv
      = Some (Ret \<lparr>sv_global = ?g\<lparr>ig_proc := (p1, ?fs)\<rparr>, sv_sessions = sv_sessions sv @ [?x]\<rparr>)"
    using p1 by (simp add: k connect_def begin_transcode_def g set_session_def write_media_def new_session_def)
  moreover have "fs_files ?fs (ManifestFile p1) = Some c" by (simp add: p1(3))
  moreover have "live_run ?x" "is_spawned ?x" "\<not> is_ctx_done ?x" by (simp_all add: live_run_def new_session_def)
  ultimately show ?thesis using p1(2,3) by (intro that [of p1 ?fs ?x]) simp_all
qed

text \<open>C35: a broadcaster who connects again before the session before is over loses the HLS stream: the new
  session serves its manifest, but when the earlier session's ffmpeg exits, its deferred clean-up empties
  the new session's directory, and the manifest is answered with 500 although the new session is
  connected and its ffmpeg runs; what it wrote is gone.\<close>

theorem reconnect_breaks_hls:
  assumes "j < length (sv_sessions sv)" and "is_spawned (sv_sessions sv ! j)" and "\<not> is_exited (sv_sessions sv ! j)"
    and "tc_MkdirTemp tc = Inr dir" and "dir \<noteq> []" and "tc_Mkfifo tc = None" and "k = length (sv_sessions sv)"
  shows "\<exists>sv1 sv2. happen_all any_event [Connect, Begin k tc, Spawn k, WriteMedia k (tc_manifest_uuid tc @ ''.m3u8'') c] sv = Some (Ret sv1)
    \<and> resp_status (hls_Manifest (ig_proc (sv_global sv1)) new_writer) = 200
    \<and> resp_body (hls_Manifest (ig_proc (sv_global sv1)) new_writer) = [Raw c]
    \<and> happen_all any_event [FfmpegExit j] sv1 = Some (Ret sv2)
    \<and> live_run (sv_sessions sv2 ! k) \<and> is_spawned (sv_sessions sv2 ! k) \<and> \<not> is_ctx_done (sv_sessions sv2 ! k)
    \<and> resp_status (hls_Manifest (ig_proc (sv_global sv2)) new_writer) = 500"
proof -
  from second_session [OF assms(7,4,6), of c] obtain p fs x where
    run: "happen_all any_event [Connect, Begin k tc, Spawn k, WriteMedia k (tc_manifest_uuid tc @ ''.m3u8'') c] sv
      = Some (Ret \<lparr>sv_global = (snd (HandleWebrtc (sv_global sv)))\<lparr>ig_proc := (p, fs)\<rparr>, sv_sessions = sv_sessions sv @ [x]\<rparr>)"
    and p: "SourceDirectory p = dir" "ManifestFile p = dir @ ''/'' @ tc_manifest_uuid tc @ ''.m3u8''" "fs_files fs (ManifestFile p) = Some c"
    and x: "live_run x" "is_spawned x" "\<not> is_ctx_done x" by metis
  let ?sv1 = "\<lparr>sv_global = (snd (HandleWebrtc (sv_global sv)))\<lparr>ig_proc := (p, fs)\<rparr>, sv_sessions = sv_sessions sv @ [x]\<rparr>"
  have ne: "ManifestFile p \<noteq> []" by (simp add: p(2))
  have j: "sv_sessions ?sv1 ! j = sv_sessions sv ! j" "j \<noteq> k" using assms(1,7) by (simp_all add: nth_append)
  have "happen_all any_event [FfmpegExit j] ?sv1 = Some (Ret (ffmpeg_exit j ?sv1))" using assms(1-3) j by simp
  moreover have "sv_sessions (ffmpeg_exit j ?sv1) ! k = x" using j(2) assms(7) by (simp add: ffmpeg_exit_def set_session_def nth_append)
  moreover have "resp_status (hls_Manifest (ig_proc (sv_global (ffmpeg_exit j ?sv1))) new_writer) = 500"
    by (rule exit_breaks [of _ p fs]) (use p assms(5) in simp_all)
  moreover have "resp_status (hls_Manifest (ig_proc (sv_global ?sv1)) new_writer) = 200"
    "resp_body (hls_Manifest (ig_proc (sv_global ?sv1)) new_writer) = [Raw c]"
    using manifest_answer [OF ne, of fs] p(3) by simp_all
  ultimately show ?thesis using run x by metis
qed

text \<open>C36: a broadcaster who disconnects while the session is set up crashes the ingest server: between the
  processor's set-up and the start of ffmpeg's process, the goroutine that waits for the context calls a
  method of the process that is not there yet.\<close>

theorem early_disconnect_panics:
  assumes "tc_MkdirTemp tc = Inr dir" and "tc_Mkfifo tc = None" and "k = length (sv_sessions sv)"
  shows "happen_all any_event [Connect, Begin k tc, Disconnect k, Kill k] sv = Some nil_deref"
proof -
  obtain p0 fs0 where g: "ig_proc (snd (HandleWebrtc (sv_global sv))) = (p0, fs0)" by (rule prod.exhaust)
  from setup_ok [OF assms(1,2)] obtain p1 fs1 where p1: "Transcode_setup tc (p0, fs0) = (Ret (), p1, fs1)" by metis
  then show ?thesis
    by (simp add: assms(3) connect_def begin_transcode_def g set_session_def new_session_def kill_ffmpeg_def)
qed

text \<open>Witnesses: one session that serves its manifest; two sessions of which the first exits.\<close>

definition first_transcode :: transcode_calls where
  "first_transcode = second_transcode\<lparr>tc_MkdirTemp := Inr ''/tmp/a-0''\<rparr>"

lemma happen_all_reach:
  "ingest_reach may sv0 sv \<Longrightarrow> happen_all may es sv = Some (Ret sv') \<Longrightarrow> ingest_reach may sv0 sv'"
proof (induction es arbitrary: sv)
  case (Cons e es)
  from Cons.prems(2) obtain sv1 where step: "may e sv" "can_happen e sv" "happen e sv = Ret sv1" "happen_all may es sv1 = Some (Ret sv')"
    by (auto split: if_splits outcome.splits)
  from ingest_step [OF Cons.prems(1) step(1-3)] show ?case by (rule Cons.IH) (rule step(4))
qed simp

lemma one_session:
  obtains sv x where
    "happen_all one_by_one [Connect, Begin 0 first_transcode, Spawn 0, WriteMedia 0 ''b.m3u8'' ''#EXTM3U''] new_server = Some (Ret sv)"
    "sv_sessions sv = [x]" "live_run x" "is_spawned x" "\<not> is_exited x"
  by (simp add: new_server_def connect_def HandleWebrtc_def calls_ok_def first_transcode_def second_transcode_def begin_transcode_def
    Transcode_setup_def NewNamedPipe_def set_session_def new_session_def write_media_def live_run_def Let_def)


theorem reconnect_breaks_hls_witness:
  "\<exists>sv sv1 sv2. sv_sessions sv \<noteq> []
    \<and> happen_all any_event [Connect, Begin 1 second_transcode, Spawn 1, WriteMedia 1 ''b.m3u8'' ''#EXTM3U''] sv = Some (Ret sv1)
    \<and> resp_status (hls_Manifest (ig_proc (sv_global sv1)) new_writer) = 200
    \<and> happen_all any_event [FfmpegExit 0] sv1 = Some (Ret sv2)
    \<and> resp_status (hls_Manifest (ig_proc (sv_global sv2)) new_writer) = 500"
proof -
  obtain sv x where
    "happen_all one_by_one [Connect, Begin 0 first_transcode, Spawn 0, WriteMedia 0 ''b.m3u8'' ''#EXTM3U''] new_server = Some (Ret sv)"
    and x: "sv_sessions sv = [x]" "live_run x" "is_spawned x" "\<not> is_exited x" by (rule one_session)
  have tc: "tc_MkdirTemp second_transcode = Inr ''/tmp/a-1''" "''/tmp/a-1'' \<noteq> []" "tc_Mkfifo second_transcode = None"
    "tc_manifest_uuid second_transcode @ ''.m3u8'' = ''b.m3u8''" by (simp_all add: second_transcode_def)
  from reconnect_breaks_hls [of 0 sv, OF _ _ _ tc(1-3), of 1 "''#EXTM3U''"] x tc(4)
  obtain sv1 sv2 where "happen_all any_event [Connect, Begin 1 second_transcode, Spawn 1, WriteMedia 1 ''b.m3u8'' ''#EXTM3U''] sv = Some (Ret sv1)"
    "resp_status (hls_Manifest (ig_proc (sv_global sv1)) new_writer) = 200"
    "happen_all any_event [FfmpegExit 0] sv1 = Some (Ret sv2)" "resp_status (hls_Manifest (ig_proc (sv_global sv2)) new_writer) = 500"
    by auto
  moreover have "sv_sessions sv \<noteq> []" by (simp add: x(1))
  ultimately show ?thesis by blast
qed

theorem early_disconnect_panics_witness:
  "happen_all any_event [Connect, Begin 0 first_transcode, Disconnect 0, Kill 0] new_server = Some nil_deref"
  by (rule early_disconnect_panics [of _ "''/tmp/a-0''"]) (simp_all add: first_transcode_def second_transcode_def new_server_def)

end
