(* ===== verification/IngestServer.thy ===== *)
theory IngestServer imports Prelude "HOL-Library.Word" begin

text \<open>
  The set-up of the ingest server's WebRTC API: the addresses it announces (\<open>pkg/netutils\<close>) and the codecs
  and header extensions it registers (\<open>pkg/service/server.go\<close>).  The interfaces of the host and the
  registration functions of the library are parameters.
\<close>

section \<open>pkg/netutils/address.go\<close>

type_synonym ip4 = "8 word \<times> 8 word \<times> 8 word \<times> 8 word"

text \<open>An address with its \<open>To4\<close>, if it has one, or an address of another type.\<close>

datatype net_addr = IPNet "ip4 option" | IPAddr "ip4 option" | OtherAddr

record net_iface =
  if_Name :: string
  if_Addrs :: "goerr + net_addr list"

fun ip_String :: "ip4 \<Rightarrow> string" where
  "ip_String (a, b, c, d) = nat_str (unat a) @ ''.'' @ nat_str (unat b) @ ''.'' @ nat_str (unat c) @ ''.'' @ nat_str (unat d)"

fun IsLoopback :: "ip4 \<Rightarrow> bool" where
  "IsLoopback (a, _, _, _) \<longleftrightarrow> a = 127"

fun addr_ip :: "net_addr \<Rightarrow> ip4 option" where
  "addr_ip (IPNet ip) = ip"
| "addr_ip (IPAddr ip) = ip"
| "addr_ip OtherAddr = None"

fun collect_addrs :: "net_addr list \<Rightarrow> string list \<times> string list \<Rightarrow> string list \<times> string list" where
  "collect_addrs [] acc = acc"
| "collect_addrs (a # as) (loopBacks, addresses) =
     (case addr_ip a of
        None \<Rightarrow> collect_addrs as (loopBacks, addresses)
      | Some ip \<Rightarrow>
          if IsLoopback ip then collect_addrs as (loopBacks @ [ip_String ip], addresses)
          else collect_addrs as (loopBacks, addresses @ [ip_String ip]))"

fun collect_ifaces :: "string list \<Rightarrow> net_iface list \<Rightarrow> string list \<times> string list \<Rightarrow> string list \<times> string list" where
  "collect_ifaces preferredInterfaces [] acc = acc"
| "collect_ifaces preferredInterfaces (i # is) acc =
     (if preferredInterfaces \<noteq> [] \<and> if_Name i \<notin> set preferredInterfaces then collect_ifaces preferredInterfaces is acc
      else case if_Addrs i of
        Inl err \<Rightarrow> collect_ifaces preferredInterfaces is acc
      | Inr addrs \<Rightarrow> collect_ifaces preferredInterfaces is (collect_addrs addrs acc))"

definition GetLocalIPAddresses :: "goerr + net_iface list \<Rightarrow> bool \<Rightarrow> string list \<Rightarrow> goerr + string list" where
  "GetLocalIPAddresses interfaces includeLoopback preferredInterfaces =
     (case interfaces of
        Inl err \<Rightarrow> Inl err
      | Inr ifaces \<Rightarrow>
          (let (loopBacks, addresses) = collect_ifaces preferredInterfaces ifaces ([], []);
               addresses1 = (if includeLoopback then addresses @ loopBacks else addresses)
           in if addresses1 \<noteq> [] then Inr addresses1
              else if loopBacks \<noteq> [] then Inr loopBacks
              else Inl (GoErr ''could not find local IP address'')))"

text \<open>The IPv4 addresses of the interfaces that are asked for, in order.\<close>

definition iface_ips :: "string list \<Rightarrow> net_iface list \<Rightarrow> ip4 list" where
  "iface_ips preferredInterfaces ifaces = concat (map (\<lambda>i.
     if preferredInterfaces \<noteq> [] \<and> if_Name i \<notin> set preferredInterfaces then []
     else case if_Addrs i of Inl _ \<Rightarrow> [] | Inr addrs \<Rightarrow> List.map_filter addr_ip addrs) ifaces)"

lemma collect_addrs_eq:
  "collect_addrs as (l, a) = (l @ map ip_String (filter IsLoopback (List.map_filter addr_ip as)),
     a @ map ip_String (filter (\<lambda>ip. \<not> IsLoopback ip) (List.map_filter addr_ip as)))"
  by (induction as arbitrary: l a) (auto simp: map_filter_simps split: option.split)

lemma collect_ifaces_eq:
  "collect_ifaces pre is (l, a) = (l @ map ip_String (filter IsLoopback (iface_ips pre is)),
     a @ map ip_String (filter (\<lambda>ip. \<not> IsLoopback ip) (iface_ips pre is)))"
  by (induction "is" arbitrary: l a) (auto simp: iface_ips_def collect_addrs_eq split: sum.split)

lemma GetLocalIPAddresses_eq:
  "GetLocalIPAddresses (Inr ifaces) includeLoopback pre =
     (let ips = iface_ips pre ifaces; public = filter (\<lambda>ip. \<not> IsLoopback ip) ips; local_ips = filter IsLoopback ips in
      if ips = [] then Inl (GoErr ''could not find local IP address'')
      else Inr (map ip_String (if public = [] then local_ips else if includeLoopback then public @ local_ips else public)))"
proof -
  have "iface_ips pre ifaces = [] \<longleftrightarrow> filter (\<lambda>ip. \<not> IsLoopback ip) (iface_ips pre ifaces) = [] \<and> filter IsLoopback (iface_ips pre ifaces) = []"
    by (cases "iface_ips pre ifaces") simp_all
  then show ?thesis by (simp add: GetLocalIPAddresses_def collect_ifaces_eq Let_def)
qed

section \<open>Codecs\<close>

record rtp_codec =
  rc_MimeType :: string
  rc_ClockRate :: nat
  rc_Channels :: nat
  rc_SDPFmtpLine :: string
  rc_RTCPFeedback :: "(string \<times> string) list"
  rc_PayloadType :: nat

datatype codec_kind = RTPCodecTypeAudio | RTPCodecTypeVideo

record 'm media_engine_lib =
  RegisterCodec :: "rtp_codec \<Rightarrow> codec_kind \<Rightarrow> 'm \<Rightarrow> goerr option \<times> 'm"
  RegisterHeaderExtension :: "string \<Rightarrow> codec_kind \<Rightarrow> 'm \<Rightarrow> goerr option \<times> 'm"

text \<open>A loop over registrations that returns the first error.\<close>

fun register_all :: "('a \<Rightarrow> 'm \<Rightarrow> goerr option \<times> 'm) \<Rightarrow> 'a list \<Rightarrow> 'm \<Rightarrow> goerr option \<times> 'm" where
  "register_all reg [] m = (None, m)"
| "register_all reg (x # xs) m =
     (case reg x m of (Some err, m1) \<Rightarrow> (Some err, m1) | (None, m1) \<Rightarrow> register_all reg xs m1)"

definition videoRTCPFeedback :: "(string \<times> string) list" where
  "videoRTCPFeedback = [(''goog-remb'', []), (''ccm'', ''fir''), (''nack'', []), (''nack'', ''pli'')]"

definition audio_codecs :: "rtp_codec list" where
  "audio_codecs = [\<lparr>rc_MimeType = ''audio/opus'', rc_ClockRate = 48000, rc_Channels = 2,
     rc_SDPFmtpLine = ''minptime=10;useinbandfec=1'', rc_RTCPFeedback = [], rc_PayloadType = 111\<rparr>]"

definition h264_codec :: "string \<Rightarrow> nat \<Rightarrow> rtp_codec" where
  "h264_codec fmtp pt = \<lparr>rc_MimeType = ''video/H264'', rc_ClockRate = 90000, rc_Channels = 0, rc_SDPFmtpLine = fmtp,
     rc_RTCPFeedback = videoRTCPFeedback, rc_PayloadType = pt\<rparr>"

definition video_codecs :: "rtp_codec list" where
  "video_codecs =
     [h264_codec ''level-asymmetry-allowed=1;packetization-mode=1;profile-level-id=42001f'' 102,
      h264_codec ''level-asymmetry-allowed=1;packetization-mode=0;profile-level-id=42001f'' 127,
      h264_codec ''level-asymmetry-allowed=1;packetization-mode=1;profile-level-id=42e01f'' 125,
      h264_codec ''level-asymmetry-allowed=1;packetization-mode=0;profile-level-id=42e01f'' 108,
      \<lparr>rc_MimeType = ''video/rtx'', rc_ClockRate = 90000, rc_Channels = 0, rc_SDPFmtpLine = ''apt=108'',
       rc_RTCPFeedback = [], rc_PayloadType = 109\<rparr>,
      h264_codec ''level-asymmetry-allowed=1;packetization-mode=0;profile-level-id=42001f'' 127,
      h264_codec ''level-asymmetry-allowed=1;packetization-mode=1;profile-level-id=640032'' 123]"

definition vp8_codec :: rtp_codec where
  "vp8_codec = \<lparr>rc_MimeType = ''video/VP8'', rc_ClockRate = 90000, rc_Channels = 0, rc_SDPFmtpLine = [],
     rc_RTCPFeedback = [], rc_PayloadType = 96\<rparr>"

definition header_extensions :: "string list" where
  "header_extensions =
     [''urn:ietf:params:rtp-hdrext:sdes:mid'', ''urn:ietf:params:rtp-hdrext:sdes:rtp-stream-id'',
      ''urn:ietf:params:rtp-hdrext:sdes:repaired-rtp-stream-id'']"

definition populateMediaEngine :: "'m media_engine_lib \<Rightarrow> 'm \<Rightarrow> goerr option outcome \<times> 'm" where
  "populateMediaEngine L m =
     (case register_all (\<lambda>c. RegisterCodec L c RTPCodecTypeAudio) audio_codecs m of
        (Some err, m1) \<Rightarrow> (Ret (Some err), m1)
      | (None, m1) \<Rightarrow>
          (case register_all (\<lambda>c. RegisterCodec L c RTPCodecTypeVideo) video_codecs m1 of
             (Some err, m2) \<Rightarrow> (Ret (Some err), m2)
           | (None, m2) \<Rightarrow>
               (case RegisterCodec L vp8_codec RTPCodecTypeVideo m2 of
                  (Some err, m3) \<Rightarrow> (Panic (err_text err), m3)
                | (None, m3) \<Rightarrow>
                    (let (e, m4) = register_all (\<lambda>u. RegisterHeaderExtension L u RTPCodecTypeVideo) header_extensions m3
                     in (Ret e, m4)))))"

text \<open>The address the API announces: the configured one, or the host's when they can be found.\<close>

definition nat_ips :: "string \<Rightarrow> goerr + net_iface list \<Rightarrow> string list" where
  "nat_ips NATPublicIP interfaces =
     (if NATPublicIP \<noteq> [] then [NATPublicIP]
      else case GetLocalIPAddresses interfaces False [] of Inl err \<Rightarrow> [] | Inr ips \<Rightarrow> ips)"

end
