(* ===== verification/BufferedWriter.thy ===== *)
theory BufferedWriter imports Prelude "HOL-Library.Sublist" begin

text \<open>
  The buffered writer under the WebM writers (\<open>internal/media/bufiowriter.go\<close>) with the parts of \<open>bufio.Writer\<close>
  that it uses.  The writer below is a parameter; \<open>writer_laws\<close> is what \<open>io.Writer\<close> documents.
\<close>

section \<open>bufio.Writer\<close>

type_synonym ('b, 'w) io_write = "'b list \<Rightarrow> 'w \<Rightarrow> (nat \<times> goerr option) \<times> 'w"

record ('b, 'w) bufio_writer =
  bw_buf :: "'b list"
  bw_err :: "goerr option"
  bw_wr :: 'w

definition bufio_size :: nat where
  "bufio_size = 4096"

definition bufio_ErrShortWrite :: goerr where
  "bufio_ErrShortWrite = Sentinel ''short write''"

definition Available :: "('b, 'w) bufio_writer \<Rightarrow> nat" where
  "Available b = bufio_size - length (bw_buf b)"

definition Flush :: "('b, 'w) io_write \<Rightarrow> ('b, 'w) bufio_writer \<Rightarrow> goerr option \<times> ('b, 'w) bufio_writer" where
  "Flush write b =
     (if bw_err b \<noteq> None then (bw_err b, b)
      else if bw_buf b = [] then (None, b)
      else let ((n, e), w) = write (bw_buf b) (bw_wr b);
               err = (if n < length (bw_buf b) \<and> e = None then Some bufio_ErrShortWrite else e)
           in if err \<noteq> None then (err, b\<lparr>bw_buf := drop n (bw_buf b), bw_err := err, bw_wr := w\<rparr>)
              else (None, b\<lparr>bw_buf := [], bw_wr := w\<rparr>))"

text \<open>The loop of \<open>Write\<close>: with nothing buffered, what does not fit is written without a copy.  A writer that
  takes nothing and reports no error would keep it running.\<close>

partial_function (option) write_loop ::
  "('b, 'w) io_write \<Rightarrow> 'b list \<Rightarrow> nat \<Rightarrow> ('b, 'w) bufio_writer \<Rightarrow> ('b list \<times> nat \<times> ('b, 'w) bufio_writer) option" where
  "write_loop write p nn b =
     (if length p > Available b \<and> bw_err b = None then
        (if bw_buf b = [] then
           (case write p (bw_wr b) of ((n, e), w) \<Rightarrow>
              write_loop write (drop n p) (nn + n) (b\<lparr>bw_err := e, bw_wr := w\<rparr>))
         else
           let n = Available b in
           write_loop write (drop n p) (nn + n) (snd (Flush write (b\<lparr>bw_buf := bw_buf b @ take n p\<rparr>))))
      else Some (p, nn, b))"

definition bufio_Write ::
  "('b, 'w) io_write \<Rightarrow> 'b list \<Rightarrow> ('b, 'w) bufio_writer \<Rightarrow> ((nat \<times> goerr option) \<times> ('b, 'w) bufio_writer) option" where
  "bufio_Write write p b =
     (case write_loop write p 0 b of
        None \<Rightarrow> None
      | Some (p1, nn, b1) \<Rightarrow>
          if bw_err b1 \<noteq> None then Some ((nn, bw_err b1), b1)
          else Some ((nn + length p1, None), b1\<lparr>bw_buf := bw_buf b1 @ p1\<rparr>))"

section \<open>The closer\<close>

definition NewBufioWriterCloser :: "'w \<Rightarrow> ('b, 'w) bufio_writer" where
  "NewBufioWriterCloser w = \<lparr>bw_buf = [], bw_err = None, bw_wr = w\<rparr>"

text \<open>A writer that cannot be flushed is not closed.\<close>

definition BufioWriterCloser_Close ::
  "('b, 'w) io_write \<Rightarrow> ('w \<Rightarrow> goerr option \<times> 'w) \<Rightarrow> ('b, 'w) bufio_writer \<Rightarrow> goerr option \<times> ('b, 'w) bufio_writer" where
  "BufioWriterCloser_Close write close b =
     (case Flush write b of
        (Some err, b1) \<Rightarrow> (Some err, b1)
      | (None, b1) \<Rightarrow> (let (e, w) = close (bw_wr b1) in (e, b1\<lparr>bw_wr := w\<rparr>)))"

text \<open>A sequence of writes, which ends at the first error.\<close>

fun bufio_writes :: "('b, 'w) io_write \<Rightarrow> 'b list list \<Rightarrow> ('b, 'w) bufio_writer \<Rightarrow> (goerr option \<times> ('b, 'w) bufio_writer) option" where
  "bufio_writes write [] b = Some (None, b)"
| "bufio_writes write (p # ps) b =
     (case bufio_Write write p b of
        None \<Rightarrow> None
      | Some ((n, Some err), b1) \<Rightarrow> Some (Some err, b1)
      | Some ((n, None), b1) \<Rightarrow> bufio_writes write ps b1)"

section \<open>Lemmas\<close>

text \<open>A writer takes the first \<open>n\<close> of the bytes it is given, and gives an error when these are not all.\<close>

definition writer_laws :: "('b, 'w) io_write \<Rightarrow> ('w \<Rightarrow> 'b list) \<Rightarrow> bool" where
  "writer_laws write content \<longleftrightarrow> (\<forall>p w n e w'. write p w = ((n, e), w') \<longrightarrow>
     n \<le> length p \<and> (n < length p \<longrightarrow> e \<noteq> None) \<and> content w' = content w @ take n p)"

definition never_fails :: "('b, 'w) io_write \<Rightarrow> bool" where
  "never_fails write \<longleftrightarrow> (\<forall>p w. snd (fst (write p w)) = None)"

definition bufio_total :: "('w \<Rightarrow> 'b list) \<Rightarrow> ('b, 'w) bufio_writer \<Rightarrow> 'b list" where
  "bufio_total content b = content (bw_wr b) @ bw_buf b"

lemma Flush_spec:
  assumes "writer_laws write content" and "Flush write b = (e, b')"
  shows "bufio_total content b' = bufio_total content b" and "bw_err b' = e" and "e = None \<Longrightarrow> bw_buf b' = []"
    and "length (bw_buf b') \<le> length (bw_buf b)" and "never_fails write \<Longrightarrow> bw_err b = None \<Longrightarrow> e = None"
proof -
  obtain n e0 w where wr: "write (bw_buf b) (bw_wr b) = ((n, e0), w)" by (metis prod.exhaust)
  with assms(1) have laws: "n \<le> length (bw_buf b)" "n < length (bw_buf b) \<Longrightarrow> e0 \<noteq> None"
    "content w = content (bw_wr b) @ take n (bw_buf b)" unfolding writer_laws_def by blast+
  show "bufio_total content b' = bufio_total content b" "bw_err b' = e" "e = None \<Longrightarrow> bw_buf b' = []"
    "length (bw_buf b') \<le> length (bw_buf b)"
    using assms(2) laws by (auto simp: Flush_def wr bufio_total_def Let_def split: if_splits)
  show "e = None" if "never_fails write" "bw_err b = None"
  proof -
    have "e0 = None" using that(1) wr unfolding never_fails_def by (metis fst_conv snd_conv)
    with that(2) laws assms(2) show ?thesis by (auto simp: Flush_def wr Let_def split: if_splits)
  qed
qed

text \<open>The loop ends after two rounds at most: one that fills and flushes the buffer, one that writes the rest.\<close>

lemma write_loop_direct:
  assumes laws: "writer_laws write content" and b: "bw_buf b = []"
  shows "\<exists>p' k b'. write_loop write p nn b = Some (p', nn + k, b') \<and> k \<le> length p \<and> p' = drop k p
    \<and> bufio_total content b' = bufio_total content b @ take k p \<and> length (bw_buf b') \<le> bufio_size
    \<and> (bw_err b' = None \<longrightarrow> length p' \<le> Available b') \<and> (never_fails write \<and> bw_err b = None \<longrightarrow> bw_err b' = None)"
proof (cases "length p > Available b \<and> bw_err b = None")
  case True
  obtain n e w where wr: "write p (bw_wr b) = ((n, e), w)" by (metis prod.exhaust)
  with laws have n: "n \<le> length p" "n < length p \<Longrightarrow> e \<noteq> None" "content w = content (bw_wr b) @ take n p"
    unfolding writer_laws_def by blast+
  let ?b = "b\<lparr>bw_err := e, bw_wr := w\<rparr>"
  have stop: "write_loop write (drop n p) (nn + n) ?b = Some (drop n p, nn + n, ?b)"
  proof -
    have "n = length p \<or> e \<noteq> None" using n(1,2) by linarith
    then show ?thesis by (subst write_loop.simps) (auto simp: b)
  qed
  have "write_loop write p nn b = Some (drop n p, nn + n, ?b)"
    by (subst write_loop.simps) (use True stop in \<open>simp add: b wr\<close>)
  moreover have "never_fails write \<longrightarrow> e = None" using wr unfolding never_fails_def by (metis fst_conv snd_conv)
  moreover have "e = None \<longrightarrow> length (drop n p) \<le> Available ?b" by (cases "n < length p") (use n(2) in auto)
  ultimately show ?thesis using n by (intro exI [of _ "drop n p"] exI [of _ n] exI [of _ ?b])
      (auto simp: bufio_total_def b Available_def)
next
  case False
  then have "write_loop write p nn b = Some (p, nn, b)" by (subst write_loop.simps) (simp only: if_False)
  with False show ?thesis by (intro exI [of _ p] exI [of _ 0] exI [of _ b]) (auto simp: b)
qed

lemma write_loop_spec:
  assumes laws: "writer_laws write content" and size: "length (bw_buf b) \<le> bufio_size"
  shows "\<exists>p' k b'. write_loop write p nn b = Some (p', nn + k, b') \<and> k \<le> length p \<and> p' = drop k p
    \<and> bufio_total content b' = bufio_total content b @ take k p \<and> length (bw_buf b') \<le> bufio_size
    \<and> (bw_err b' = None \<longrightarrow> length p' \<le> Available b') \<and> (never_fails write \<and> bw_err b = None \<longrightarrow> bw_err b' = None)"
proof (cases "length p > Available b \<and> bw_err b = None \<and> bw_buf b \<noteq> []")
  case True
  let ?n = "Available b" let ?f = "b\<lparr>bw_buf := bw_buf b @ take ?n p\<rparr>"
  obtain e b1 where flush: "Flush write ?f = (e, b1)" by (metis prod.exhaust)
  note f = Flush_spec [OF laws flush]
  have total: "bufio_total content b1 = bufio_total content b @ take ?n p" using f(1) by (simp add: bufio_total_def)
  have size1: "length (bw_buf b1) \<le> bufio_size" using f(4) size True by (simp add: Available_def)
  have loop: "write_loop write p nn b = write_loop write (drop ?n p) (nn + ?n) b1"
    by (subst write_loop.simps) (use True flush in \<open>simp add: Let_def\<close>)
  show ?thesis
  proof (cases e)
    case None
    from write_loop_direct [OF laws f(3) [OF None], of "drop ?n p" "nn + ?n"]
    show ?thesis
    proof (elim exE conjE, goal_cases)
      case (1 p' k b')
      have "?n + k \<le> length p" using 1(2) True by (simp only: length_drop) linarith
      moreover have "take (?n + k) p = take ?n p @ take k (drop ?n p)" "drop (?n + k) p = p'"
        using 1(3) by (simp add: take_add, simp add: add.commute)
      moreover have "write_loop write p nn b = Some (p', nn + (?n + k), b')" using loop 1(1) by (simp add: add.assoc)
      ultimately show ?case using total 1(4-7) None f(2)
        by (intro exI [of _ p'] exI [of _ "?n + k"] exI [of _ b']) (simp del: drop_drop)
    qed
  next
    case (Some err)
    with f(2) have "write_loop write (drop ?n p) (nn + ?n) b1 = Some (drop ?n p, nn + ?n, b1)"
      by (subst write_loop.simps) simp
    moreover have "\<not> never_fails write" using f(5) Some True by auto
    ultimately show ?thesis using loop total size1 True f(2) Some
      by (intro exI [of _ "drop ?n p"] exI [of _ ?n] exI [of _ b1]) simp
  qed
next
  case False
  then consider "bw_buf b = []" | "\<not> (length p > Available b \<and> bw_err b = None)" by blast
  then show ?thesis
  proof cases
    case 1
    then show ?thesis by (rule write_loop_direct [OF laws])
  next
    case 2
    then have "write_loop write p nn b = Some (p, nn, b)" by (subst write_loop.simps) (simp only: if_False)
    with 2 size show ?thesis by (intro exI [of _ p] exI [of _ 0] exI [of _ b]) auto
  qed
qed

text \<open>A write returns; it takes all the bytes, or the first of them with an error.\<close>

lemma bufio_Write_spec:
  assumes "writer_laws write content" and "length (bw_buf b) \<le> bufio_size"
  shows "\<exists>n e b'. bufio_Write write p b = Some ((n, e), b') \<and> n \<le> length p \<and> (e = None \<longrightarrow> n = length p) \<and> e = bw_err b'
    \<and> (never_fails write \<and> bw_err b = None \<longrightarrow> e = None) \<and> bufio_total content b' = bufio_total content b @ take n p \<and> length (bw_buf b') \<le> bufio_size"
proof -
  from write_loop_spec [OF assms, of p 0] obtain p' k b' where
    k: "write_loop write p 0 b = Some (p', k, b')" "k \<le> length p" "p' = drop k p"
      "bufio_total content b' = bufio_total content b @ take k p" "length (bw_buf b') \<le> bufio_size"
      "bw_err b' = None \<longrightarrow> length p' \<le> Available b'" "never_fails write \<and> bw_err b = None \<longrightarrow> bw_err b' = None" unfolding add_0 by (elim exE conjE) (rule that)
  show ?thesis
  proof (cases "bw_err b'")
    case None
    have "bufio_total content b' @ drop k p = bufio_total content b @ p" using k(4) by simp
    moreover have "length (bw_buf b' @ drop k p) \<le> bufio_size" using k(3,5,6) None by (simp add: Available_def)
    ultimately show ?thesis using None k(1-3) by (simp add: bufio_Write_def bufio_total_def)
  next
    case (Some err)
    with k show ?thesis by (simp add: bufio_Write_def)
  qed
qed

lemma bufio_writes_spec:
  assumes "writer_laws write content"
  shows "length (bw_buf b) \<le> bufio_size \<Longrightarrow> \<exists>e b'. bufio_writes write ps b = Some (e, b')
    \<and> prefix (bufio_total content b') (bufio_total content b @ concat ps)
    \<and> (e = None \<longrightarrow> bufio_total content b' = bufio_total content b @ concat ps \<and> (ps = [] \<or> bw_err b' = None))
    \<and> (never_fails write \<and> bw_err b = None \<longrightarrow> e = None \<and> bw_err b' = None)"
proof (induction ps arbitrary: b)
  case (Cons p ps)
  from bufio_Write_spec [OF assms Cons.prems, of p] obtain n e b1 where
    b1: "bufio_Write write p b = Some ((n, e), b1)" "n \<le> length p" "e = None \<longrightarrow> n = length p" "e = bw_err b1"
      "never_fails write \<and> bw_err b = None \<longrightarrow> e = None"
      "bufio_total content b1 = bufio_total content b @ take n p" "length (bw_buf b1) \<le> bufio_size" by blast
  show ?case
  proof (cases e)
    case None
    with Cons.IH [OF b1(7)] b1 show ?thesis by auto
  next
    case (Some err)
    have "prefix (take n p) (p @ concat ps)" by (metis append_take_drop_id prefixI append_assoc)
    with Some b1 show ?thesis by simp
  qed
qed simp

text \<open>C33: every sequence of writes through the buffer returns, whatever the sizes; whatever the writer below does,
  it has got the first of the bytes that were written, in order and each once, and so it has after the close;
  when no write and no close returned an error it has got them all, and the writes fail only if it does.\<close>

theorem buffered_bytes_arrive:
  assumes "writer_laws write content" and "content w = []" and "\<And>w. content (snd (close w)) = content w"
  shows "\<exists>e b e' b'. bufio_writes write ps (NewBufioWriterCloser w) = Some (e, b) \<and> BufioWriterCloser_Close write close b = (e', b')
    \<and> prefix (content (bw_wr b)) (concat ps) \<and> prefix (content (bw_wr b')) (concat ps)
    \<and> (e = None \<and> e' = None \<longrightarrow> content (bw_wr b') = concat ps) \<and> (never_fails write \<longrightarrow> e = None)
    \<and> (never_fails write \<and> (\<forall>w. fst (close w) = None) \<longrightarrow> e' = None)"
proof -
  have new: "length (bw_buf (NewBufioWriterCloser w)) \<le> bufio_size" "bufio_total content (NewBufioWriterCloser w) = []"
    "bw_err (NewBufioWriterCloser w) = None" by (simp_all add: NewBufioWriterCloser_def bufio_total_def assms(2))
  from bufio_writes_spec [OF assms(1) new(1), of ps] obtain e b where
    b: "bufio_writes write ps (NewBufioWriterCloser w) = Some (e, b)" "prefix (bufio_total content b) (concat ps)"
      "e = None \<longrightarrow> bufio_total content b = concat ps" "never_fails write \<longrightarrow> e = None \<and> bw_err b = None" by (auto simp: new(2,3))
  obtain f b1 where flush: "Flush write b = (f, b1)" by (metis prod.exhaust)
  note f = Flush_spec [OF assms(1) flush]
  obtain e' b' where close: "BufioWriterCloser_Close write close b = (e', b')" by (metis prod.exhaust)
  have same: "content (bw_wr b') = content (bw_wr b1)" and err: "f = None \<or> e' \<noteq> None" and ok: "f = None \<Longrightarrow> e' = fst (close (bw_wr b1))"
    using close assms(3) [of "bw_wr b1"] by (auto simp: BufioWriterCloser_Close_def flush Let_def split: option.splits prod.splits)
  have pre: "prefix (content (bw_wr c)) (concat ps)" if "bufio_total content c = bufio_total content b" for c
    using b(2) that by (metis append_prefixD bufio_total_def)
  have "content (bw_wr b') = concat ps" if "e = None" "e' = None"
    using f(1,3) err same b(3) that by (auto simp: bufio_total_def)
  with pre [OF refl] pre [OF f(1)] same b(1,4) close ok f(5) show ?thesis
    by (intro exI [of _ e] exI [of _ b] exI [of _ e'] exI [of _ b']) auto
qed

definition list_write :: "(nat, nat list) io_write" where
  "list_write p w = ((length p, None), w @ p)"

theorem buffered_bytes_arrive_witness:
  "\<exists>e b b'. bufio_writes list_write [replicate 5000 7, [1, 2]] (NewBufioWriterCloser []) = Some (e, b)
    \<and> BufioWriterCloser_Close list_write (\<lambda>w. (None, w)) b = (None, b') \<and> bw_wr b' = replicate 5000 7 @ [1, 2]"
proof -
  have "writer_laws list_write id" "never_fails list_write" by (auto simp: writer_laws_def never_fails_def list_write_def)
  then show ?thesis
    using buffered_bytes_arrive [of list_write id "[]" "\<lambda>w. (None, w)" "[replicate 5000 7, [1, 2]]"] by auto
qed

end
