(* ===== verification/ApiDocuments.thy ===== *)
theory ApiDocuments imports Prelude begin

text \<open>
  The API documents that are embedded in the three \<open>handler_gen.go\<close> files, base64 of gzip of JSON, and how
  they are read again (\<open>decodeSpec\<close>, \<open>PathToRawSpec\<close>, \<open>GetSwagger\<close>, alike in the three files), with the decoder
  of \<open>encoding/base64\<close> written out; gzip and the OpenAPI loader are parameters.
\<close>

section \<open>encoding/base64\<close>

type_synonym octets = "nat list"

definition b64_alphabet :: string where
  "b64_alphabet = ''ABCDEFGHIJKLMNOPQRSTUVWXYZabcdefghijklmnopqrstuvwxyz0123456789+/''"

fun index_of :: "'a \<Rightarrow> 'a list \<Rightarrow> nat option" where
  "index_of x [] = None"
| "index_of x (y # ys) = (if x = y then Some 0 else map_option Suc (index_of x ys))"

definition b64_value :: "char \<Rightarrow> nat option" where
  "b64_value c = index_of c b64_alphabet"

definition is_newline :: "char \<Rightarrow> bool" where
  "is_newline c \<longleftrightarrow> c = CHR 0x0A \<or> c = CHR 0x0D"

definition CorruptInputError :: "nat \<Rightarrow> goerr" where
  "CorruptInputError n = GoErr (''illegal base64 data at input byte '' @ nat_str n)"

text \<open>The bytes of a quantum of two, three or four 6-bit values.\<close>

fun quantum :: "nat list \<Rightarrow> octets" where
  "quantum [a, b] = [a * 4 + b div 16]"
| "quantum [a, b, c] = [a * 4 + b div 16, (b mod 16) * 16 + c div 4]"
| "quantum [a, b, c, d] = [a * 4 + b div 16, (b mod 16) * 16 + c div 4, (c mod 4) * 64 + d]"
| "quantum _ = []"

text \<open>
  \<open>decode si q src\<close>: the values \<open>q\<close> of the current quantum are read, \<open>si\<close> is the position of \<open>src\<close> in the
  input.  Newlines are skipped; the first padding character must be the third or the fourth of its
  quantum, the third is followed by another, and nothing but newlines follows the padding.
\<close>

fun b64_end :: "nat \<Rightarrow> string \<Rightarrow> octets \<Rightarrow> goerr + octets" where
  "b64_end si [] bs = Inr bs"
| "b64_end si (c # src) bs = (if is_newline c then b64_end (Suc si) src bs else Inl (CorruptInputError si))"

fun b64_pad :: "nat \<Rightarrow> string \<Rightarrow> octets \<Rightarrow> goerr + octets" where
  "b64_pad si [] bs = Inl (CorruptInputError si)"
| "b64_pad si (c # src) bs =
     (if is_newline c then b64_pad (Suc si) src bs
      else if c = CHR ''='' then b64_end (Suc si) src bs
      else Inl (CorruptInputError (si - 1)))"

fun b64_decode :: "nat \<Rightarrow> nat list \<Rightarrow> string \<Rightarrow> goerr + octets" where
  "b64_decode si q [] = (if q = [] then Inr [] else Inl (CorruptInputError (si - length q)))"
| "b64_decode si q (c # src) =
     (case b64_value c of
        Some v \<Rightarrow>
          if length q = 3 then map_sum id (append (quantum (q @ [v]))) (b64_decode (Suc si) [] src)
          else b64_decode (Suc si) (q @ [v]) src
      | None \<Rightarrow>
          if is_newline c then b64_decode (Suc si) q src
          else if c \<noteq> CHR ''='' \<or> length q < 2 then Inl (CorruptInputError si)
          else if length q = 2 then b64_pad (Suc si) src (quantum q)
          else b64_end (Suc si) src (quantum q))"

definition DecodeString :: "string \<Rightarrow> goerr + octets" where
  "DecodeString s = b64_decode 0 [] s"

section \<open>The documents\<close>

text \<open>\<open>sl_Read\<close>: reading what \<open>gzip.NewReader\<close> returns to its end; \<open>sl_Load\<close>: \<open>LoadFromData\<close> with the function
  that reads other documents.\<close>

record 'spec swagger_lib =
  sl_NewReader :: "octets \<Rightarrow> goerr + octets"
  sl_ReadFrom :: "octets \<Rightarrow> goerr + octets"
  sl_Clean :: "string \<Rightarrow> string"
  sl_Load :: "(string \<Rightarrow> goerr + octets) \<Rightarrow> octets \<Rightarrow> goerr + 'spec"

definition decodeSpec :: "'spec swagger_lib \<Rightarrow> string list \<Rightarrow> goerr + octets" where
  "decodeSpec L swaggerSpec =
     (case DecodeString (concat swaggerSpec) of
        Inl err \<Rightarrow> Inl (errorf ''error base64 decoding spec: '' err)
      | Inr zipped \<Rightarrow>
          (case sl_NewReader L zipped of
             Inl err \<Rightarrow> Inl (errorf ''error decompressing spec: '' err)
           | Inr zr \<Rightarrow>
               (case sl_ReadFrom L zr of
                  Inl err \<Rightarrow> Inl (errorf ''error decompressing spec: '' err)
                | Inr buf \<Rightarrow> Inr buf)))"

definition PathToRawSpec :: "(goerr + octets) \<Rightarrow> string \<Rightarrow> string \<rightharpoonup> goerr + octets" where
  "PathToRawSpec rawSpec pathToFile = (if length pathToFile > 0 then [pathToFile \<mapsto> rawSpec] else Map.empty)"

definition ReadFromURIFunc :: "'spec swagger_lib \<Rightarrow> (string \<rightharpoonup> goerr + octets) \<Rightarrow> string \<Rightarrow> goerr + octets" where
  "ReadFromURIFunc L resolvePath url =
     (case resolvePath (sl_Clean L url) of
        None \<Rightarrow> Inl (GoErr (''path not found: '' @ sl_Clean L url))
      | Some spec \<Rightarrow> spec)"

definition GetSwagger :: "'spec swagger_lib \<Rightarrow> string list \<Rightarrow> goerr + 'spec" where
  "GetSwagger L swaggerSpec =
     (let rawSpec = decodeSpec L swaggerSpec; resolvePath = PathToRawSpec rawSpec [] in
      case rawSpec of
        Inl err \<Rightarrow> Inl err
      | Inr specData \<Rightarrow> sl_Load L (ReadFromURIFunc L resolvePath) specData)"

section \<open>Lemmas\<close>

text \<open>The encoder of the generator: what it embeds is read back, however it is cut into lines.\<close>

definition b64_char :: "nat \<Rightarrow> char" where
  "b64_char n = b64_alphabet ! n"

fun b64_encode :: "octets \<Rightarrow> string" where
  "b64_encode [] = []"
| "b64_encode [a] = [b64_char (a div 4), b64_char ((a mod 4) * 16), CHR ''='', CHR ''='']"
| "b64_encode [a, b] = [b64_char (a div 4), b64_char ((a mod 4) * 16 + b div 16), b64_char ((b mod 16) * 4), CHR ''='']"
| "b64_encode (a # b # c # bs) =
     [b64_char (a div 4), b64_char ((a mod 4) * 16 + b div 16), b64_char ((b mod 16) * 4 + c div 64), b64_char (c mod 64)] @ b64_encode bs"

lemma b64_values: "list_all (\<lambda>n. b64_value (b64_char n) = Some n) [0..<64]"
  by code_simp

lemma b64_value_char [simp]: "n < 64 \<Longrightarrow> b64_value (b64_char n) = Some n"
  using b64_values by (simp add: list_all_iff)

lemma b64_value_pad [simp]: "b64_value (CHR ''='') = None" "\<not> is_newline (CHR ''='')"
  by (code_simp, simp add: is_newline_def)

lemma b64_roundtrip: "list_all (\<lambda>b. b < 256) bs \<Longrightarrow> b64_decode si [] (b64_encode bs) = Inr bs"
proof (induction bs arbitrary: si rule: b64_encode.induct)
  case (4 a b c bs)
  then have lt: "a div 4 < 64" "(a mod 4) * 16 + b div 16 < 64" "(b mod 16) * 4 + c div 64 < 64" "c mod 64 < 64" by auto
  have "quantum [a div 4, (a mod 4) * 16 + b div 16, (b mod 16) * 4 + c div 64, c mod 64] = [a, b, c]"
  proof -
    have "b div 16 < 16" "c div 64 < 4" using "4.prems" by auto
    then show ?thesis by simp
  qed
  with lt 4 show ?case by simp
next
  case (3 a b)
  then have "b div 16 < 16" "a div 4 < 64" "(a mod 4) * 16 + b div 16 < 64" by auto
  moreover from this have "((a mod 4) * 16 + b div 16) mod 16 = b div 16" by simp
  moreover have "(b mod 16) * 4 < 64" by simp
  ultimately show ?case by simp
qed simp_all

text \<open>So a document is read exactly as it was embedded, and none can refer to another file.\<close>

lemma GetSwagger_reads_embedded:
  assumes "concat swaggerSpec = b64_encode zipped" and "list_all (\<lambda>b. b < 256) zipped"
    and "sl_NewReader L zipped = Inr zr" and "sl_ReadFrom L zr = Inr document"
  shows "GetSwagger L swaggerSpec = sl_Load L (\<lambda>url. Inl (GoErr (''path not found: '' @ sl_Clean L url))) document"
proof -
  have "ReadFromURIFunc L Map.empty = (\<lambda>url. Inl (GoErr (''path not found: '' @ sl_Clean L url)))"
    by (simp add: ReadFromURIFunc_def fun_eq_iff)
  with assms show ?thesis
    by (simp add: GetSwagger_def decodeSpec_def DecodeString_def b64_roundtrip PathToRawSpec_def Let_def)
qed

end
