(* ===== verification/Wiring.thy ===== *)
theory Wiring imports Main begin

text \<open>
  How the services are put together: the constructors that each \<open>main\<close> gives to the fx container, with
  the types they give and need (their \<open>Params\<close> structures), and the functions it has invoked.  The
  container itself is not part of the source: an order in which it may call them is any order with what
  it documents (\<open>fx_order\<close>).
\<close>

named_theorems wiring

section \<open>Applications\<close>

text \<open>
  A parameter is a type of which there must be one, or a group, which collects what any number of
  constructors give to it.  A private constructor is seen in its module only.
\<close>

datatype dep = One string | Group string

record fx_func =
  fn_name :: string
  fn_gives :: "string list"
  fn_needs :: "dep list"
  fn_module :: string
  fn_private :: bool

record application =
  ap_provides :: "fx_func list"
  ap_invokes :: "fx_func list"

definition func :: "string \<Rightarrow> string list \<Rightarrow> dep list \<Rightarrow> fx_func" where
  "func name gives needs = \<lparr>fn_name = name, fn_gives = gives, fn_needs = needs, fn_module = ''main'', fn_private = False\<rparr>"

definition in_module :: "string \<Rightarrow> fx_func list \<Rightarrow> fx_func list" where
  "in_module m = map (\<lambda>f. f\<lparr>fn_module := m\<rparr>)"

definition private_in :: "string \<Rightarrow> fx_func list \<Rightarrow> fx_func list" where
  "private_in m = map (\<lambda>f. f\<lparr>fn_module := m, fn_private := True\<rparr>)"

definition ap_funcs :: "application \<Rightarrow> fx_func list" where
  "ap_funcs app = ap_provides app @ ap_invokes app"

text \<open>The container gives the lifecycle to every function.\<close>

fun suppliers :: "application \<Rightarrow> fx_func \<Rightarrow> dep \<Rightarrow> fx_func list" where
  "suppliers app f (One t) =
     filter (\<lambda>p. t \<in> set (fn_gives p) \<and> (fn_private p \<longrightarrow> fn_module p = fn_module f)) (ap_provides app)"
| "suppliers app f (Group g) = filter (\<lambda>p. g \<in> set (fn_gives p)) (ap_provides app)"

definition requires :: "application \<Rightarrow> fx_func \<Rightarrow> fx_func list" where
  "requires app f = concat (map (suppliers app f) (fn_needs f))"

text \<open>By name: what a function requires, directly and in turn, and orders in which all is there in time.\<close>

definition requires_names :: "application \<Rightarrow> string \<Rightarrow> string list" where
  "requires_names app x = (case find (\<lambda>f. fn_name f = x) (ap_funcs app) of
     None \<Rightarrow> [] | Some f \<Rightarrow> map fn_name (requires app f))"

fun upstream :: "nat \<Rightarrow> application \<Rightarrow> string \<Rightarrow> string list" where
  "upstream 0 app x = []"
| "upstream (Suc n) app x = (let ys = requires_names app x in ys @ concat (map (upstream n app) ys))"

fun built :: "application \<Rightarrow> string list \<Rightarrow> string list \<Rightarrow> bool" where
  "built app seen [] = True"
| "built app seen (x # xs) = (list_all (\<lambda>y. y \<in> set seen) (requires_names app x) \<and> built app (x # seen) xs)"

text \<open>
  An application is wired when names are unique, every function finds exactly one constructor for each of
  its parameters, and there is an order of all functions in which no parameter is missing: none needs
  itself in turn.
\<close>

definition one_supplier :: "application \<Rightarrow> fx_func \<Rightarrow> dep \<Rightarrow> bool" where
  "one_supplier app f d = (case d of One t \<Rightarrow> length (suppliers app f d) = 1 | Group g \<Rightarrow> True)"

definition wired :: "application \<Rightarrow> bool" where
  "wired app \<longleftrightarrow> distinct (map fn_name (ap_funcs app))
   \<and> list_all (\<lambda>f. list_all (one_supplier app f) (fn_needs f)) (ap_funcs app)
   \<and> (\<exists>order. set order = set (map fn_name (ap_funcs app)) \<and> built app [] order)"

text \<open>
  What fx documents: the invoked functions are called in order, each after the constructors that it needs
  and that were not called yet; a constructor is called once, after those it needs itself.  A run lists,
  for each invoked function, the constructors called for it.
\<close>

definition run_calls :: "(string list \<times> string) list \<Rightarrow> string list" where
  "run_calls run = concat (map (\<lambda>(cs, f). cs @ [f]) run)"

definition fx_run :: "application \<Rightarrow> (string list \<times> string) list \<Rightarrow> bool" where
  "fx_run app run \<longleftrightarrow> map snd run = map fn_name (ap_invokes app) \<and> distinct (run_calls run) \<and> built app [] (run_calls run)
   \<and> list_all (\<lambda>(cs, f). list_all (\<lambda>c. c \<in> set (upstream (length (ap_provides app)) app f)) cs) run"

section \<open>The applications\<close>

text \<open>\<open>services/identity/main.go\<close>, the lifecycle left out of the parameters.\<close>

definition identity_main :: application where
  "identity_main = \<lparr>
     ap_provides = [
       func ''GetRouter'' [''*chi.Mux''] [],
       func ''GetRouter as http.Handler'' [''http.Handler''] [],
       func ''NewDatabaseConfig'' [''*DatabaseConfig''] [],
       func ''WithDatabaseConnection'' [''*sql.DB''] [One ''*DatabaseConfig''],
       func ''WithOpenAPI3FilterOptions'' [''openapi3filter.Options''] [],
       func ''NewPrivateKeyRepositroy'' [''*PrivateKeyRepository''] [One ''*sql.DB''],
       func ''NewUserRepository'' [''*UserRepository''] [One ''*sql.DB''],
       func ''NewSecurityService'' [''*SecurityServiceImpl'']
         [One ''*RefreshTokenRepository'', One ''*PrivateKeyRepository'', One ''*UserRepository''],
       func ''NewRefreshTokenRepository'' [''*RefreshTokenRepository''] [One ''*sql.DB''],
       func ''NewUserService'' [''*UserServiceImpl'']
         [One ''*PrivateKeyRepository'', One ''*UserRepository'', One ''*SecurityServiceImpl'',
          One ''*RefreshTokenRepository'', One ''*sql.DB''],
       func ''NewHTTPConfig'' [''*HTTPConfig''] [],
       func ''NewHTTPServer'' [''*http.Server''] [One ''*HTTPConfig'', One ''http.Handler''],
       func ''NewPublicKeyListInterceptor'' [''grpc.ServerOption''] [],
       func ''NewGRPConfig'' [''*GRPCConfig''] [],
       func ''NewGRPCServer'' [''*grpc.Server''] [One ''*GRPCConfig'', Group ''grpc.ServerOption'']],
     ap_invokes = [
       func ''NewIdentityHandler'' []
         [One ''*PrivateKeyRepository'', One ''*UserRepository'', One ''*SecurityServiceImpl'', One ''*UserServiceImpl'',
          One ''*sql.DB'', One ''*chi.Mux'', One ''openapi3filter.Options''],
       func ''NewPublicKeyGRPCService'' [] [One ''*grpc.Server'', One ''*SecurityServiceImpl''],
       func ''func(*http.Server)'' [] [One ''*http.Server'']]\<rparr>"

text \<open>\<open>services/stream/main.go\<close> with the modules of \<open>pkg/service\<close>.\<close>

definition stream_ServerModule :: "fx_func list" where
  "stream_ServerModule = in_module ''server'' [
     func ''Router'' [''*chi.Mux''] [],
     func ''Router as http.Handler'' [''http.Handler''] [],
     func ''NewStreamHttpConfig'' [''*StreamHttpConfig''] []]"

definition stream_OpenapiModule :: "fx_func list" where
  "stream_OpenapiModule = private_in ''openapi'' [
     func ''NewPublicKeyClientConfig'' [''*PublicKeyClientConfig''] [],
     func ''NewPublicKeyClient'' [''PublicKeyServiceClient''] [One ''*PublicKeyClientConfig''],
     func ''NewAsymmetricEncryptionAuthenticator'' [''openapi3filter.AuthenticationFunc''] [One ''IdentityPublicKeyResolver''],
     func ''NewOpenAPI3FilterOptions'' [''openapi3filter.Options''] [One ''openapi3filter.AuthenticationFunc'']]
   @ in_module ''openapi'' [
     func ''NewIdentityPublicKeyResolver'' [''IdentityPublicKeyResolver''] [One ''PublicKeyServiceClient''],
     func ''NewSpecOptionsHandlerConstructor'' [''HandlerSpecValidator''] [One ''openapi3filter.Options'']]"

definition stream_StreamSystemModule :: "fx_func list" where
  "stream_StreamSystemModule = in_module ''system'' [func ''NewStreamSystemConfig'' [''*StreamSystemConfig''] []]"

definition stream_main :: application where
  "stream_main = \<lparr>
     ap_provides = stream_ServerModule @ stream_OpenapiModule @ stream_StreamSystemModule @ [
       func ''NewStreaminServiceHandler'' [''http.handler'']
         [One ''HandlerSpecValidator'', One ''*StreamStatus'', One ''*RefreshTokenAuthenticator'', One ''*nats.Conn'', One ''*StreamService''],
       func ''NewStreamChannelsServiceHandler'' [''http.handler''] [One ''HandlerSpecValidator'', One ''*StreamChannelsService''],
       func ''WithRefreshTokenAuthenticator'' [''*RefreshTokenAuthenticator''] [One ''IdentityPublicKeyResolver''],
       func ''NewIngestOperatorConfig'' [''*IngestOperatorConfig''] [],
       func ''WithIngestOperatorClient'' [''IngestControllerServiceClient'']
         [One ''nats.JetStreamContext'', One ''*nats.Conn'', One ''*StreamSystemConfig'', One ''*IngestOperatorConfig''],
       func ''WithDatabaseConnection'' [''*sql.DB''] [One ''*DatabaseConfig''],
       func ''NewNatsConfig'' [''*NatsConfig''] [],
       func ''WithNatsConnection'' [''*nats.Conn''] [One ''*NatsConfig''],
       func ''NewNatsJetstream'' [''nats.JetStreamContext''] [One ''*nats.Conn''],
       func ''NewStreamChannelsService'' [''*StreamChannelsService''] [One ''*ActiveStreamRepository'', One ''*StreamSystemConfig''],
       func ''NewActiveStreamRepository'' [''*ActiveStreamRepository''] [One ''*sql.DB''],
       func ''NewStreamEgressRepository'' [''*StreamEgressRepository''] [One ''*sql.DB''],
       func ''NewStreamStatus'' [''*StreamStatus''] [One ''*ActiveStreamRepository''],
       func ''NewStreamService'' [''*StreamService'']
         [One ''IngestControllerServiceClient'', One ''*StreamSystemConfig'', One ''*ActiveStreamRepository''],
       func ''NewDatabaseConfig'' [''*DatabaseConfig''] []],
     ap_invokes = [
       func ''StartStreamHttp'' [] [One ''*StreamHttpConfig'', One ''*chi.Mux'', Group ''http.handler''],
       func ''StartIngestStatusWorker'' []
         [One ''*sql.DB'', One ''*nats.Conn'', One ''*ActiveStreamRepository'', One ''*StreamEgressRepository''],
       func ''StartIngestDestroyedWorker'' [] [One ''*nats.Conn'', One ''*ActiveStreamRepository'', One ''nats.JetStreamContext'']]\<rparr>"

text \<open>\<open>operators/ingestion-operator/cmd/main.go\<close>.\<close>

definition operator_main :: application where
  "operator_main = \<lparr>
     ap_provides = [
       func ''NewZaprOptions'' [''*zap.Options''] [],
       func ''NewZaprLogger'' [''*zap.Logger''] [One ''*zap.Options''],
       func ''NewLogrLogger'' [''logr.Logger''] [One ''*zap.Logger''],
       func ''NewLoggerInterceptor'' [''grpc.ServerOption''] [One ''*zap.Logger''],
       func ''NewManagerOptions'' [''ctrl.Options''] [],
       func ''NewManager'' [''manager.Manager''] [One ''ctrl.Options'', One ''logr.Logger''],
       func ''NewK8sClient'' [''client.Client''] [One ''manager.Manager''],
       func ''NewGRPCServer'' [''*grpc.Server''] [One ''client.Client'', One ''*zap.Logger'', Group ''grpc.ServerOption''],
       func ''NewGRPCRunnable'' [''*GRPCRunnable''] [One ''client.Client'', One ''logr.Logger'', One ''*grpc.Server''],
       func ''NewNatsConfig'' [''*NatsConfig''] [],
       func ''NewNatsConnection'' [''*nats.Conn''] [One ''*NatsConfig''],
       func ''NewNatsJetstream'' [''nats.JetStreamContext''] [One ''*nats.Conn''],
       func ''NewIngestOperatorConfig'' [''*IngestOperatorConfig''] [],
       func ''NewPortRange'' [''*portrange.PortRange''] [One ''*IngestOperatorConfig''],
       func ''NewIstioResourceManager'' [''*IstioResourceManager''] [One ''client.Client''],
       func ''NewIngestResourceManager'' [''*IngestResourceManager''] [One ''client.Client''],
       func ''NewIngestSystem'' [''*IngestSystem'']
         [One ''client.Client'', One ''*IngestResourceManager'', One ''*IstioResourceManager'', One ''nats.JetStreamContext'',
          One ''logr.Logger'', One ''*portrange.PortRange''],
       func ''NewIngestControllerService'' [''*IngestControllerService'']
         [One ''logr.Logger'', One ''client.Client'', One ''*IngestResourceManager'', One ''*IstioResourceManager'', One ''*IngestSystem'']],
     ap_invokes = [
       func ''NewIngestController'' [] [One ''manager.Manager'', One ''*IngestSystem'', One ''logr.Logger''],
       func ''func(*zap.Options)'' [] [One ''*zap.Options''],
       func ''func(logr.Logger)'' [] [One ''logr.Logger''],
       func ''RegisterIngestionControllerService'' [] [One ''client.Client'', One ''*grpc.Server'', One ''*IngestControllerService''],
       func ''func(fx.Lifecycle, ctrl.Manager, *GRPCRunnable)'' [] [One ''manager.Manager'', One ''*GRPCRunnable'']]\<rparr>"

text \<open>\<open>services/ingest/cmd/ingest/main.go\<close> with the modules of \<open>pkg/service\<close>.\<close>

definition ingest_NatsModule :: "fx_func list" where
  "ingest_NatsModule = in_module ''nats'' [
     func ''NewNatsConfig'' [''*NatsConfig''] [],
     func ''NewNatsConnection'' [''*nats.Conn''] [One ''*NatsConfig'']]"

definition ingest_ServerModule :: "fx_func list" where
  "ingest_ServerModule = in_module ''server'' [
     func ''NewIngestWebrtcConfig'' [''*IngestWebrtcConfig''] [],
     func ''NewIngestHttpConfig'' [''*IngestHttpConfig''] [],
     func ''NewRouter'' [''http.Handler''] [],
     func ''NewIngestWebrtcAPI'' [''*webrtc.API''] [One ''*IngestWebrtcConfig'']]"

definition ingest_main :: application where
  "ingest_main = \<lparr>
     ap_provides = ingest_NatsModule @ ingest_ServerModule
       @ in_module ''system'' [func ''NewIngestSystemConfig'' [''*IngestSystemConfig''] []] @ [
       func ''NewWebrtcAllocatorFunc'' [''WebrtcAllocatorFunc''] [One ''mediaprocessor.hls.default''],
       func ''NewStatefulStreamGlobal'' [''*StatefulStreamGlobal''] [One ''*shutdown.Shutdown'', One ''WebrtcAllocatorFunc''],
       func ''NewWhipHandler'' [''http.handler''] [One ''*webrtc.API'', One ''*IngestSystemConfig'', One ''*StatefulStreamGlobal''],
       func ''NewWhepHandler'' [''http.handler''] [One ''*webrtc.API'', One ''*StatefulStreamGlobal''],
       func ''NewHLSHandler'' [''http.handler''] [One ''mediaprocessor.hls.default''],
       func ''NewFFmpegHLSMediaProcessor'' [''mediaprocessor.hls.default''] [],
       func ''func() *shutdown.Shutdown'' [''*shutdown.Shutdown''] []],
     ap_invokes = in_module ''system'' [
       func ''StartIngestHttp'' [] [One ''*IngestHttpConfig'', One ''http.Handler'', Group ''http.handler''],
       func ''StartIngestWebrtc'' [] [One ''*webrtc.API'']]\<rparr>"

section \<open>What each function requires\<close>

lemma identity_requires [wiring]:
  "requires_names identity_main ''GetRouter'' = []"
  "requires_names identity_main ''GetRouter as http.Handler'' = []"
  "requires_names identity_main ''NewDatabaseConfig'' = []"
  "requires_names identity_main ''WithDatabaseConnection'' = [''NewDatabaseConfig'']"
  "requires_names identity_main ''WithOpenAPI3FilterOptions'' = []"
  "requires_names identity_main ''NewPrivateKeyRepositroy'' = [''WithDatabaseConnection'']"
  "requires_names identity_main ''NewUserRepository'' = [''WithDatabaseConnection'']"
  "requires_names identity_main ''NewSecurityService'' = [''NewRefreshTokenRepository'', ''NewPrivateKeyRepositroy'', ''NewUserRepository'']"
  "requires_names identity_main ''NewRefreshTokenRepository'' = [''WithDatabaseConnection'']"
  "requires_names identity_main ''NewUserService'' = [''NewPrivateKeyRepositroy'', ''NewUserRepository'', ''NewSecurityService'', ''NewRefreshTokenRepository'', ''WithDatabaseConnection'']"
  "requires_names identity_main ''NewHTTPConfig'' = []"
  "requires_names identity_main ''NewHTTPServer'' = [''NewHTTPConfig'', ''GetRouter as http.Handler'']"
  "requires_names identity_main ''NewPublicKeyListInterceptor'' = []"
  "requires_names identity_main ''NewGRPConfig'' = []"
  "requires_names identity_main ''NewGRPCServer'' = [''NewGRPConfig'', ''NewPublicKeyListInterceptor'']"
  "requires_names identity_main ''NewIdentityHandler'' = [''NewPrivateKeyRepositroy'', ''NewUserRepository'', ''NewSecurityService'', ''NewUserService'', ''WithDatabaseConnection'', ''GetRouter'', ''WithOpenAPI3FilterOptions'']"
  "requires_names identity_main ''NewPublicKeyGRPCService'' = [''NewGRPCServer'', ''NewSecurityService'']"
  "requires_names identity_main ''func(*http.Server)'' = [''NewHTTPServer'']"
  by code_simp+

lemma stream_requires [wiring]:
  "requires_names stream_main ''Router'' = []"
  "requires_names stream_main ''Router as http.Handler'' = []"
  "requires_names stream_main ''NewStreamHttpConfig'' = []"
  "requires_names stream_main ''NewPublicKeyClientConfig'' = []"
  "requires_names stream_main ''NewPublicKeyClient'' = [''NewPublicKeyClientConfig'']"
  "requires_names stream_main ''NewAsymmetricEncryptionAuthenticator'' = [''NewIdentityPublicKeyResolver'']"
  "requires_names stream_main ''NewOpenAPI3FilterOptions'' = [''NewAsymmetricEncryptionAuthenticator'']"
  "requires_names stream_main ''NewIdentityPublicKeyResolver'' = [''NewPublicKeyClient'']"
  "requires_names stream_main ''NewSpecOptionsHandlerConstructor'' = [''NewOpenAPI3FilterOptions'']"
  "requires_names stream_main ''NewStreamSystemConfig'' = []"
  "requires_names stream_main ''NewStreaminServiceHandler'' = [''NewSpecOptionsHandlerConstructor'', ''NewStreamStatus'', ''WithRefreshTokenAuthenticator'', ''WithNatsConnection'', ''NewStreamService'']"
  "requires_names stream_main ''NewStreamChannelsServiceHandler'' = [''NewSpecOptionsHandlerConstructor'', ''NewStreamChannelsService'']"
  "requires_names stream_main ''WithRefreshTokenAuthenticator'' = [''NewIdentityPublicKeyResolver'']"
  "requires_names stream_main ''NewIngestOperatorConfig'' = []"
  "requires_names stream_main ''WithIngestOperatorClient'' = [''NewNatsJetstream'', ''WithNatsConnection'', ''NewStreamSystemConfig'', ''NewIngestOperatorConfig'']"
  "requires_names stream_main ''WithDatabaseConnection'' = [''NewDatabaseConfig'']"
  "requires_names stream_main ''NewNatsConfig'' = []"
  "requires_names stream_main ''WithNatsConnection'' = [''NewNatsConfig'']"
  "requires_names stream_main ''NewNatsJetstream'' = [''WithNatsConnection'']"
  "requires_names stream_main ''NewStreamChannelsService'' = [''NewActiveStreamRepository'', ''NewStreamSystemConfig'']"
  "requires_names stream_main ''NewActiveStreamRepository'' = [''WithDatabaseConnection'']"
  "requires_names stream_main ''NewStreamEgressRepository'' = [''WithDatabaseConnection'']"
  "requires_names stream_main ''NewStreamStatus'' = [''NewActiveStreamRepository'']"
  "requires_names stream_main ''NewStreamService'' = [''WithIngestOperatorClient'', ''NewStreamSystemConfig'', ''NewActiveStreamRepository'']"
  "requires_names stream_main ''NewDatabaseConfig'' = []"
  "requires_names stream_main ''StartStreamHttp'' = [''NewStreamHttpConfig'', ''Router'', ''NewStreaminServiceHandler'', ''NewStreamChannelsServiceHandler'']"
  "requires_names stream_main ''StartIngestStatusWorker'' = [''WithDatabaseConnection'', ''WithNatsConnection'', ''NewActiveStreamRepository'', ''NewStreamEgressRepository'']"
  "requires_names stream_main ''StartIngestDestroyedWorker'' = [''WithNatsConnection'', ''NewActiveStreamRepository'', ''NewNatsJetstream'']"
  by code_simp+

lemma operator_requires [wiring]:
  "requires_names operator_main ''NewZaprOptions'' = []"
  "requires_names operator_main ''NewZaprLogger'' = [''NewZaprOptions'']"
  "requires_names operator_main ''NewLogrLogger'' = [''NewZaprLogger'']"
  "requires_names operator_main ''NewLoggerInterceptor'' = [''NewZaprLogger'']"
  "requires_names operator_main ''NewManagerOptions'' = []"
  "requires_names operator_main ''NewManager'' = [''NewManagerOptions'', ''NewLogrLogger'']"
  "requires_names operator_main ''NewK8sClient'' = [''NewManager'']"
  "requires_names operator_main ''NewGRPCServer'' = [''NewK8sClient'', ''NewZaprLogger'', ''NewLoggerInterceptor'']"
  "requires_names operator_main ''NewGRPCRunnable'' = [''NewK8sClient'', ''NewLogrLogger'', ''NewGRPCServer'']"
  "requires_names operator_main ''NewNatsConfig'' = []"
  "requires_names operator_main ''NewNatsConnection'' = [''NewNatsConfig'']"
  "requires_names operator_main ''NewNatsJetstream'' = [''NewNatsConnection'']"
  "requires_names operator_main ''NewIngestOperatorConfig'' = []"
  "requires_names operator_main ''NewPortRange'' = [''NewIngestOperatorConfig'']"
  "requires_names operator_main ''NewIstioResourceManager'' = [''NewK8sClient'']"
  "requires_names operator_main ''NewIngestResourceManager'' = [''NewK8sClient'']"
  "requires_names operator_main ''NewIngestSystem'' = [''NewK8sClient'', ''NewIngestResourceManager'', ''NewIstioResourceManager'', ''NewNatsJetstream'', ''NewLogrLogger'', ''NewPortRange'']"
  "requires_names operator_main ''NewIngestControllerService'' = [''NewLogrLogger'', ''NewK8sClient'', ''NewIngestResourceManager'', ''NewIstioResourceManager'', ''NewIngestSystem'']"
  "requires_names operator_main ''NewIngestController'' = [''NewManager'', ''NewIngestSystem'', ''NewLogrLogger'']"
  "requires_names operator_main ''func(*zap.Options)'' = [''NewZaprOptions'']"
  "requires_names operator_main ''func(logr.Logger)'' = [''NewLogrLogger'']"
  "requires_names operator_main ''RegisterIngestionControllerService'' = [''NewK8sClient'', ''NewGRPCServer'', ''NewIngestControllerService'']"
  "requires_names operator_main ''func(fx.Lifecycle, ctrl.Manager, *GRPCRunnable)'' = [''NewManager'', ''NewGRPCRunnable'']"
  by code_simp+

lemma ingest_requires [wiring]:
  "requires_names ingest_main ''NewNatsConfig'' = []"
  "requires_names ingest_main ''NewNatsConnection'' = [''NewNatsConfig'']"
  "requires_names ingest_main ''NewIngestWebrtcConfig'' = []"
  "requires_names ingest_main ''NewIngestHttpConfig'' = []"
  "requires_names ingest_main ''NewRouter'' = []"
  "requires_names ingest_main ''NewIngestWebrtcAPI'' = [''NewIngestWebrtcConfig'']"
  "requires_names ingest_main ''NewIngestSystemConfig'' = []"
  "requires_names ingest_main ''NewWebrtcAllocatorFunc'' = [''NewFFmpegHLSMediaProcessor'']"
  "requires_names ingest_main ''NewStatefulStreamGlobal'' = [''func() *shutdown.Shutdown'', ''NewWebrtcAllocatorFunc'']"
  "requires_names ingest_main ''NewWhipHandler'' = [''NewIngestWebrtcAPI'', ''NewIngestSystemConfig'', ''NewStatefulStreamGlobal'']"
  "requires_names ingest_main ''NewWhepHandler'' = [''NewIngestWebrtcAPI'', ''NewStatefulStreamGlobal'']"
  "requires_names ingest_main ''NewHLSHandler'' = [''NewFFmpegHLSMediaProcessor'']"
  "requires_names ingest_main ''NewFFmpegHLSMediaProcessor'' = []"
  "requires_names ingest_main ''func() *shutdown.Shutdown'' = []"
  "requires_names ingest_main ''StartIngestHttp'' = [''NewIngestHttpConfig'', ''NewRouter'', ''NewWhipHandler'', ''NewWhepHandler'', ''NewHLSHandler'']"
  "requires_names ingest_main ''StartIngestWebrtc'' = [''NewIngestWebrtcAPI'']"
  by code_simp+

section \<open>Lemmas\<close>

lemma built_append: "built app seen (xs @ ys) \<longleftrightarrow> built app seen xs \<and> built app (rev xs @ seen) ys"
  by (induction xs arbitrary: seen) auto

lemma built_requires:
  assumes "built app [] (xs @ y # ys)"
  shows "set (requires_names app y) \<subseteq> set xs"
  using assms by (auto simp: built_append list_all_iff)

text \<open>All that a function needs in turn is called before it.\<close>

lemma built_upstream:
  "built app [] (xs @ y # ys) \<Longrightarrow> set (upstream n app y) \<subseteq> set xs"
proof (induction n arbitrary: xs y ys)
  case (Suc n)
  note req = built_requires [OF Suc.prems]
  have "set (upstream n app r) \<subseteq> set xs" if "r \<in> set (requires_names app y)" for r
  proof -
    from that req obtain as bs where xs: "xs = as @ r # bs" by (meson split_list subsetD)
    with Suc.prems have "built app [] (as @ r # (bs @ y # ys))" by simp
    from Suc.IH [OF this] show ?thesis by (auto simp: xs)
  qed
  with req show ?case by (auto simp: Let_def)
qed simp

lemma upstream_closed:
  assumes "\<And>y. y \<in> S \<Longrightarrow> set (requires_names app y) \<subseteq> S"
  shows "set (requires_names app x) \<subseteq> S \<Longrightarrow> set (upstream n app x) \<subseteq> S"
proof (induction n arbitrary: x)
  case (Suc n)
  have "set (upstream n app y) \<subseteq> S" if "y \<in> S" for y by (rule Suc.IH) (rule assms [OF that])
  with Suc.prems show ?case by (auto simp: Let_def)
qed simp

end
