(* ===== verification/Boot.thy ===== *)
theory Boot imports StreamRouting Wiring begin

text \<open>
  The start of the services: what the constructors and the invoked functions of \<open>Wiring\<close> do, in any order
  in which fx may call them.  What the libraries' calls return is an argument.  A \<open>log.Panic\<close>, a \<open>panic\<close>
  and an \<open>os.Exit(1)\<close> are the panic outcome.
\<close>

fun boot :: "(string \<Rightarrow> 'p \<Rightarrow> 'p outcome) \<Rightarrow> string list \<Rightarrow> 'p \<Rightarrow> 'p outcome" where
  "boot call [] p = Ret p"
| "boot call (x # xs) p = (case call x p of Panic m \<Rightarrow> Panic m | Ret p1 \<Rightarrow> boot call xs p1)"

definition os_Exit :: "'p outcome" where
  "os_Exit = Panic ''exit status 1''"

section \<open>Calls in order\<close>

lemma boot_append: "boot call (xs @ ys) p = (case boot call xs p of Panic m \<Rightarrow> Panic m | Ret p1 \<Rightarrow> boot call ys p1)"
  by (induction xs arbitrary: p) (auto split: outcome.split)

text \<open>What a call brings about and no call undoes holds after it, and only after it.\<close>

lemma boot_keeps:
  assumes "boot call xs p = Ret p'" and "P p" and "\<And>y q q'. P q \<Longrightarrow> call y q = Ret q' \<Longrightarrow> P q'"
  shows "P p'"
  using assms(1,2)
proof (induction xs arbitrary: p)
  case (Cons x xs)
  then show ?case using assms(3) by (auto split: outcome.splits)
qed simp

lemma boot_brings:
  assumes "boot call xs p = Ret p'" and "x \<in> set xs" and "\<And>q q'. call x q = Ret q' \<Longrightarrow> P q'"
    and "\<And>y q q'. P q \<Longrightarrow> call y q = Ret q' \<Longrightarrow> P q'"
  shows "P p'"
proof -
  from assms(2) obtain as bs where xs: "xs = as @ x # bs" by (meson split_list)
  from assms(1) obtain q q' where "call x q = Ret q'" "boot call bs q' = Ret p'"
    unfolding xs boot_append by (auto split: outcome.splits)
  then show ?thesis using boot_keeps [of call bs q' p' P] assms(3,4) by blast
qed

lemma boot_only:
  assumes "boot call xs p = Ret p'" and "P p" and "\<not> P p'" and "\<And>y q q'. y \<noteq> x \<Longrightarrow> P q \<Longrightarrow> call y q = Ret q' \<Longrightarrow> P q'"
  shows "x \<in> set xs"
  using assms(1-3)
proof (induction xs arbitrary: p)
  case (Cons y ys)
  then show ?case using assms(4) by (cases "y = x") (auto split: outcome.splits)
qed simp

lemma boot_frame:
  assumes "boot call xs p = Ret p'" and "P p" and "\<And>y q q'. y \<in> set xs \<Longrightarrow> P q \<Longrightarrow> call y q = Ret q' \<Longrightarrow> P q'"
  shows "P p'"
  using assms
proof (induction xs arbitrary: p)
  case (Cons x xs)
  from Cons.prems(1) obtain q where q: "call x p = Ret q" "boot call xs q = Ret p'" by (auto split: outcome.splits)
  have "P q" using Cons.prems(3) [OF _ Cons.prems(2) q(1)] by simp
  with Cons.IH [OF q(2)] Cons.prems(3) show ?case by (metis list.set_intros(2))
qed simp

lemma prefix_to:
  assumes "xs @ f # ys = calls @ rest" and "distinct (xs @ f # ys)" and "last calls = f" and "calls \<noteq> []"
  shows "calls = xs @ [f]"
proof -
  obtain bs where bs: "calls = bs @ [f]" using assms(3,4) by (metis append_butlast_last_id)
  have "xs @ f # ys = bs @ f # rest" using assms(1) by (simp add: bs)
  with assms(2) show ?thesis by (auto simp: bs append_eq_append_conv2 append_eq_Cons_conv Cons_eq_append_conv)
qed

section \<open>Runs of fx\<close>

lemma fx_run_prefix:
  assumes "fx_run app run" and "run_calls run = calls @ rest" and "x \<in> set calls" and "y \<in> set (upstream n app x)"
  shows "y \<in> set calls"
proof -
  from assms(3) obtain as bs where calls: "calls = as @ x # bs" by (meson split_list)
  have "built app [] (as @ x # (bs @ rest))" using assms(1,2) by (simp add: fx_run_def calls)
  from built_upstream [OF this, of n] assms(4) show ?thesis by (auto simp: calls)
qed

lemma fx_run_invoked: "fx_run app run \<Longrightarrow> f \<in> set (ap_invokes app) \<Longrightarrow> fn_name f \<in> set (run_calls run)"
proof -
  assume run: "fx_run app run" and f: "f \<in> set (ap_invokes app)"
  from f have "fn_name f \<in> set (map fn_name (ap_invokes app))" by simp
  then have "fn_name f \<in> set (map snd run)" using run by (simp only: fx_run_def)
  then show ?thesis by (auto simp: run_calls_def) blast
qed

lemma fx_run_calls:
  assumes "fx_run app run" and "f \<in> set (map fn_name (ap_invokes app))" and "x = f \<or> x \<in> set (upstream n app f)"
  shows "x \<in> set (run_calls run)"
proof -
  have "f \<in> set (run_calls run)" using fx_run_invoked [OF assms(1)] assms(2) by auto
  moreover from this have "x \<in> set (upstream n app f) \<Longrightarrow> x \<in> set (run_calls run)"
    using fx_run_prefix [OF assms(1), of "run_calls run" "[]" f x n] by simp
  ultimately show ?thesis using assms(3) by blast
qed

text \<open>The first three calls of a run: what is invoked, after what it needs.\<close>

lemma run_segments:
  assumes "fx_run app run" and "map fn_name (ap_invokes app) = [f, g, h]"
  obtains c1 c2 c3 where "run_calls run = c1 @ [f] @ c2 @ [g] @ c3 @ [h]" "distinct (c1 @ [f] @ c2 @ [g] @ c3 @ [h])"
    "set c1 \<subseteq> set (upstream (length (ap_provides app)) app f)" "set c2 \<subseteq> set (upstream (length (ap_provides app)) app g)"
    "set c3 \<subseteq> set (upstream (length (ap_provides app)) app h)"
proof -
  from assms have "map snd run = [f, g, h]" by (simp add: fx_run_def)
  then obtain c1 c2 c3 where run: "run = [(c1, f), (c2, g), (c3, h)]" by (auto simp: map_eq_Cons_conv)
  then have "run_calls run = c1 @ [f] @ c2 @ [g] @ c3 @ [h]" by (simp add: run_calls_def)
  moreover have "distinct (run_calls run)" using assms(1) by (simp add: fx_run_def)
  ultimately show ?thesis using assms(1) run by (intro that [of c1 c2 c3]) (auto simp: fx_run_def list_all_iff)
qed

lemma upstream_Suc: "set (upstream n app x) \<subseteq> set (upstream (Suc n) app x)"
proof (induction n arbitrary: x)
  case (Suc n)
  have up: "set (upstream (Suc m) app x) = set (requires_names app x) \<union> (\<Union>r\<in>set (requires_names app x). set (upstream m app r))" for m
    by (simp add: Let_def)
  show ?case unfolding up [of n] up [of "Suc n"] using Suc.IH by blast
qed simp

lemma upstream_mono: "n \<le> m \<Longrightarrow> set (upstream n app x) \<subseteq> set (upstream m app x)"
  using lift_Suc_mono_le [of "\<lambda>n. set (upstream n app x)"] upstream_Suc by blast

lemma fx_runI:
  assumes "map snd run = map fn_name (ap_invokes app)" and "distinct (run_calls run)" and "built app [] (run_calls run)"
    and "list_all (\<lambda>(cs, f). list_all (\<lambda>c. c \<in> set (upstream n app f)) cs) run" and "n \<le> length (ap_provides app)"
  shows "fx_run app run"
  using assms upstream_mono [OF assms(5)] by (fastforce simp: fx_run_def list_all_iff)

section \<open>Starting a service\<close>

text \<open>
  What every service's calls have in common: with what the constructors before have made (\<open>I\<close>), a call
  panics exactly when what it needs does not work.
\<close>

locale service_start =
  fixes app :: application and call :: "string \<Rightarrow> 'p \<Rightarrow> 'p outcome" and works :: "string \<Rightarrow> bool"
    and I :: "string list \<Rightarrow> 'p \<Rightarrow> bool"
  assumes call_Ret: "I seen p \<Longrightarrow> set (requires_names app x) \<subseteq> set seen \<Longrightarrow> (\<exists>p'. call x p = Ret p') \<longleftrightarrow> works x"
    and call_inv: "I seen p \<Longrightarrow> call x p = Ret p' \<Longrightarrow> I (x # seen) p'"
begin

lemma boot_Ret: "built app seen calls \<Longrightarrow> I seen p \<Longrightarrow> (\<exists>p'. boot call calls p = Ret p') \<longleftrightarrow> (\<forall>x\<in>set calls. works x)"
proof (induction calls arbitrary: seen p)
  case (Cons x calls)
  then have iff: "(\<exists>p'. call x p = Ret p') \<longleftrightarrow> works x" by (intro call_Ret) (auto simp: list_all_iff)
  show ?case
  proof (cases "call x p")
    case (Ret p1)
    with Cons.IH [of "x # seen" p1] Cons.prems call_inv [OF Cons.prems(2) Ret] iff show ?thesis by simp
  qed (use iff in simp)
qed simp

lemma boot_inv: "boot call calls p = Ret p' \<Longrightarrow> I seen p \<Longrightarrow> I (rev calls @ seen) p'"
proof (induction calls arbitrary: seen p)
  case (Cons x calls)
  from Cons.prems(1) obtain p1 where p1: "call x p = Ret p1" "boot call calls p1 = Ret p'" by (auto split: outcome.splits)
  from Cons.IH [OF p1(2) call_inv [OF Cons.prems(2) p1(1)]] show ?case by simp
qed simp

lemma run_Ret:
  assumes "fx_run app run" and "I [] p" and "\<And>x. works x \<or> x \<in> X" and "X \<subseteq> set (run_calls run)"
  shows "(\<exists>p'. boot call (run_calls run) p = Ret p') \<longleftrightarrow> (\<forall>x\<in>X. works x)"
proof -
  have "built app [] (run_calls run)" using assms(1) by (simp add: fx_run_def)
  from boot_Ret [OF this assms(2)] assms(3,4) show ?thesis by (metis subsetD)
qed

end

end
