(* ===== verification/StreamStart.thy ===== *)
theory StreamStart imports Boot begin

text \<open>
  The start of the stream service (\<open>services/stream/main.go\<close>): when it boots, and what is there when it
  begins to serve.
\<close>

section \<open>The stream service\<close>

record stream_calls =
  sc_grpc_Dial :: "string \<Rightarrow> goerr option"
  sc_sql_Open :: "string \<Rightarrow> string \<Rightarrow> goerr option"
  sc_nats_Connect :: "string \<Rightarrow> goerr option"
  sc_JetStream :: "goerr option"
  sc_js :: js_calls
  sc_Subscribe :: "string \<Rightarrow> goerr option"
  sc_GetSwagger :: "string \<Rightarrow> goerr option"
  sc_Listen :: "string \<Rightarrow> goerr option"

datatype ingest_client = StubClient | GrpcClient string

record stream_process =
  sp_config :: "stream_system_config option"
  sp_identity :: "string option"
  sp_operator :: "ingest_client option"
  sp_db :: "string option"
  sp_nats :: "string option"
  sp_js :: bool
  sp_mounted :: "string list"
  sp_listening :: "string option"
  sp_subscriptions :: "subscription list"

definition stream_process0 :: stream_process where
  "stream_process0 = \<lparr>sp_config = None, sp_identity = None, sp_operator = None, sp_db = None, sp_nats = None, sp_js = False,
     sp_mounted = [], sp_listening = None, sp_subscriptions = []\<rparr>"

definition stream_NewPublicKeyClient :: "environ \<Rightarrow> stream_calls \<Rightarrow> stream_process \<Rightarrow> stream_process outcome" where
  "stream_NewPublicKeyClient env c p =
     (let addr = GetAddr (NewPublicKeyClientConfig env) in
      case sc_grpc_Dial c addr of
        Some err \<Rightarrow> Panic (''Failed to connect to audio service. Error: '' @ err_text err)
      | None \<Rightarrow> Ret (p\<lparr>sp_identity := Some addr\<rparr>))"

definition stream_WithIngestOperatorClient :: "environ \<Rightarrow> stream_calls \<Rightarrow> stream_process \<Rightarrow> stream_process outcome" where
  "stream_WithIngestOperatorClient env c p =
     (case sp_config p of
        None \<Rightarrow> nil_deref
      | Some config \<Rightarrow>
          if Standalone config then Ret (p\<lparr>sp_operator := Some StubClient\<rparr>)
          else let addr = GetAddr (stream_NewIngestOperatorConfig env) in
            case sc_grpc_Dial c addr of
              Some err \<Rightarrow> Panic (''Failed to connect to audio service. Error: '' @ err_text err)
            | None \<Rightarrow> Ret (p\<lparr>sp_operator := Some (GrpcClient addr)\<rparr>))"

definition stream_WithDatabaseConnection :: "environ \<Rightarrow> stream_calls \<Rightarrow> stream_process \<Rightarrow> stream_process outcome" where
  "stream_WithDatabaseConnection env c p =
     (let dconf = stream_NewDatabaseConfig env; uri = GetURI dconf in
      case sc_sql_Open c (dc_Driver dconf) (uri @ ''?sslmode=disable'') of
        Some err \<Rightarrow> Panic (''Unable connect to database '' @ uri @ ''. Error: '' @ err_text err)
      | None \<Rightarrow> Ret (p\<lparr>sp_db := Some (uri @ ''?sslmode=disable'')\<rparr>))"

definition stream_WithNatsConnection :: "environ \<Rightarrow> stream_calls \<Rightarrow> stream_process \<Rightarrow> stream_process outcome" where
  "stream_WithNatsConnection env c p =
     (case sc_nats_Connect c (GetUrl (NewNatsConfig env)) of
        Some err \<Rightarrow> Panic (''Unable start nats connection. Err: '' @ err_text err)
      | None \<Rightarrow> Ret (p\<lparr>sp_nats := Some (GetUrl (NewNatsConfig env))\<rparr>))"

text \<open>The error of adding the stream is dropped.\<close>

definition stream_NewNatsJetstream :: "stream_calls \<Rightarrow> stream_process \<Rightarrow> stream_process outcome" where
  "stream_NewNatsJetstream c p =
     (case sc_JetStream c of
        Some err \<Rightarrow> Panic (''Unable start nats jetstream connection. Err: '' @ err_text err)
      | None \<Rightarrow> Ret (p\<lparr>sp_js := True\<rparr>))"

text \<open>The handlers of the group are mounted one after the other, in an order that does not matter here.\<close>

fun mount_handlers :: "stream_calls \<Rightarrow> string list \<Rightarrow> stream_process \<Rightarrow> stream_process outcome" where
  "mount_handlers c [] p = Ret p"
| "mount_handlers c (h # hs) p =
     (case sc_GetSwagger c h of
        Some err \<Rightarrow> Panic (''unable get openapi spec for streamchannels.handler.Err: '' @ err_text err)
      | None \<Rightarrow> mount_handlers c hs (p\<lparr>sp_mounted := sp_mounted p @ [h]\<rparr>))"

definition stream_handlers :: "string list" where
  "stream_handlers = [''stream'', ''streamchannels'']"

definition stream_StartHttp :: "environ \<Rightarrow> stream_calls \<Rightarrow> stream_process \<Rightarrow> stream_process outcome" where
  "stream_StartHttp env c p =
     (let addr = GetAddr (NewStreamHttpConfig env) in
      case mount_handlers c stream_handlers p of
        Panic m \<Rightarrow> Panic m
      | Ret p1 \<Rightarrow>
          (case sc_Listen c addr of
             Some err \<Rightarrow> Panic (err_text err)
           | None \<Rightarrow> Ret (p1\<lparr>sp_listening := Some addr\<rparr>)))"

text \<open>All other constructors only build structures.\<close>

definition stream_call :: "environ \<Rightarrow> stream_calls \<Rightarrow> string \<Rightarrow> stream_process \<Rightarrow> stream_process outcome" where
  "stream_call env c name p =
     (if name = ''NewStreamSystemConfig'' then
        (case NewStreamSystemConfig env of Panic m \<Rightarrow> Panic m | Ret config \<Rightarrow> Ret (p\<lparr>sp_config := Some config\<rparr>))
      else if name = ''NewPublicKeyClient'' then stream_NewPublicKeyClient env c p
      else if name = ''WithIngestOperatorClient'' then stream_WithIngestOperatorClient env c p
      else if name = ''WithDatabaseConnection'' then stream_WithDatabaseConnection env c p
      else if name = ''WithNatsConnection'' then stream_WithNatsConnection env c p
      else if name = ''NewNatsJetstream'' then stream_NewNatsJetstream c p
      else if name = ''StartStreamHttp'' then stream_StartHttp env c p
      else if name = ''StartIngestStatusWorker'' then
        Ret (p\<lparr>sp_subscriptions := sp_subscriptions p @ status_worker_Start (sc_Subscribe c)\<rparr>)
      else if name = ''StartIngestDestroyedWorker'' then
        Ret (p\<lparr>sp_subscriptions := sp_subscriptions p @ snd (destroyed_worker_Start (sc_js c))\<rparr>)
      else Ret p)"

section \<open>Lemmas\<close>

lemma mount_handlers_Ret:
  "mount_handlers c hs p = Ret p' \<longleftrightarrow> (\<forall>h\<in>set hs. sc_GetSwagger c h = None) \<and> p' = p\<lparr>sp_mounted := sp_mounted p @ hs\<rparr>"
  by (induction hs arbitrary: p) (auto split: option.split)

lemmas stream_call_defs = stream_call_def stream_NewPublicKeyClient_def stream_WithIngestOperatorClient_def
  stream_WithDatabaseConnection_def stream_WithNatsConnection_def stream_NewNatsJetstream_def stream_StartHttp_def Let_def

section \<open>What the stream service has when it serves\<close>

definition stream_uri :: "environ \<Rightarrow> string" where
  "stream_uri env = GetURI (stream_NewDatabaseConfig env) @ ''?sslmode=disable''"

lemma stream_call_keeps:
  assumes "stream_call env c y q = Ret q'"
  shows "sp_db q = Some (stream_uri env) \<Longrightarrow> sp_db q' = Some (stream_uri env)"
    and "sp_nats q = Some (GetUrl (NewNatsConfig env)) \<Longrightarrow> sp_nats q' = Some (GetUrl (NewNatsConfig env))"
    and "sp_js q \<Longrightarrow> sp_js q'"
    and "sp_identity q = Some (GetAddr (NewPublicKeyClientConfig env)) \<Longrightarrow> sp_identity q' = Some (GetAddr (NewPublicKeyClientConfig env))"
    and "sp_operator q \<noteq> None \<Longrightarrow> sp_operator q' \<noteq> None"
    and "set stream_handlers \<subseteq> set (sp_mounted q) \<Longrightarrow> set stream_handlers \<subseteq> set (sp_mounted q')"
    and "y \<noteq> ''StartStreamHttp'' \<Longrightarrow> sp_listening q' = sp_listening q"
    and "sp_listening q = Some (GetAddr (NewStreamHttpConfig env)) \<Longrightarrow> sp_listening q' = Some (GetAddr (NewStreamHttpConfig env))"
  using assms by (auto simp: stream_call_defs stream_uri_def mount_handlers_Ret split: if_splits option.splits outcome.splits)

lemma stream_call_brings:
  "stream_call env c ''WithDatabaseConnection'' q = Ret q' \<Longrightarrow> sp_db q' = Some (stream_uri env)"
  "stream_call env c ''WithNatsConnection'' q = Ret q' \<Longrightarrow> sp_nats q' = Some (GetUrl (NewNatsConfig env))"
  "stream_call env c ''NewNatsJetstream'' q = Ret q' \<Longrightarrow> sp_js q'"
  "stream_call env c ''NewPublicKeyClient'' q = Ret q' \<Longrightarrow> sp_identity q' = Some (GetAddr (NewPublicKeyClientConfig env))"
  "stream_call env c ''WithIngestOperatorClient'' q = Ret q' \<Longrightarrow> sp_operator q' \<noteq> None"
  "stream_call env c ''StartStreamHttp'' q = Ret q' \<Longrightarrow> set stream_handlers \<subseteq> set (sp_mounted q')"
  "stream_call env c ''StartStreamHttp'' q = Ret q' \<Longrightarrow> sp_listening q' = Some (GetAddr (NewStreamHttpConfig env))"
  by (auto simp: stream_call_defs stream_uri_def mount_handlers_Ret split: if_splits option.splits outcome.splits)

lemma stream_made:
  assumes "boot (stream_call env c) calls p = Ret p'"
  shows "''WithDatabaseConnection'' \<in> set calls \<Longrightarrow> sp_db p' = Some (stream_uri env)"
    and "''WithNatsConnection'' \<in> set calls \<Longrightarrow> sp_nats p' = Some (GetUrl (NewNatsConfig env))"
    and "''NewNatsJetstream'' \<in> set calls \<Longrightarrow> sp_js p'"
    and "''NewPublicKeyClient'' \<in> set calls \<Longrightarrow> sp_identity p' = Some (GetAddr (NewPublicKeyClientConfig env))"
    and "''WithIngestOperatorClient'' \<in> set calls \<Longrightarrow> sp_operator p' \<noteq> None"
    and "''StartStreamHttp'' \<in> set calls \<Longrightarrow> set stream_handlers \<subseteq> set (sp_mounted p')"
    and "''StartStreamHttp'' \<in> set calls \<Longrightarrow> sp_listening p' = Some (GetAddr (NewStreamHttpConfig env))"
proof -
  show "''WithDatabaseConnection'' \<in> set calls \<Longrightarrow> sp_db p' = Some (stream_uri env)"
    by (rule boot_brings [OF assms, where P = "\<lambda>q. sp_db q = Some (stream_uri env)"])
      (assumption | erule stream_call_brings(1) | rule stream_call_keeps(1))+
  show "''WithNatsConnection'' \<in> set calls \<Longrightarrow> sp_nats p' = Some (GetUrl (NewNatsConfig env))"
    by (rule boot_brings [OF assms, where P = "\<lambda>q. sp_nats q = Some (GetUrl (NewNatsConfig env))"])
      (assumption | erule stream_call_brings(2) | rule stream_call_keeps(2))+
  show "''NewNatsJetstream'' \<in> set calls \<Longrightarrow> sp_js p'"
    by (rule boot_brings [OF assms, where P = "\<lambda>q. sp_js q"])
      (assumption | erule stream_call_brings(3) | rule stream_call_keeps(3))+
  show "''NewPublicKeyClient'' \<in> set calls \<Longrightarrow> sp_identity p' = Some (GetAddr (NewPublicKeyClientConfig env))"
    by (rule boot_brings [OF assms, where P = "\<lambda>q. sp_identity q = Some (GetAddr (NewPublicKeyClientConfig env))"])
      (assumption | erule stream_call_brings(4) | rule stream_call_keeps(4))+
  show "''WithIngestOperatorClient'' \<in> set calls \<Longrightarrow> sp_operator p' \<noteq> None"
    by (rule boot_brings [OF assms, where P = "\<lambda>q. sp_operator q \<noteq> None"])
      (assumption | erule stream_call_brings(5) | rule stream_call_keeps(5))+
  show "''StartStreamHttp'' \<in> set calls \<Longrightarrow> set stream_handlers \<subseteq> set (sp_mounted p')"
    by (rule boot_brings [OF assms, where P = "\<lambda>q. set stream_handlers \<subseteq> set (sp_mounted q)"])
      (assumption | erule stream_call_brings(6) | rule stream_call_keeps(6))+
  show "''StartStreamHttp'' \<in> set calls \<Longrightarrow> sp_listening p' = Some (GetAddr (NewStreamHttpConfig env))"
    by (rule boot_brings [OF assms, where P = "\<lambda>q. sp_listening q = Some (GetAddr (NewStreamHttpConfig env))"])
      (assumption | erule stream_call_brings(7) | rule stream_call_keeps(8))+
qed

text \<open>The server listens only when its invoked function has run.\<close>

lemma stream_listening:
  assumes "boot (stream_call env c) calls stream_process0 = Ret p" and "sp_listening p \<noteq> None"
  shows "''StartStreamHttp'' \<in> set calls"
  by (rule boot_only [OF assms(1), where P = "\<lambda>q. sp_listening q = None"])
    (use assms(2) stream_call_keeps(7) in \<open>auto simp: stream_process0_def\<close>)

lemma stream_http_needs:
  "{''WithDatabaseConnection'', ''WithNatsConnection'', ''NewNatsJetstream'', ''NewPublicKeyClient'', ''WithIngestOperatorClient''}
    \<subseteq> set (upstream (Suc (Suc (Suc (Suc (Suc (Suc (Suc 0))))))) stream_main ''StartStreamHttp'')"
  by (simp add: wiring)

section \<open>When the stream service boots\<close>

text \<open>What must work, and where it is called: each failure is a panic, and nothing else is.\<close>

definition stream_works :: "environ \<Rightarrow> stream_calls \<Rightarrow> string \<Rightarrow> bool" where
  "stream_works env c name =
     (if name = ''NewPublicKeyClient'' then sc_grpc_Dial c (GetAddr (NewPublicKeyClientConfig env)) = None
      else if name = ''WithIngestOperatorClient'' then
        (\<forall>config. NewStreamSystemConfig env = Ret config \<longrightarrow> Standalone config
           \<or> sc_grpc_Dial c (GetAddr (stream_NewIngestOperatorConfig env)) = None)
      else if name = ''WithDatabaseConnection'' then sc_sql_Open c ''postgres'' (stream_uri env) = None
      else if name = ''WithNatsConnection'' then sc_nats_Connect c (GetUrl (NewNatsConfig env)) = None
      else if name = ''NewNatsJetstream'' then sc_JetStream c = None
      else if name = ''StartStreamHttp'' then
        list_all (\<lambda>h. sc_GetSwagger c h = None) stream_handlers \<and> sc_Listen c (GetAddr (NewStreamHttpConfig env)) = None
      else True)"

lemma system_config: "\<exists>config. NewStreamSystemConfig env = Ret config"
  by (auto simp: NewStreamSystemConfig_def ptr_of_def ParseBool_consts Let_def split: sum.split)

lemma stream_call_Ret:
  assumes "name = ''WithIngestOperatorClient'' \<longrightarrow> (\<exists>config. NewStreamSystemConfig env = Ret config \<and> sp_config p = Some config)"
  shows "(\<exists>p'. stream_call env c name p = Ret p') \<longleftrightarrow> stream_works env c name"
proof -
  obtain config where config: "NewStreamSystemConfig env = Ret config" using system_config by blast
  consider "name = ''NewStreamSystemConfig''" | "name = ''NewPublicKeyClient''" | "name = ''WithIngestOperatorClient''"
    | "name = ''WithDatabaseConnection''" | "name = ''WithNatsConnection''" | "name = ''NewNatsJetstream''"
    | "name = ''StartStreamHttp''" | "name = ''StartIngestStatusWorker''" | "name = ''StartIngestDestroyedWorker''"
    | "name \<noteq> ''NewStreamSystemConfig'' \<and> name \<noteq> ''NewPublicKeyClient'' \<and> name \<noteq> ''WithIngestOperatorClient'' \<and> name \<noteq> ''WithDatabaseConnection'' \<and> name \<noteq> ''WithNatsConnection'' \<and> name \<noteq> ''NewNatsJetstream'' \<and> name \<noteq> ''StartStreamHttp'' \<and> name \<noteq> ''StartIngestStatusWorker'' \<and> name \<noteq> ''StartIngestDestroyedWorker''"
    by argo
  then show ?thesis
  proof cases
    case 1
    then show ?thesis by (simp add: stream_call_def stream_works_def config)
  next
    case 2
    then show ?thesis by (simp add: stream_call_def stream_works_def stream_NewPublicKeyClient_def Let_def split: option.split)
  next
    case 3
    with assms config show ?thesis
      by (simp add: stream_call_def stream_works_def stream_WithIngestOperatorClient_def Let_def split: option.split)
  next
    case 4
    then show ?thesis
      by (simp add: stream_call_def stream_works_def stream_WithDatabaseConnection_def stream_uri_def stream_NewDatabaseConfig_def
        Let_def split: option.split)
  next
    case 5
    then show ?thesis by (simp add: stream_call_def stream_works_def stream_WithNatsConnection_def split: option.split)
  next
    case 6
    then show ?thesis by (simp add: stream_call_def stream_works_def stream_NewNatsJetstream_def split: option.split)
  next
    case 7
    show ?thesis
    proof (cases "list_all (\<lambda>h. sc_GetSwagger c h = None) stream_handlers")
      case True
      then have "mount_handlers c stream_handlers p = Ret (p\<lparr>sp_mounted := sp_mounted p @ stream_handlers\<rparr>)"
        by (simp add: mount_handlers_Ret list_all_iff)
      with 7 True show ?thesis by (simp add: stream_call_def stream_works_def stream_StartHttp_def Let_def split: option.split)
    next
      case False
      then have "mount_handlers c stream_handlers p \<noteq> Ret p'" for p' by (simp add: mount_handlers_Ret list_all_iff)
      then obtain m where "mount_handlers c stream_handlers p = Panic m" by (cases "mount_handlers c stream_handlers p") auto
      with 7 False show ?thesis by (simp add: stream_call_def stream_works_def stream_StartHttp_def Let_def)
    qed
  qed (simp_all add: stream_call_def stream_works_def)
qed

lemma stream_call_config:
  assumes "stream_call env c x p = Ret p1" and "NewStreamSystemConfig env = Ret config"
  shows "sp_config p1 = (if x = ''NewStreamSystemConfig'' then Some config else sp_config p)"
  using assms by (auto simp: stream_call_defs mount_handlers_Ret split: if_splits option.splits outcome.splits)

definition stream_inv :: "environ \<Rightarrow> string list \<Rightarrow> stream_process \<Rightarrow> bool" where
  "stream_inv env seen p \<longleftrightarrow> (''NewStreamSystemConfig'' \<in> set seen
     \<longrightarrow> (\<exists>config. NewStreamSystemConfig env = Ret config \<and> sp_config p = Some config))"

interpretation stream_start: service_start stream_main "stream_call env c" "stream_works env c" "stream_inv env" for env c
proof
  fix seen p x
  assume "stream_inv env seen p" and "set (requires_names stream_main x) \<subseteq> set seen"
  then have "x = ''WithIngestOperatorClient'' \<longrightarrow> (\<exists>config. NewStreamSystemConfig env = Ret config \<and> sp_config p = Some config)"
    by (auto simp: wiring stream_inv_def)
  then show "(\<exists>p'. stream_call env c x p = Ret p') \<longleftrightarrow> stream_works env c x" by (rule stream_call_Ret)
next
  fix seen p x p'
  assume inv: "stream_inv env seen p" and call: "stream_call env c x p = Ret p'"
  obtain config where config: "NewStreamSystemConfig env = Ret config" using system_config by blast
  from inv stream_call_config [OF call config] config show "stream_inv env (x # seen) p'"
    by (cases "x = ''NewStreamSystemConfig''") (simp_all add: stream_inv_def)
qed

lemma stream_run_calls:
  assumes "fx_run stream_main run"
  shows "{''WithDatabaseConnection'', ''WithNatsConnection'', ''NewNatsJetstream'', ''NewPublicKeyClient'',
    ''WithIngestOperatorClient'', ''StartStreamHttp''} \<subseteq> set (run_calls run)"
proof -
  have http: "''StartStreamHttp'' \<in> set (run_calls run)"
    using fx_run_invoked [OF assms, of "func ''StartStreamHttp'' [] [One ''*StreamHttpConfig'', One ''*chi.Mux'', Group ''http.handler'']"]
    by (simp add: stream_main_def func_def)
  have "run_calls run = run_calls run @ []" by simp
  from fx_run_prefix [OF assms this http] stream_http_needs http show ?thesis by blast
qed

lemma stream_invokes: "map fn_name (ap_invokes stream_main) = [''StartStreamHttp'', ''StartIngestStatusWorker'', ''StartIngestDestroyedWorker'']"
  by (simp add: stream_main_def func_def)

lemma stream_works_else:
  "stream_works env c x \<or> x \<in> {''WithDatabaseConnection'', ''WithNatsConnection'', ''NewNatsJetstream'', ''NewPublicKeyClient'',
    ''WithIngestOperatorClient'', ''StartStreamHttp''}"
  by (simp add: stream_works_def)

lemma stream_call_subscriptions:
  "stream_call env c y q = Ret q' \<Longrightarrow> y \<noteq> ''StartIngestStatusWorker'' \<Longrightarrow> y \<noteq> ''StartIngestDestroyedWorker''
    \<Longrightarrow> sp_subscriptions q' = sp_subscriptions q"
  by (auto simp: stream_call_defs mount_handlers_Ret split: if_splits option.splits outcome.splits)

lemma stream_no_workers:
  assumes "boot (stream_call env c) calls stream_process0 = Ret p"
    and "''StartIngestStatusWorker'' \<notin> set calls" and "''StartIngestDestroyedWorker'' \<notin> set calls"
  shows "sp_subscriptions p = []"
proof (rule boot_frame [OF assms(1), where P = "\<lambda>q. sp_subscriptions q = []"])
  show "sp_subscriptions stream_process0 = []" by (simp add: stream_process0_def)
  show "sp_subscriptions q' = []" if "y \<in> set calls" "sp_subscriptions q = []" "stream_call env c y q = Ret q'" for y q q'
    using stream_call_subscriptions [OF that(3)] that(1,2) assms(2,3) by metis
qed

section \<open>Properties of the stream service\<close>

text \<open>The stream service boots, in whatever order fx calls its constructors, exactly when its database
  driver opens, it connects to NATS and JetStream, it dials the identity service and, unless it runs
  standalone, the operator, the API documents of its two handlers can be read and its address is free;
  otherwise it panics.\<close>

theorem stream_boots_iff:
  assumes "fx_run stream_main run" and "NewStreamSystemConfig env = Ret config"
  shows "(\<exists>p. boot (stream_call env c) (run_calls run) stream_process0 = Ret p) \<longleftrightarrow>
      sc_sql_Open c ''postgres'' (GetURI (stream_NewDatabaseConfig env) @ ''?sslmode=disable'') = None
    \<and> sc_nats_Connect c (GetUrl (NewNatsConfig env)) = None \<and> sc_JetStream c = None
    \<and> sc_grpc_Dial c (GetAddr (NewPublicKeyClientConfig env)) = None
    \<and> (Standalone config \<or> sc_grpc_Dial c (GetAddr (stream_NewIngestOperatorConfig env)) = None)
    \<and> list_all (\<lambda>h. sc_GetSwagger c h = None) stream_handlers \<and> sc_Listen c (GetAddr (NewStreamHttpConfig env)) = None"
proof -
  have "stream_inv env [] stream_process0" by (simp add: stream_inv_def)
  from stream_start.run_Ret [OF assms(1) this stream_works_else stream_run_calls [OF assms(1)], of c]
  show ?thesis by (simp add: stream_works_def assms(2) stream_uri_def)
qed

text \<open>C37: when the stream service begins to listen, and from then on, both handlers are mounted and the
  database, NATS, JetStream, the identity service and the operator's client are there, whatever the order
  of the constructors; but the workers have not subscribed yet: they are started afterwards.\<close>

theorem stream_serves_connected_without_workers:
  assumes "fx_run stream_main run" and "run_calls run = calls @ rest"
    and "boot (stream_call env c) calls stream_process0 = Ret p" and "sp_listening p \<noteq> None"
  shows "sp_listening p = Some (GetAddr (NewStreamHttpConfig env)) \<and> set stream_handlers \<subseteq> set (sp_mounted p)
    \<and> sp_db p = Some (GetURI (stream_NewDatabaseConfig env) @ ''?sslmode=disable'') \<and> sp_nats p = Some (GetUrl (NewNatsConfig env))
    \<and> sp_js p \<and> sp_identity p = Some (GetAddr (NewPublicKeyClientConfig env)) \<and> sp_operator p \<noteq> None
    \<and> (last calls = ''StartStreamHttp'' \<longrightarrow> sp_subscriptions p = [])"
proof -
  have http: "''StartStreamHttp'' \<in> set calls" by (rule stream_listening [OF assms(3,4)])
  have needs: "x \<in> set calls" if "x \<in> {''WithDatabaseConnection'', ''WithNatsConnection'', ''NewNatsJetstream'',
      ''NewPublicKeyClient'', ''WithIngestOperatorClient''}" for x
    using fx_run_prefix [OF assms(1,2) http] stream_http_needs that by blast
  have "sp_subscriptions p = []" if last: "last calls = ''StartStreamHttp''"
  proof -
    obtain c1 c2 c3 where seg: "run_calls run = c1 @ [''StartStreamHttp''] @ c2 @ [''StartIngestStatusWorker''] @ c3 @ [''StartIngestDestroyedWorker'']"
      and dist: "distinct (c1 @ [''StartStreamHttp''] @ c2 @ [''StartIngestStatusWorker''] @ c3 @ [''StartIngestDestroyedWorker''])"
      by (rule run_segments [OF assms(1) stream_invokes])
    have "c1 @ ''StartStreamHttp'' # (c2 @ [''StartIngestStatusWorker''] @ c3 @ [''StartIngestDestroyedWorker'']) = calls @ rest"
      using seg assms(2) by simp
    moreover have "calls \<noteq> []" using http by auto
    ultimately have "calls = c1 @ [''StartStreamHttp'']" using prefix_to [OF _ _ last] dist by auto
    with dist have "''StartIngestStatusWorker'' \<notin> set calls" "''StartIngestDestroyedWorker'' \<notin> set calls" by auto
    from stream_no_workers [OF assms(3) this] show ?thesis .
  qed
  with stream_made [OF assms(3)] needs http show ?thesis by (simp add: stream_uri_def)
qed

text \<open>A run of fx for the witnesses, each constructor as late as possible.\<close>

definition stream_boot_run :: "(string list \<times> string) list" where
  "stream_boot_run = [([''NewStreamHttpConfig'', ''Router'', ''NewPublicKeyClientConfig'', ''NewPublicKeyClient'',
       ''NewIdentityPublicKeyResolver'', ''NewAsymmetricEncryptionAuthenticator'', ''NewOpenAPI3FilterOptions'',
       ''NewSpecOptionsHandlerConstructor'', ''NewDatabaseConfig'', ''WithDatabaseConnection'', ''NewActiveStreamRepository'',
       ''NewStreamStatus'', ''WithRefreshTokenAuthenticator'', ''NewNatsConfig'', ''WithNatsConnection'', ''NewNatsJetstream'',
       ''NewStreamSystemConfig'', ''NewIngestOperatorConfig'', ''WithIngestOperatorClient'', ''NewStreamService'',
       ''NewStreaminServiceHandler'', ''NewStreamChannelsService'', ''NewStreamChannelsServiceHandler''], ''StartStreamHttp''),
     ([''NewStreamEgressRepository''], ''StartIngestStatusWorker''),
     ([], ''StartIngestDestroyedWorker'')]"

lemma stream_boot_run_ok: "fx_run stream_main stream_boot_run"
proof (rule fx_runI [where n = "Suc (Suc (Suc (Suc (Suc (Suc (Suc 0))))))"])
  show "map snd stream_boot_run = map fn_name (ap_invokes stream_main)" by (simp add: stream_boot_run_def stream_invokes)
  show "distinct (run_calls stream_boot_run)" by code_simp
  show "built stream_main [] (run_calls stream_boot_run)" by (simp add: stream_boot_run_def run_calls_def wiring)
  show "list_all (\<lambda>(cs, f). list_all (\<lambda>c. c \<in> set (upstream (Suc (Suc (Suc (Suc (Suc (Suc (Suc 0))))))) stream_main f)) cs) stream_boot_run"
    by (simp add: stream_boot_run_def wiring)
qed (simp add: stream_main_def stream_ServerModule_def in_module_def)

definition ok_stream_calls :: stream_calls where
  "ok_stream_calls = \<lparr>sc_grpc_Dial = \<lambda>_. None, sc_sql_Open = \<lambda>_ _. None, sc_nats_Connect = \<lambda>_. None, sc_JetStream = None,
     sc_js = ok_js, sc_Subscribe = \<lambda>_. None, sc_GetSwagger = \<lambda>_. None, sc_Listen = \<lambda>_. None\<rparr>"

theorem stream_boots_iff_witness:
  "(\<exists>p. boot (stream_call Map.empty ok_stream_calls) (run_calls stream_boot_run) stream_process0 = Ret p)
    \<and> (\<nexists>p. boot (stream_call Map.empty (ok_stream_calls\<lparr>sc_nats_Connect := \<lambda>_. Some (GoErr ''no servers'')\<rparr>))
        (run_calls stream_boot_run) stream_process0 = Ret p)"
proof -
  obtain config where config: "NewStreamSystemConfig Map.empty = Ret config" "Standalone config"
    by (simp add: NewStreamSystemConfig_def ParseBool_consts)
  from stream_boots_iff [OF stream_boot_run_ok config(1), of ok_stream_calls] config(2)
    stream_boots_iff [OF stream_boot_run_ok config(1), of "ok_stream_calls\<lparr>sc_nats_Connect := \<lambda>_. Some (GoErr ''no servers'')\<rparr>"]
  show ?thesis by (simp add: ok_stream_calls_def list_all_iff)
qed

lemma stream_first_calls:
  obtains calls rest p where "run_calls stream_boot_run = calls @ rest" "last calls = ''StartStreamHttp''"
    "boot (stream_call Map.empty ok_stream_calls) calls stream_process0 = Ret p" "sp_listening p \<noteq> None"
proof -
  let ?cs = "fst (hd stream_boot_run)"
  have calls: "run_calls stream_boot_run = (?cs @ [''StartStreamHttp'']) @ [''NewStreamEgressRepository'', ''StartIngestStatusWorker'', ''StartIngestDestroyedWorker'']"
    by (simp add: stream_boot_run_def run_calls_def)
  obtain q where "boot (stream_call Map.empty ok_stream_calls) (run_calls stream_boot_run) stream_process0 = Ret q"
  proof -
    have "stream_inv Map.empty [] stream_process0" by (simp add: stream_inv_def)
    from stream_start.run_Ret [OF stream_boot_run_ok this stream_works_else stream_run_calls [OF stream_boot_run_ok], of ok_stream_calls]
    show ?thesis using that by (auto simp: stream_works_def ok_stream_calls_def list_all_iff)
  qed
  then obtain p where p: "boot (stream_call Map.empty ok_stream_calls) (?cs @ [''StartStreamHttp'']) stream_process0 = Ret p"
    unfolding calls boot_append by (auto split: outcome.splits)
  from stream_made(7) [OF p] have "sp_listening p \<noteq> None" by simp
  with calls p show ?thesis by (intro that [of "?cs @ [''StartStreamHttp'']"]) simp_all
qed

theorem stream_serves_connected_without_workers_witness:
  "\<exists>calls rest p. run_calls stream_boot_run = calls @ rest \<and> boot (stream_call Map.empty ok_stream_calls) calls stream_process0 = Ret p
    \<and> sp_listening p = Some ''0.0.0.0:8082'' \<and> sp_nats p = Some ''nats://0.0.0.0:4222'' \<and> sp_subscriptions p = []"
proof -
  obtain calls rest p where p: "run_calls stream_boot_run = calls @ rest" "last calls = ''StartStreamHttp''"
    "boot (stream_call Map.empty ok_stream_calls) calls stream_process0 = Ret p" "sp_listening p \<noteq> None" by (rule stream_first_calls)
  have "GetAddr (NewStreamHttpConfig Map.empty) = ''0.0.0.0:8082''" "GetUrl (NewNatsConfig Map.empty) = ''nats://0.0.0.0:4222''"
    by (simp_all add: GetAddr_def join_host_port_def NewStreamHttpConfig_def GetUrl_def NewNatsConfig_def env_const)
  with stream_serves_connected_without_workers [OF stream_boot_run_ok p(1,3,4)] p show ?thesis
    by (intro exI [of _ calls] exI [of _ rest] exI [of _ p]) simp
qed

end
