(* ===== verification/IdentityStart.thy ===== *)
theory IdentityStart imports Boot begin

text \<open>
  The start of the identity service (\<open>services/identity/main.go\<close>): its constructors, the lifecycle hooks
  they append and what the hooks do, in order.
\<close>

section \<open>The identity service\<close>

record identity_calls =
  ic_sql_Open :: "string \<Rightarrow> string \<Rightarrow> goerr option"
  ic_GetSwagger :: "goerr option"
  ic_Listen :: "string \<Rightarrow> goerr option"

text \<open>What is appended to the lifecycle, with the \<open>OnStart\<close> function of each.\<close>

datatype start_hook = CloseDB | MountRoutes | ServeGRPC string | ServeHTTP string

record identity_process =
  ip_db :: "string option"
  ip_hooks :: "start_hook list"
  ip_registered :: bool
  ip_mounted :: bool
  ip_listening :: "string list"

definition identity_process0 :: identity_process where
  "identity_process0 = \<lparr>ip_db = None, ip_hooks = [], ip_registered = False, ip_mounted = False, ip_listening = []\<rparr>"

definition identity_uri :: "environ \<Rightarrow> string" where
  "identity_uri env = GetURI (identity_NewDatabaseConfig env) @ ''?sslmode=disable&connect_timeout=5''"

definition identity_WithDatabaseConnection :: "environ \<Rightarrow> identity_calls \<Rightarrow> identity_process \<Rightarrow> identity_process outcome" where
  "identity_WithDatabaseConnection env c p =
     (let dconf = identity_NewDatabaseConfig env; uri = GetURI dconf in
      case ic_sql_Open c (dc_Driver dconf) (uri @ ''?sslmode=disable&connect_timeout=5'') of
        Some err \<Rightarrow> Panic (''Unable connect to database '' @ uri @ ''. Error: '' @ err_text err)
      | None \<Rightarrow> Ret (p\<lparr>ip_db := Some (uri @ ''?sslmode=disable&connect_timeout=5''), ip_hooks := ip_hooks p @ [CloseDB]\<rparr>))"

definition identity_NewHTTPServer :: "environ \<Rightarrow> identity_process \<Rightarrow> identity_process" where
  "identity_NewHTTPServer env p = p\<lparr>ip_hooks := ip_hooks p @ [ServeHTTP (GetAddr (identity_NewHTTPConfig env))]\<rparr>"

definition identity_NewGRPCServer :: "environ \<Rightarrow> identity_process \<Rightarrow> identity_process" where
  "identity_NewGRPCServer env p = p\<lparr>ip_hooks := ip_hooks p @ [ServeGRPC (GetAddr (identity_NewGRPConfig env))]\<rparr>"

definition identity_NewIdentityHandler :: "identity_process \<Rightarrow> identity_process" where
  "identity_NewIdentityHandler p = p\<lparr>ip_hooks := ip_hooks p @ [MountRoutes]\<rparr>"

definition NewPublicKeyGRPCService :: "identity_process \<Rightarrow> identity_process" where
  "NewPublicKeyGRPCService p = p\<lparr>ip_registered := True\<rparr>"

definition identity_call :: "environ \<Rightarrow> identity_calls \<Rightarrow> string \<Rightarrow> identity_process \<Rightarrow> identity_process outcome" where
  "identity_call env c name p =
     (if name = ''WithDatabaseConnection'' then identity_WithDatabaseConnection env c p
      else if name = ''NewHTTPServer'' then Ret (identity_NewHTTPServer env p)
      else if name = ''NewGRPCServer'' then Ret (identity_NewGRPCServer env p)
      else if name = ''NewIdentityHandler'' then Ret (identity_NewIdentityHandler p)
      else if name = ''NewPublicKeyGRPCService'' then Ret (NewPublicKeyGRPCService p)
      else Ret p)"

text \<open>The hooks run in order; the first that fails ends the start.  A spec that cannot be read is nil, and
  its servers are cleared before the error is looked at.\<close>

fun identity_OnStart :: "identity_calls \<Rightarrow> start_hook \<Rightarrow> identity_process \<Rightarrow> goerr option outcome \<times> identity_process" where
  "identity_OnStart c CloseDB p = (Ret None, p)"
| "identity_OnStart c MountRoutes p =
     (case ic_GetSwagger c of Some err \<Rightarrow> (nil_deref, p) | None \<Rightarrow> (Ret None, p\<lparr>ip_mounted := True\<rparr>))"
| "identity_OnStart c (ServeGRPC addr) p =
     (case ic_Listen c addr of Some err \<Rightarrow> (Ret (Some err), p) | None \<Rightarrow> (Ret None, p\<lparr>ip_listening := ip_listening p @ [addr]\<rparr>))"
| "identity_OnStart c (ServeHTTP addr) p =
     (case ic_Listen c addr of Some err \<Rightarrow> (Ret (Some err), p) | None \<Rightarrow> (Ret None, p\<lparr>ip_listening := ip_listening p @ [addr]\<rparr>))"

fun run_hooks :: "('h \<Rightarrow> 'p \<Rightarrow> goerr option outcome \<times> 'p) \<Rightarrow> 'h list \<Rightarrow> 'p \<Rightarrow> goerr option outcome \<times> 'p" where
  "run_hooks start [] p = (Ret None, p)"
| "run_hooks start (h # hs) p = (case start h p of (Ret None, p1) \<Rightarrow> run_hooks start hs p1 | (r, p1) \<Rightarrow> (r, p1))"

definition hooks_of :: "environ \<Rightarrow> string \<Rightarrow> start_hook list" where
  "hooks_of env name =
     (if name = ''WithDatabaseConnection'' then [CloseDB]
      else if name = ''NewHTTPServer'' then [ServeHTTP (GetAddr (identity_NewHTTPConfig env))]
      else if name = ''NewGRPCServer'' then [ServeGRPC (GetAddr (identity_NewGRPConfig env))]
      else if name = ''NewIdentityHandler'' then [MountRoutes] else [])"

section \<open>Lemmas\<close>

lemma identity_boot_effect:
  assumes "ic_sql_Open c ''postgres'' (identity_uri env) = None"
  shows "boot (identity_call env c) calls p = Ret (p\<lparr>
      ip_db := (if ''WithDatabaseConnection'' \<in> set calls then Some (identity_uri env) else ip_db p),
      ip_hooks := ip_hooks p @ concat (map (hooks_of env) calls),
      ip_registered := (ip_registered p \<or> ''NewPublicKeyGRPCService'' \<in> set calls)\<rparr>)"
proof (induction calls arbitrary: p)
  case (Cons x calls)
  have "identity_call env c x p = Ret (p\<lparr>ip_db := (if x = ''WithDatabaseConnection'' then Some (identity_uri env) else ip_db p),
      ip_hooks := ip_hooks p @ hooks_of env x, ip_registered := (ip_registered p \<or> x = ''NewPublicKeyGRPCService'')\<rparr>)"
    using assms by (simp add: identity_call_def hooks_of_def identity_WithDatabaseConnection_def identity_NewHTTPServer_def
      identity_NewGRPCServer_def identity_NewIdentityHandler_def NewPublicKeyGRPCService_def identity_uri_def identity_NewDatabaseConfig_def Let_def)
  with Cons.IH show ?case by (simp add: eq_commute [of "''NewPublicKeyGRPCService''" x] eq_commute [of "''WithDatabaseConnection''" x])
qed simp

lemma identity_boot_fails:
  assumes "ic_sql_Open c ''postgres'' (identity_uri env) \<noteq> None" and "''WithDatabaseConnection'' \<in> set calls"
  shows "\<exists>m. boot (identity_call env c) calls p = Panic m"
proof -
  from assms(2) obtain as bs where calls: "calls = as @ ''WithDatabaseConnection'' # bs" by (meson split_list)
  have "\<exists>m. identity_call env c ''WithDatabaseConnection'' q = Panic m" for q
    using assms(1) by (auto simp: identity_call_def identity_WithDatabaseConnection_def identity_uri_def identity_NewDatabaseConfig_def Let_def)
  then obtain f where "identity_call env c ''WithDatabaseConnection'' q = Panic (f q)" for q by metis
  then show ?thesis unfolding calls boot_append by (simp split: outcome.split)
qed

lemma concat_one:
  "distinct xs \<Longrightarrow> x \<in> set xs \<Longrightarrow> (\<And>y. y \<in> set xs \<Longrightarrow> y \<noteq> x \<Longrightarrow> h y = []) \<Longrightarrow> concat (map h xs) = h x"
proof (induction xs)
  case (Cons a xs)
  show ?case
  proof (cases "a = x")
    case True
    with Cons.prems have "h y = []" if "y \<in> set xs" for y using that by auto
    with True show ?thesis by simp
  next
    case False
    with Cons show ?thesis by simp
  qed
qed simp

lemma identity_invokes: "map fn_name (ap_invokes identity_main) = [''NewIdentityHandler'', ''NewPublicKeyGRPCService'', ''func(*http.Server)'']"
  by (simp add: identity_main_def func_def)

text \<open>What the identity service's functions need is closed, and makes no server before its turn.\<close>

definition db_part :: "string set" where
  "db_part = {''NewDatabaseConfig'', ''WithDatabaseConnection'', ''NewPrivateKeyRepositroy'', ''NewUserRepository'',
     ''NewRefreshTokenRepository'', ''NewSecurityService'', ''NewUserService'', ''GetRouter'', ''WithOpenAPI3FilterOptions''}"

lemma identity_upstreams:
  "set (upstream n identity_main ''NewIdentityHandler'') \<subseteq> db_part"
  "set (upstream n identity_main ''NewPublicKeyGRPCService'')
    \<subseteq> db_part \<union> {''NewGRPConfig'', ''NewPublicKeyListInterceptor'', ''NewGRPCServer''}"
  by (rule upstream_closed; auto simp: db_part_def wiring)+

lemma identity_hooks:
  assumes "fx_run identity_main run"
  shows "concat (map (hooks_of env) (run_calls run)) = [CloseDB, MountRoutes, ServeGRPC (GetAddr (identity_NewGRPConfig env)),
      ServeHTTP (GetAddr (identity_NewHTTPConfig env))]"
    and "''WithDatabaseConnection'' \<in> set (run_calls run)" and "''NewPublicKeyGRPCService'' \<in> set (run_calls run)"
proof -
  obtain c1 c2 c3 where calls: "run_calls run = c1 @ [''NewIdentityHandler''] @ c2 @ [''NewPublicKeyGRPCService''] @ c3 @ [''func(*http.Server)'']"
    and dist: "distinct (c1 @ [''NewIdentityHandler''] @ c2 @ [''NewPublicKeyGRPCService''] @ c3 @ [''func(*http.Server)''])"
    and c1: "set c1 \<subseteq> set (upstream (length (ap_provides identity_main)) identity_main ''NewIdentityHandler'')"
    and c2: "set c2 \<subseteq> set (upstream (length (ap_provides identity_main)) identity_main ''NewPublicKeyGRPCService'')"
    by (rule run_segments [OF assms identity_invokes])
  have built: "built identity_main [] (run_calls run)" using assms by (simp add: fx_run_def)
  have db: "''WithDatabaseConnection'' \<in> set c1"
    using built_requires [of identity_main c1 "''NewIdentityHandler''" "c2 @ [''NewPublicKeyGRPCService''] @ c3 @ [''func(*http.Server)'']"] built
    by (simp add: calls wiring)
  have no1: "y \<in> db_part" if "y \<in> set c1" for y using c1 identity_upstreams(1) that by blast
  have no2: "y \<in> db_part \<union> {''NewGRPConfig'', ''NewPublicKeyListInterceptor'', ''NewGRPCServer''}" if "y \<in> set c2" for y
    using c2 identity_upstreams(2) that by blast
  have "''NewGRPCServer'' \<in> set (c1 @ [''NewIdentityHandler''] @ c2)"
    using built_requires [of identity_main "c1 @ [''NewIdentityHandler''] @ c2" "''NewPublicKeyGRPCService''" "c3 @ [''func(*http.Server)'']"] built
    by (simp add: calls wiring)
  moreover have "''NewGRPCServer'' \<notin> set c1" using no1 [of "''NewGRPCServer''"] by (auto simp: db_part_def)
  ultimately have grpc: "''NewGRPCServer'' \<in> set c2" by simp
  have "''NewHTTPServer'' \<in> set (c1 @ [''NewIdentityHandler''] @ c2 @ [''NewPublicKeyGRPCService''] @ c3)"
    using built_requires [of identity_main "c1 @ [''NewIdentityHandler''] @ c2 @ [''NewPublicKeyGRPCService''] @ c3" "''func(*http.Server)''" "[]"] built
    by (simp add: calls wiring)
  moreover have "''NewHTTPServer'' \<notin> set c1" "''NewHTTPServer'' \<notin> set c2"
    using no1 [of "''NewHTTPServer''"] no2 [of "''NewHTTPServer''"] by (auto simp: db_part_def)
  ultimately have http: "''NewHTTPServer'' \<in> set c3" by simp
  have idle: "hooks_of env y = []" if "y \<notin> {''WithDatabaseConnection'', ''NewHTTPServer'', ''NewGRPCServer'', ''NewIdentityHandler''}" for y
    using that by (simp add: hooks_of_def)
  have h1: "hooks_of env y = []" if "y \<in> set c1" "y \<noteq> ''WithDatabaseConnection''" for y
    using no1 [OF that(1)] that(2) by (intro idle) (auto simp: db_part_def)
  have h2: "hooks_of env y = []" if "y \<in> set c2" "y \<noteq> ''NewGRPCServer''" for y
    using no2 [OF that(1)] that dist db by (intro idle) (auto simp: db_part_def)
  have h3: "hooks_of env y = []" if "y \<in> set c3" "y \<noteq> ''NewHTTPServer''" for y
    using that dist db grpc by (intro idle) auto
  have "concat (map (hooks_of env) c1) = hooks_of env ''WithDatabaseConnection''" by (rule concat_one [OF _ db h1]) (use dist in auto)
  moreover have "concat (map (hooks_of env) c2) = hooks_of env ''NewGRPCServer''" by (rule concat_one [OF _ grpc h2]) (use dist in auto)
  moreover have "concat (map (hooks_of env) c3) = hooks_of env ''NewHTTPServer''" by (rule concat_one [OF _ http h3]) (use dist in auto)
  ultimately show "concat (map (hooks_of env) (run_calls run)) = [CloseDB, MountRoutes, ServeGRPC (GetAddr (identity_NewGRPConfig env)),
      ServeHTTP (GetAddr (identity_NewHTTPConfig env))]"
    unfolding calls by (simp add: hooks_of_def)
  show "''WithDatabaseConnection'' \<in> set (run_calls run)" "''NewPublicKeyGRPCService'' \<in> set (run_calls run)"
    using db by (simp_all add: calls)
qed

section \<open>Properties\<close>

text \<open>C38: the identity service, in whatever order fx calls its constructors, panics when its database driver
  does not open; otherwise its hooks run in one order: the routes are mounted, which panics when the API
  document cannot be read, then it listens for gRPC, with its service registered before, and then for HTTP;
  so nobody is served before the routes and the service are there, and a start fails at the first address
  that is taken.\<close>

theorem identity_start:
  assumes "fx_run identity_main run" and "grpc = GetAddr (identity_NewGRPConfig env)" and "http = GetAddr (identity_NewHTTPConfig env)"
  shows "(case boot (identity_call env c) (run_calls run) identity_process0 of
      Panic m \<Rightarrow> ic_sql_Open c ''postgres'' (identity_uri env) \<noteq> None
    | Ret p \<Rightarrow> ic_sql_Open c ''postgres'' (identity_uri env) = None \<and> ip_db p = Some (identity_uri env)
        \<and> ip_registered p \<and> ip_listening p = []
        \<and> run_hooks (identity_OnStart c) (ip_hooks p) p =
            (case ic_GetSwagger c of
               Some err \<Rightarrow> (nil_deref, p)
             | None \<Rightarrow> (case ic_Listen c grpc of
                 Some err \<Rightarrow> (Ret (Some err), p\<lparr>ip_mounted := True\<rparr>)
               | None \<Rightarrow> (case ic_Listen c http of
                   Some err \<Rightarrow> (Ret (Some err), p\<lparr>ip_mounted := True, ip_listening := [grpc]\<rparr>)
                 | None \<Rightarrow> (Ret None, p\<lparr>ip_mounted := True, ip_listening := [grpc, http]\<rparr>)))))"
proof (cases "ic_sql_Open c ''postgres'' (identity_uri env) = None")
  case True
  note hooks = identity_hooks [OF assms(1)]
  from identity_boot_effect [OF True, of "run_calls run" identity_process0] True show ?thesis
    by (simp add: hooks identity_process0_def assms(2,3) split: option.split)
next
  case False
  from identity_boot_fails [OF this identity_hooks(2) [OF assms(1)], of identity_process0] False show ?thesis by auto
qed

definition identity_boot_run :: "(string list \<times> string) list" where
  "identity_boot_run = [([''NewDatabaseConfig'', ''WithDatabaseConnection'', ''NewPrivateKeyRepositroy'', ''NewUserRepository'',
       ''NewRefreshTokenRepository'', ''NewSecurityService'', ''NewUserService'', ''GetRouter'', ''WithOpenAPI3FilterOptions''],
       ''NewIdentityHandler''),
     ([''NewGRPConfig'', ''NewPublicKeyListInterceptor'', ''NewGRPCServer''], ''NewPublicKeyGRPCService''),
     ([''NewHTTPConfig'', ''GetRouter as http.Handler'', ''NewHTTPServer''], ''func(*http.Server)'')]"

lemma identity_boot_run_ok: "fx_run identity_main identity_boot_run"
proof (rule fx_runI [where n = "Suc (Suc (Suc 0))"])
  show "map snd identity_boot_run = map fn_name (ap_invokes identity_main)" by (simp add: identity_boot_run_def identity_invokes)
  show "distinct (run_calls identity_boot_run)" by (simp add: identity_boot_run_def run_calls_def)
  show "built identity_main [] (run_calls identity_boot_run)" by (simp add: identity_boot_run_def run_calls_def wiring)
  show "list_all (\<lambda>(cs, f). list_all (\<lambda>c. c \<in> set (upstream (Suc (Suc (Suc 0))) identity_main f)) cs) identity_boot_run"
    by (simp add: identity_boot_run_def wiring)
qed (simp add: identity_main_def)

theorem identity_start_witness:
  "\<exists>p p'. boot (identity_call Map.empty \<lparr>ic_sql_Open = \<lambda>_ _. None, ic_GetSwagger = None, ic_Listen = \<lambda>_. None\<rparr>)
      (run_calls identity_boot_run) identity_process0 = Ret p
    \<and> run_hooks (identity_OnStart \<lparr>ic_sql_Open = \<lambda>_ _. None, ic_GetSwagger = None, ic_Listen = \<lambda>_. None\<rparr>) (ip_hooks p) p = (Ret None, p')
    \<and> ip_mounted p' \<and> ip_listening p' = [''0.0.0.0:9093'', ''0.0.0.0:8083'']"
proof -
  have addr: "GetAddr (identity_NewGRPConfig Map.empty) = ''0.0.0.0:9093''" "GetAddr (identity_NewHTTPConfig Map.empty) = ''0.0.0.0:8083''"
    by (simp_all add: GetAddr_def join_host_port_def identity_NewGRPConfig_def identity_NewHTTPConfig_def)
  let ?c = "\<lparr>ic_sql_Open = \<lambda>_ _. None, ic_GetSwagger = None, ic_Listen = \<lambda>_. None\<rparr>"
  from identity_start [OF identity_boot_run_ok addr(1) [symmetric] addr(2) [symmetric], of ?c]
  show ?thesis by (cases "boot (identity_call Map.empty ?c) (run_calls identity_boot_run) identity_process0") auto
qed

end
