(* ===== verification/OperatorStart.thy ===== *)
theory OperatorStart imports Boot begin

text \<open>
  The start of the operator (\<open>operators/ingestion-operator/cmd/main.go\<close>), and that the constructors of
  all four services fit together.
\<close>

section \<open>The operator\<close>

record operator_calls =
  oc_NewManager :: "goerr option"
  oc_nats_Connect :: "string \<Rightarrow> goerr option"
  oc_JetStream :: "goerr option"
  oc_Listen :: "string \<Rightarrow> goerr option"
  oc_SetupWithManager :: "string \<Rightarrow> goerr option"
  oc_mgr_Add :: "goerr option"
  oc_AddCheck :: "string \<Rightarrow> goerr option"

text \<open>\<open>op_logger\<close>: whether the flags were bound to the options when the logger was made of them.\<close>

record operator_process =
  op_bound :: bool
  op_logger :: "bool option"
  op_config :: "ingest_operator_config option"
  op_ports :: "port_range option"
  op_nats :: "string option"
  op_js :: bool
  op_manager :: bool
  op_listener :: "string option"
  op_controllers :: "string list"
  op_registered :: bool
  op_checks :: "string list"
  op_hook :: bool

definition operator_process0 :: operator_process where
  "operator_process0 = \<lparr>op_bound = False, op_logger = None, op_config = None, op_ports = None, op_nats = None, op_js = False,
     op_manager = False, op_listener = None, op_controllers = [], op_registered = False, op_checks = [], op_hook = False\<rparr>"

definition operator_NewManager :: "operator_calls \<Rightarrow> operator_process \<Rightarrow> operator_process outcome" where
  "operator_NewManager c p = (case oc_NewManager c of Some err \<Rightarrow> os_Exit | None \<Rightarrow> Ret (p\<lparr>op_manager := True\<rparr>))"

text \<open>An address that is taken is only logged: the server is then given no listener.\<close>

definition operator_grpc_addr :: "environ \<Rightarrow> string" where
  "operator_grpc_addr env = join_host_port (Env env ''GRPC_HOST'' ''localhost'') (Env env ''GRPC_PORT'' ''9191'')"

definition NewGRPCRunnable :: "environ \<Rightarrow> operator_calls \<Rightarrow> operator_process \<Rightarrow> operator_process" where
  "NewGRPCRunnable env c p = p\<lparr>op_listener :=
     (case oc_Listen c (operator_grpc_addr env) of Some err \<Rightarrow> None | None \<Rightarrow> Some (operator_grpc_addr env))\<rparr>"

text \<open>The manager starts it: serving a nil listener is a nil dereference.  The address it serves.\<close>

definition GRPCRunnable_Start :: "operator_process \<Rightarrow> string outcome" where
  "GRPCRunnable_Start p = (case op_listener p of None \<Rightarrow> nil_deref | Some addr \<Rightarrow> Ret addr)"

definition operator_NewNatsConnection :: "environ \<Rightarrow> operator_calls \<Rightarrow> operator_process \<Rightarrow> operator_process outcome" where
  "operator_NewNatsConnection env c p =
     (case oc_nats_Connect c (GetUrl (NewNatsConfig env)) of
        Some err \<Rightarrow> Panic (''Unable start nats connection. Err: '' @ err_text err)
      | None \<Rightarrow> Ret (p\<lparr>op_nats := Some (GetUrl (NewNatsConfig env))\<rparr>))"

definition operator_NewNatsJetstream :: "operator_calls \<Rightarrow> operator_process \<Rightarrow> operator_process outcome" where
  "operator_NewNatsJetstream c p =
     (case oc_JetStream c of
        Some err \<Rightarrow> Panic (''Unable start nats jetstream connection. Err: '' @ err_text err)
      | None \<Rightarrow> Ret (p\<lparr>op_js := True\<rparr>))"

definition NewIngestController :: "operator_calls \<Rightarrow> operator_process \<Rightarrow> operator_process outcome" where
  "NewIngestController c p =
     (case oc_SetupWithManager c ''IngestTemplate'' of
        Some err \<Rightarrow> os_Exit | None \<Rightarrow> Ret (p\<lparr>op_controllers := op_controllers p @ [''IngestTemplate'']\<rparr>))"

definition RegisterIngestionControllerService :: "operator_process \<Rightarrow> operator_process" where
  "RegisterIngestionControllerService p = p\<lparr>op_registered := True\<rparr>"

definition operator_call :: "environ \<Rightarrow> operator_calls \<Rightarrow> string \<Rightarrow> operator_process \<Rightarrow> operator_process outcome" where
  "operator_call env c name p =
     (if name = ''NewZaprLogger'' then Ret (p\<lparr>op_logger := Some (op_bound p)\<rparr>)
      else if name = ''NewManager'' then operator_NewManager c p
      else if name = ''NewGRPCRunnable'' then Ret (NewGRPCRunnable env c p)
      else if name = ''NewNatsConnection'' then operator_NewNatsConnection env c p
      else if name = ''NewNatsJetstream'' then operator_NewNatsJetstream c p
      else if name = ''NewIngestOperatorConfig'' then
        (case NewIngestOperatorConfig env of Panic m \<Rightarrow> Panic m | Ret conf \<Rightarrow> Ret (p\<lparr>op_config := Some conf\<rparr>))
      else if name = ''NewPortRange'' then
        (case op_config p of
           None \<Rightarrow> nil_deref
         | Some conf \<Rightarrow> (case operator_NewPortRange conf of Panic m \<Rightarrow> Panic m | Ret r \<Rightarrow> Ret (p\<lparr>op_ports := Some r\<rparr>)))
      else if name = ''NewIngestController'' then NewIngestController c p
      else if name = ''func(*zap.Options)'' then Ret (p\<lparr>op_bound := True\<rparr>)
      else if name = ''RegisterIngestionControllerService'' then Ret (RegisterIngestionControllerService p)
      else if name = ''func(fx.Lifecycle, ctrl.Manager, *GRPCRunnable)'' then Ret (p\<lparr>op_hook := True\<rparr>)
      else Ret p)"

text \<open>The \<open>OnStart\<close> function of the one hook, up to where the manager is started in a goroutine.\<close>

definition operator_OnStart :: "operator_calls \<Rightarrow> operator_process \<Rightarrow> operator_process outcome" where
  "operator_OnStart c p =
     (if oc_mgr_Add c \<noteq> None then os_Exit
      else if oc_SetupWithManager c ''Gateway'' \<noteq> None then os_Exit
      else if oc_SetupWithManager c ''VirtualService'' \<noteq> None then os_Exit
      else if oc_AddCheck c ''healthz'' \<noteq> None then os_Exit
      else if oc_AddCheck c ''readyz'' \<noteq> None then os_Exit
      else Ret (p\<lparr>op_controllers := op_controllers p @ [''Gateway'', ''VirtualService''], op_checks := op_checks p @ [''healthz'', ''readyz'']\<rparr>))"

definition operator_works :: "environ \<Rightarrow> operator_calls \<Rightarrow> string \<Rightarrow> bool" where
  "operator_works env c name =
     (if name = ''NewManager'' then oc_NewManager c = None
      else if name = ''NewNatsConnection'' then oc_nats_Connect c (GetUrl (NewNatsConfig env)) = None
      else if name = ''NewNatsJetstream'' then oc_JetStream c = None
      else if name = ''NewIngestOperatorConfig'' then (\<exists>conf. NewIngestOperatorConfig env = Ret conf)
      else if name = ''NewPortRange'' then
        (\<forall>conf. NewIngestOperatorConfig env = Ret conf \<longrightarrow> (\<exists>r. operator_NewPortRange conf = Ret r))
      else if name = ''NewIngestController'' then oc_SetupWithManager c ''IngestTemplate'' = None
      else True)"

lemmas operator_call_defs = operator_call_def operator_NewManager_def NewGRPCRunnable_def operator_NewNatsConnection_def
  operator_NewNatsJetstream_def NewIngestController_def RegisterIngestionControllerService_def os_Exit_def

text \<open>What is known after some constructors and functions were called.\<close>

definition operator_boot_inv :: "environ \<Rightarrow> operator_calls \<Rightarrow> string list \<Rightarrow> operator_process \<Rightarrow> bool" where
  "operator_boot_inv env c seen p \<longleftrightarrow>
     (''NewIngestOperatorConfig'' \<in> set seen \<longrightarrow> (\<exists>conf. NewIngestOperatorConfig env = Ret conf \<and> op_config p = Some conf))
   \<and> (''NewPortRange'' \<in> set seen \<longrightarrow> (\<exists>conf r. NewIngestOperatorConfig env = Ret conf \<and> operator_NewPortRange conf = Ret r \<and> op_ports p = Some r))
   \<and> op_config p \<in> {None} \<union> {Some conf |conf. NewIngestOperatorConfig env = Ret conf}
   \<and> (''NewGRPCRunnable'' \<in> set seen \<longrightarrow> op_listener p
        = (case oc_Listen c (operator_grpc_addr env) of Some err \<Rightarrow> None | None \<Rightarrow> Some (operator_grpc_addr env)))"

lemma operator_call_else:
  assumes "operator_call env c x p = Ret p'"
  shows "x \<notin> {''NewIngestOperatorConfig'', ''NewPortRange'', ''NewGRPCRunnable''} \<Longrightarrow>
    op_config p' = op_config p \<and> op_ports p' = op_ports p \<and> op_listener p' = op_listener p"
  using assms by (clarsimp simp: operator_call_defs split: if_split_asm option.split_asm outcome.split_asm)

interpretation operator_start: service_start operator_main "operator_call env c" "operator_works env c" "operator_boot_inv env c" for env c
proof
  fix seen p x
  assume inv: "operator_boot_inv env c seen p" and "set (requires_names operator_main x) \<subseteq> set seen"
  then have conf: "\<exists>conf. NewIngestOperatorConfig env = Ret conf \<and> op_config p = Some conf" if "x = ''NewPortRange''"
    unfolding that by (simp add: wiring operator_boot_inv_def)
  show "(\<exists>p'. operator_call env c x p = Ret p') \<longleftrightarrow> operator_works env c x"
  proof (cases "x = ''NewPortRange''")
    case True
    from conf [OF True] obtain conf where "NewIngestOperatorConfig env = Ret conf" "op_config p = Some conf" by blast
    with True show ?thesis by (cases "operator_NewPortRange conf") (simp_all add: operator_call_def operator_works_def)
  next
    case False
    then show ?thesis by (simp add: operator_call_defs operator_works_def split: option.split outcome.split)
  qed
next
  fix seen p x p'
  assume inv: "operator_boot_inv env c seen p" and call: "operator_call env c x p = Ret p'"
  consider "x = ''NewIngestOperatorConfig''" | "x = ''NewPortRange''" | "x = ''NewGRPCRunnable''"
    | "x \<notin> {''NewIngestOperatorConfig'', ''NewPortRange'', ''NewGRPCRunnable''}" by (simp only: insert_iff empty_iff) argo
  then show "operator_boot_inv env c (x # seen) p'"
  proof cases
    case 1
    with call inv show ?thesis
      by (cases "NewIngestOperatorConfig env") (simp_all add: operator_boot_inv_def operator_call_def, hypsubst, simp)
  next
    case 2
    with inv call show ?thesis
      by (cases "op_config p"; cases "operator_NewPortRange (the (op_config p))") (simp_all add: operator_boot_inv_def operator_call_def, hypsubst, simp)
  next
    case 3
    with inv call show ?thesis by (simp add: operator_boot_inv_def operator_call_def NewGRPCRunnable_def, hypsubst, simp)
  next
    case 4
    with operator_call_else [OF call] inv show ?thesis by (simp add: operator_boot_inv_def eq_commute [of _ x])
  qed
qed

lemma operator_invokes:
  "map fn_name (ap_invokes operator_main) = [''NewIngestController'', ''func(*zap.Options)'', ''func(logr.Logger)'',
     ''RegisterIngestionControllerService'', ''func(fx.Lifecycle, ctrl.Manager, *GRPCRunnable)'']"
  by (simp add: operator_main_def func_def)

lemma operator_run_calls:
  assumes "fx_run operator_main run"
  shows "{''NewManager'', ''NewNatsConnection'', ''NewNatsJetstream'', ''NewIngestOperatorConfig'', ''NewPortRange'', ''NewIngestController''}
      \<subseteq> set (run_calls run)"
    and "''NewGRPCRunnable'' \<in> set (run_calls run)" and "''NewZaprLogger'' \<in> set (run_calls run)"
proof -
  have "{''NewManager'', ''NewNatsConnection'', ''NewNatsJetstream'', ''NewIngestOperatorConfig'', ''NewPortRange''}
      \<subseteq> set (upstream (Suc (Suc (Suc 0))) operator_main ''NewIngestController'')"
    by (simp add: wiring)
  then have "x = ''NewIngestController'' \<or> x \<in> set (upstream (Suc (Suc (Suc 0))) operator_main ''NewIngestController'')"
    if "x \<in> {''NewManager'', ''NewNatsConnection'', ''NewNatsJetstream'', ''NewIngestOperatorConfig'', ''NewPortRange'', ''NewIngestController''}" for x
    using that by blast
  with fx_run_calls [OF assms, of "''NewIngestController''"] show
    "{''NewManager'', ''NewNatsConnection'', ''NewNatsJetstream'', ''NewIngestOperatorConfig'', ''NewPortRange'', ''NewIngestController''}
      \<subseteq> set (run_calls run)" unfolding operator_invokes by (meson list.set_intros(1) subsetI)
  show "''NewGRPCRunnable'' \<in> set (run_calls run)"
    by (rule fx_run_calls [OF assms, where f = "''func(fx.Lifecycle, ctrl.Manager, *GRPCRunnable)''" and n = "Suc 0"])
      (simp_all add: operator_invokes wiring)
  show "''NewZaprLogger'' \<in> set (run_calls run)"
    by (rule fx_run_calls [OF assms, where f = "''NewIngestController''" and n = "Suc (Suc 0)"]) (simp_all add: operator_invokes wiring)
qed

lemma operator_works_else:
  "operator_works env c x \<or> x \<in> {''NewManager'', ''NewNatsConnection'', ''NewNatsJetstream'', ''NewIngestOperatorConfig'',
    ''NewPortRange'', ''NewIngestController''}"
  by (simp add: operator_works_def)

lemma operator_boot_inv0: "operator_boot_inv env c [] operator_process0"
  by (simp add: operator_boot_inv_def operator_process0_def)

text \<open>The logger is made for the first function that is invoked, before the one that binds the flags.\<close>

lemma operator_flags_late:
  assumes "fx_run operator_main run"
  obtains as bs cs where "run_calls run = as @ ''NewZaprLogger'' # bs @ ''func(*zap.Options)'' # cs" "''NewZaprLogger'' \<notin> set cs"
    "''func(*zap.Options)'' \<notin> set as"
proof -
  have "map snd run = [''NewIngestController'', ''func(*zap.Options)'', ''func(logr.Logger)'',
     ''RegisterIngestionControllerService'', ''func(fx.Lifecycle, ctrl.Manager, *GRPCRunnable)'']"
    using assms operator_invokes by (simp add: fx_run_def)
  then obtain c1 c2 rest where run: "run = (c1, ''NewIngestController'') # (c2, ''func(*zap.Options)'') # rest"
    by (auto simp: map_eq_Cons_conv)
  have calls: "run_calls run = c1 @ ''NewIngestController'' # (c2 @ ''func(*zap.Options)'' # run_calls rest)"
    by (simp add: run run_calls_def)
  have "set (upstream (Suc (Suc 0)) operator_main ''NewIngestController'') \<subseteq> set c1"
    by (rule built_upstream) (use assms calls in \<open>auto simp: fx_run_def\<close>)
  then have "''NewZaprLogger'' \<in> set c1" by (simp add: wiring)
  then obtain as bs where c1: "c1 = as @ ''NewZaprLogger'' # bs" by (meson split_list)
  have "distinct (run_calls run)" using assms by (simp add: fx_run_def)
  then have "''NewZaprLogger'' \<notin> set (run_calls rest)" "''func(*zap.Options)'' \<notin> set as" by (auto simp: calls c1)
  with calls c1 show ?thesis by (intro that [of as "bs @ ''NewIngestController'' # c2" "run_calls rest"]) simp_all
qed

lemma operator_call_bound:
  "operator_call env c y q = Ret q' \<Longrightarrow> y \<noteq> ''func(*zap.Options)'' \<Longrightarrow> op_bound q' = op_bound q"
  "operator_call env c y q = Ret q' \<Longrightarrow> y \<noteq> ''NewZaprLogger'' \<Longrightarrow> op_logger q' = op_logger q"
  "operator_call env c ''NewZaprLogger'' q = Ret q' \<Longrightarrow> op_logger q' = Some (op_bound q)"
  by (auto simp: operator_call_defs split: if_splits option.splits outcome.splits)

lemma operator_logger:
  assumes "fx_run operator_main run" and "boot (operator_call env c) (run_calls run) operator_process0 = Ret p"
  shows "op_logger p = Some False"
proof -
  obtain as bs cs where calls: "run_calls run = as @ ''NewZaprLogger'' # bs @ ''func(*zap.Options)'' # cs" and no: "''func(*zap.Options)'' \<notin> set as"
    by (rule operator_flags_late [OF assms(1)])
  have "distinct (run_calls run)" using assms(1) by (simp add: fx_run_def)
  then have no2: "''NewZaprLogger'' \<notin> set (bs @ ''func(*zap.Options)'' # cs)" by (auto simp: calls)
  from assms(2) obtain q1 q2 where q: "boot (operator_call env c) as operator_process0 = Ret q1"
    "operator_call env c ''NewZaprLogger'' q1 = Ret q2" "boot (operator_call env c) (bs @ ''func(*zap.Options)'' # cs) q2 = Ret p"
    unfolding calls by (subst (asm) boot_append) (auto split: outcome.splits)
  have "\<not> op_bound q1"
  proof (rule boot_frame [OF q(1), where P = "\<lambda>q. \<not> op_bound q"])
    show "\<not> op_bound q'" if "y \<in> set as" "\<not> op_bound q" "operator_call env c y q = Ret q'" for y q q'
      using operator_call_bound(1) [OF that(3)] that(1,2) no by metis
  qed (simp add: operator_process0_def)
  with operator_call_bound(3) [OF q(2)] have "op_logger q2 = Some False" by simp
  then show ?thesis
  proof (rule boot_frame [OF q(3), where P = "\<lambda>q. op_logger q = Some False"])
    show "op_logger q' = Some False" if "y \<in> set (bs @ ''func(*zap.Options)'' # cs)" "op_logger q = Some False"
      "operator_call env c y q = Ret q'" for y q q'
      using operator_call_bound(2) [OF that(3)] that(1,2) no2 by metis
  qed
qed

text \<open>Everything that registers something does so once.\<close>

lemma operator_call_controllers:
  assumes "operator_call env c y q = Ret q'"
  shows "op_controllers q' = op_controllers q @ (if y = ''NewIngestController'' then [''IngestTemplate''] else [])"
proof (cases "y = ''NewIngestController''")
  case True
  with assms have "q' = q\<lparr>op_controllers := op_controllers q @ [''IngestTemplate'']\<rparr>"
    by (simp add: operator_call_def NewIngestController_def os_Exit_def split: option.splits)
  with True show ?thesis by simp
next
  case False
  with assms show ?thesis by (clarsimp simp: operator_call_defs split: if_split_asm option.split_asm outcome.split_asm)
qed

lemma operator_controllers:
  "boot (operator_call env c) calls p = Ret p' \<Longrightarrow> distinct calls \<Longrightarrow> ''NewIngestController'' \<in> set calls \<Longrightarrow>
    op_controllers p' = op_controllers p @ [''IngestTemplate'']"
  and "boot (operator_call env c) calls p = Ret p' \<Longrightarrow> ''NewIngestController'' \<notin> set calls \<Longrightarrow> op_controllers p' = op_controllers p"
proof (induction calls arbitrary: p)
  case (Cons y calls)
  {
    case 1
    then obtain q where q: "operator_call env c y p = Ret q" "boot (operator_call env c) calls q = Ret p'" by (auto split: outcome.splits)
    show ?case using Cons.IH [OF q(2)] operator_call_controllers [OF q(1)] 1(2,3) by (cases "y = ''NewIngestController''") auto
  next
    case 2
    then obtain q where q: "operator_call env c y p = Ret q" "boot (operator_call env c) calls q = Ret p'" by (auto split: outcome.splits)
    show ?case using Cons.IH(2) [OF q(2)] operator_call_controllers [OF q(1)] 2(2) by auto
  }
qed simp_all

lemma operator_call_registered:
  "operator_call env c ''RegisterIngestionControllerService'' q = Ret q' \<Longrightarrow> op_registered q'"
  "operator_call env c y q = Ret q' \<Longrightarrow> op_registered q \<Longrightarrow> op_registered q'"
  by (auto simp: operator_call_def RegisterIngestionControllerService_def)
    (clarsimp simp: operator_call_defs split: if_split_asm option.split_asm outcome.split_asm)


definition operator_boot_run :: "(string list \<times> string) list" where
  "operator_boot_run = [([''NewManagerOptions'', ''NewZaprOptions'', ''NewZaprLogger'', ''NewLogrLogger'',
      ''NewManager'', ''NewK8sClient'', ''NewIngestResourceManager'', ''NewIstioResourceManager'',
      ''NewNatsConfig'', ''NewNatsConnection'', ''NewNatsJetstream'', ''NewIngestOperatorConfig'',
      ''NewPortRange'', ''NewIngestSystem''], ''NewIngestController''),
     ([], ''func(*zap.Options)''),
     ([], ''func(logr.Logger)''),
     ([''NewLoggerInterceptor'', ''NewGRPCServer'', ''NewIngestControllerService''],
      ''RegisterIngestionControllerService''),
     ([''NewGRPCRunnable''], ''func(fx.Lifecycle, ctrl.Manager, *GRPCRunnable)'')]"

lemma operator_boot_run_ok: "fx_run operator_main operator_boot_run"
proof (rule fx_runI [where n = "Suc (Suc (Suc (Suc (Suc (Suc 0)))))"])
  show "map snd operator_boot_run = map fn_name (ap_invokes operator_main)" by (simp add: operator_boot_run_def operator_invokes)
  show "distinct (run_calls operator_boot_run)" by code_simp
  show "built operator_main [] (run_calls operator_boot_run)" by (simp add: operator_boot_run_def run_calls_def wiring)
  show "list_all (\<lambda>(cs, f). list_all (\<lambda>c. c \<in> set (upstream (Suc (Suc (Suc (Suc (Suc (Suc 0)))))) operator_main f)) cs) operator_boot_run"
    by (simp add: operator_boot_run_def wiring)
qed (simp add: operator_main_def)


section \<open>The wiring of the four services\<close>

definition identity_order :: "string list" where
  "identity_order = [''GetRouter'', ''GetRouter as http.Handler'', ''NewDatabaseConfig'',
      ''WithDatabaseConnection'', ''WithOpenAPI3FilterOptions'', ''NewPrivateKeyRepositroy'',
      ''NewUserRepository'', ''NewRefreshTokenRepository'', ''NewSecurityService'', ''NewUserService'',
      ''NewHTTPConfig'', ''NewHTTPServer'', ''NewPublicKeyListInterceptor'', ''NewGRPConfig'',
      ''NewGRPCServer'', ''NewIdentityHandler'', ''NewPublicKeyGRPCService'', ''func(*http.Server)'']"

definition stream_order :: "string list" where
  "stream_order = [''Router'', ''Router as http.Handler'', ''NewStreamHttpConfig'',
      ''NewPublicKeyClientConfig'', ''NewPublicKeyClient'', ''NewIdentityPublicKeyResolver'',
      ''NewAsymmetricEncryptionAuthenticator'', ''NewOpenAPI3FilterOptions'',
      ''NewSpecOptionsHandlerConstructor'', ''NewStreamSystemConfig'', ''NewDatabaseConfig'',
      ''WithDatabaseConnection'', ''NewActiveStreamRepository'', ''NewStreamStatus'',
      ''WithRefreshTokenAuthenticator'', ''NewNatsConfig'', ''WithNatsConnection'', ''NewNatsJetstream'',
      ''NewIngestOperatorConfig'', ''WithIngestOperatorClient'', ''NewStreamService'',
      ''NewStreaminServiceHandler'', ''NewStreamChannelsService'', ''NewStreamChannelsServiceHandler'',
      ''NewStreamEgressRepository'', ''StartStreamHttp'', ''StartIngestStatusWorker'',
      ''StartIngestDestroyedWorker'']"

definition operator_order :: "string list" where
  "operator_order = [''NewZaprOptions'', ''NewZaprLogger'', ''NewLogrLogger'', ''NewLoggerInterceptor'',
      ''NewManagerOptions'', ''NewManager'', ''NewK8sClient'', ''NewGRPCServer'', ''NewGRPCRunnable'',
      ''NewNatsConfig'', ''NewNatsConnection'', ''NewNatsJetstream'', ''NewIngestOperatorConfig'',
      ''NewPortRange'', ''NewIstioResourceManager'', ''NewIngestResourceManager'', ''NewIngestSystem'',
      ''NewIngestControllerService'', ''NewIngestController'', ''func(*zap.Options)'', ''func(logr.Logger)'',
      ''RegisterIngestionControllerService'', ''func(fx.Lifecycle, ctrl.Manager, *GRPCRunnable)'']"

definition ingest_order :: "string list" where
  "ingest_order = [''NewNatsConfig'', ''NewNatsConnection'', ''NewIngestWebrtcConfig'', ''NewIngestHttpConfig'',
      ''NewRouter'', ''NewIngestWebrtcAPI'', ''NewIngestSystemConfig'', ''NewFFmpegHLSMediaProcessor'',
      ''NewWebrtcAllocatorFunc'', ''func() *shutdown.Shutdown'', ''NewStatefulStreamGlobal'',
      ''NewWhipHandler'', ''NewWhepHandler'', ''NewHLSHandler'', ''StartIngestHttp'', ''StartIngestWebrtc'']"

lemma unique_names: "distinct (map fn_name (ap_funcs identity_main))" "distinct (map fn_name (ap_funcs stream_main))"
  "distinct (map fn_name (ap_funcs operator_main))" "distinct (map fn_name (ap_funcs ingest_main))"
  by code_simp+

lemma one_suppliers:
  "list_all (\<lambda>f. list_all (one_supplier identity_main f) (fn_needs f)) (ap_funcs identity_main)"
  "list_all (\<lambda>f. list_all (one_supplier stream_main f) (fn_needs f)) (ap_funcs stream_main)"
  "list_all (\<lambda>f. list_all (one_supplier operator_main f) (fn_needs f)) (ap_funcs operator_main)"
  "list_all (\<lambda>f. list_all (one_supplier ingest_main f) (fn_needs f)) (ap_funcs ingest_main)"
  by code_simp+

lemma orders_built: "built identity_main [] identity_order" "built stream_main [] stream_order"
  "built operator_main [] operator_order" "built ingest_main [] ingest_order"
  by (simp_all add: identity_order_def stream_order_def operator_order_def ingest_order_def wiring)

lemma orders_all: "set identity_order = set (map fn_name (ap_funcs identity_main))"
  "set stream_order = set (map fn_name (ap_funcs stream_main))"
  "set operator_order = set (map fn_name (ap_funcs operator_main))" "set ingest_order = set (map fn_name (ap_funcs ingest_main))"
  by code_simp+

text \<open>In each of the four services every parameter of every constructor and of every invoked function
  has exactly one constructor that gives its type, and no constructor needs itself in turn.\<close>

theorem services_wired: "wired identity_main \<and> wired stream_main \<and> wired operator_main \<and> wired ingest_main"
  unfolding wired_def using unique_names one_suppliers orders_built orders_all by blast

end
