(* ===== verification/IngestStart.thy ===== *)
theory IngestStart imports Boot IngestServer begin

text \<open>
  The start of the ingest server (\<open>services/ingest/cmd/ingest/main.go\<close>): the set-up of the WebRTC API, the
  routes, when the server boots, and that it never connects to NATS.
\<close>

section \<open>The WebRTC API\<close>

record 'm ingest_calls =
  gc_engine :: 'm
  gc_engine_lib :: "'m media_engine_lib"
  gc_RegisterDefaultCodecs :: "'m \<Rightarrow> 'm"
  gc_UDPMux :: "16 word \<Rightarrow> goerr option"
  gc_ListenTCP :: "16 word \<Rightarrow> goerr option"
  gc_interfaces :: "goerr + net_iface list"
  gc_intervalpli :: "goerr option"
  gc_RegisterDefaultInterceptors :: "'m \<Rightarrow> goerr option \<times> 'm"
  gc_nats_Connect :: "string \<Rightarrow> goerr option"
  gc_Listen :: "string \<Rightarrow> goerr option"

text \<open>\<open>wa_interceptors\<close>: the registry that the API was given, if any.\<close>

record 'm webrtc_api =
  wa_engine :: 'm
  wa_udp :: "16 word"
  wa_tcp :: "16 word"
  wa_nat_ips :: "string list"
  wa_interceptors :: "string list option"

text \<open>
  The error of registering the default codecs is dropped.  The registry with the interval PLI interceptor is
  set up and then not given to the API.
\<close>

definition NewIngestWebrtcAPI :: "'m ingest_calls \<Rightarrow> ingest_webrtc_config \<Rightarrow> 'm webrtc_api outcome" where
  "NewIngestWebrtcAPI c config =
     (let engine = gc_RegisterDefaultCodecs c (gc_engine c) in
      case gc_UDPMux c (UDPPort config) of
        Some err \<Rightarrow> Panic (err_text err)
      | None \<Rightarrow>
          (case gc_ListenTCP c (TCPPort config) of
             Some err \<Rightarrow> Panic (err_text err)
           | None \<Rightarrow>
               (case populateMediaEngine (gc_engine_lib c) engine of
                  (Panic m, _) \<Rightarrow> Panic m
                | (Ret (Some err), _) \<Rightarrow> Panic (err_text err)
                | (Ret None, engine1) \<Rightarrow>
                    (case gc_intervalpli c of
                       Some err \<Rightarrow> Panic (err_text err)
                     | None \<Rightarrow>
                         (case gc_RegisterDefaultInterceptors c engine1 of
                            (Some err, _) \<Rightarrow> os_Exit
                          | (None, engine2) \<Rightarrow>
                              Ret \<lparr>wa_engine = engine2, wa_udp = UDPPort config, wa_tcp = TCPPort config,
                                   wa_nat_ips = nat_ips (NATPublicIP config) (gc_interfaces c), wa_interceptors = None\<rparr>)))))"

section \<open>The routes\<close>

datatype http_router = MuxRouter "(string \<times> string) list" | OtherRouter

fun whip_GetOption :: "http_router \<Rightarrow> http_router outcome" where
  "whip_GetOption (MuxRouter routes) = Ret (MuxRouter (routes @ [(''/api/ingress/whip'', ''whip.Handler'')]))"
| "whip_GetOption OtherRouter = Panic ''unsupported whip handler''"

fun whep_GetOption :: "http_router \<Rightarrow> http_router outcome" where
  "whep_GetOption (MuxRouter routes) = Ret (MuxRouter (routes @ [(''/api/egress/whep'', ''whep.Whep'')]))"
| "whep_GetOption OtherRouter = Panic ''unsupported hls handler''"

fun hls_GetOption :: "http_router \<Rightarrow> http_router outcome" where
  "hls_GetOption (MuxRouter routes) =
     Ret (MuxRouter (routes @ [(''/api/egress/hls'', ''hls.Manifest''), (''/api/egress/hls/{segment}'', ''hls.Segment'')]))"
| "hls_GetOption OtherRouter = Panic ''unsupported hls handler''"

fun mount_options :: "('r \<Rightarrow> 'r outcome) list \<Rightarrow> 'r \<Rightarrow> 'r outcome" where
  "mount_options [] r = Ret r"
| "mount_options (f # fs) r = (case f r of Panic m \<Rightarrow> Panic m | Ret r1 \<Rightarrow> mount_options fs r1)"

section \<open>The process\<close>

record 'm ingest_process =
  gp_config :: "ingest_webrtc_config option"
  gp_system :: "ingest_system_config option"
  gp_api :: "'m webrtc_api option"
  gp_router :: http_router
  gp_nats :: "string option"
  gp_listening :: "string option"

definition ingest_process0 :: "'m ingest_process" where
  "ingest_process0 = \<lparr>gp_config = None, gp_system = None, gp_api = None, gp_router = MuxRouter [], gp_nats = None, gp_listening = None\<rparr>"

definition ingest_NewNatsConnection :: "environ \<Rightarrow> 'm ingest_calls \<Rightarrow> 'm ingest_process \<Rightarrow> 'm ingest_process outcome" where
  "ingest_NewNatsConnection env c p =
     (case gc_nats_Connect c (GetUrl (NewNatsConfig env)) of
        Some err \<Rightarrow> os_Exit | None \<Rightarrow> Ret (p\<lparr>gp_nats := Some (GetUrl (NewNatsConfig env))\<rparr>))"

definition StartIngestHttp :: "environ \<Rightarrow> 'm ingest_calls \<Rightarrow> 'm ingest_process \<Rightarrow> 'm ingest_process outcome" where
  "StartIngestHttp env c p =
     (let addr = GetAddr (NewIngestHttpConfig env) in
      case mount_options [whip_GetOption, whep_GetOption, hls_GetOption] (gp_router p) of
        Panic m \<Rightarrow> Panic m
      | Ret r \<Rightarrow>
          (case gc_Listen c addr of
             Some err \<Rightarrow> Panic (err_text err)
           | None \<Rightarrow> Ret (p\<lparr>gp_router := r, gp_listening := Some addr\<rparr>)))"

text \<open>A constructor that returns an error ends the program as well.\<close>

definition ingest_call :: "environ \<Rightarrow> 'm ingest_calls \<Rightarrow> string \<Rightarrow> 'm ingest_process \<Rightarrow> 'm ingest_process outcome" where
  "ingest_call env c name p =
     (if name = ''NewIngestWebrtcConfig'' then
        (case NewIngestWebrtcConfig env of Panic m \<Rightarrow> Panic m | Ret config \<Rightarrow> Ret (p\<lparr>gp_config := Some config\<rparr>))
      else if name = ''NewIngestSystemConfig'' then
        (case NewIngestSystemConfig env of Panic m \<Rightarrow> Panic m | Ret config \<Rightarrow> Ret (p\<lparr>gp_system := Some config\<rparr>))
      else if name = ''NewIngestWebrtcAPI'' then
        (case gp_config p of
           None \<Rightarrow> nil_deref
         | Some config \<Rightarrow> (case NewIngestWebrtcAPI c config of Panic m \<Rightarrow> Panic m | Ret api \<Rightarrow> Ret (p\<lparr>gp_api := Some api\<rparr>)))
      else if name = ''NewNatsConnection'' then ingest_NewNatsConnection env c p
      else if name = ''StartIngestHttp'' then StartIngestHttp env c p
      else Ret p)"

section \<open>Lemmas\<close>

lemma NewIngestWebrtcAPI_Ret:
  "NewIngestWebrtcAPI c config = Ret api \<longleftrightarrow>
     gc_UDPMux c (UDPPort config) = None \<and> gc_ListenTCP c (TCPPort config) = None \<and> gc_intervalpli c = None
   \<and> (\<exists>engine1. populateMediaEngine (gc_engine_lib c) (gc_RegisterDefaultCodecs c (gc_engine c)) = (Ret None, engine1)
      \<and> fst (gc_RegisterDefaultInterceptors c engine1) = None
      \<and> api = \<lparr>wa_engine = snd (gc_RegisterDefaultInterceptors c engine1), wa_udp = UDPPort config, wa_tcp = TCPPort config,
                 wa_nat_ips = nat_ips (NATPublicIP config) (gc_interfaces c), wa_interceptors = None\<rparr>)"
  by (auto simp: NewIngestWebrtcAPI_def Let_def os_Exit_def split: option.split prod.split outcome.split)

lemma NewIngestSystemConfig_Ret: "\<exists>config. NewIngestSystemConfig env = Ret config"
  by (auto simp: NewIngestSystemConfig_def ptr_of_def Let_def split: sum.split)

definition ingest_routes :: "(string \<times> string) list" where
  "ingest_routes = [(''/api/ingress/whip'', ''whip.Handler''), (''/api/egress/whep'', ''whep.Whep''),
     (''/api/egress/hls'', ''hls.Manifest''), (''/api/egress/hls/{segment}'', ''hls.Segment'')]"

lemma mount_ingest: "mount_options [whip_GetOption, whep_GetOption, hls_GetOption] (MuxRouter rs) = Ret (MuxRouter (rs @ ingest_routes))"
  by (simp add: ingest_routes_def)

definition ingest_works :: "environ \<Rightarrow> 'm ingest_calls \<Rightarrow> string \<Rightarrow> bool" where
  "ingest_works env c name =
     (if name = ''NewIngestWebrtcConfig'' then (\<exists>config. NewIngestWebrtcConfig env = Ret config)
      else if name = ''NewIngestWebrtcAPI'' then
        (\<forall>config. NewIngestWebrtcConfig env = Ret config \<longrightarrow> (\<exists>api. NewIngestWebrtcAPI c config = Ret api))
      else if name = ''NewNatsConnection'' then gc_nats_Connect c (GetUrl (NewNatsConfig env)) = None
      else if name = ''StartIngestHttp'' then gc_Listen c (GetAddr (NewIngestHttpConfig env)) = None
      else True)"

definition ingest_inv :: "environ \<Rightarrow> 'm ingest_calls \<Rightarrow> string list \<Rightarrow> 'm ingest_process \<Rightarrow> bool" where
  "ingest_inv env c seen p \<longleftrightarrow>
     (''NewIngestWebrtcConfig'' \<in> set seen \<longrightarrow> gp_config p \<noteq> None)
   \<and> (\<forall>config. gp_config p = Some config \<longrightarrow> NewIngestWebrtcConfig env = Ret config)
   \<and> (''NewIngestWebrtcAPI'' \<in> set seen \<longrightarrow>
        (\<exists>config api. NewIngestWebrtcConfig env = Ret config \<and> NewIngestWebrtcAPI c config = Ret api \<and> gp_api p = Some api))
   \<and> (\<exists>rs. gp_router p = MuxRouter rs)
   \<and> (distinct seen \<longrightarrow> gp_router p = MuxRouter (if ''StartIngestHttp'' \<in> set seen then ingest_routes else []))
   \<and> (''StartIngestHttp'' \<in> set seen \<longrightarrow> gp_listening p = Some (GetAddr (NewIngestHttpConfig env)))"

lemma ingest_inv_else:
  assumes "ingest_inv env c seen p" and "gp_config p' = gp_config p" and "gp_api p' = gp_api p" and "gp_router p' = gp_router p"
    and "gp_listening p' = gp_listening p" and "x \<notin> {''NewIngestWebrtcConfig'', ''NewIngestWebrtcAPI'', ''StartIngestHttp''}"
  shows "ingest_inv env c (x # seen) p'"
  using assms by (simp add: ingest_inv_def eq_commute [of _ x])

lemma ingest_call_else:
  assumes "ingest_call env c x p = Ret p'" and "x \<notin> {''NewIngestWebrtcConfig'', ''NewIngestWebrtcAPI'', ''StartIngestHttp''}"
  shows "gp_config p' = gp_config p \<and> gp_api p' = gp_api p \<and> gp_router p' = gp_router p \<and> gp_listening p' = gp_listening p"
  using assms by (clarsimp simp: ingest_call_def ingest_NewNatsConnection_def os_Exit_def
    split: if_split_asm option.split_asm outcome.split_asm)

interpretation ingest_start: service_start ingest_main "ingest_call env c" "ingest_works env c" "ingest_inv env c" for env c
proof
  fix seen p x
  assume inv: "ingest_inv env c seen p" and req: "set (requires_names ingest_main x) \<subseteq> set seen"
  consider "x = ''NewIngestWebrtcAPI''" | "x = ''StartIngestHttp''" | "x \<noteq> ''NewIngestWebrtcAPI''" "x \<noteq> ''StartIngestHttp''" by argo
  then show "(\<exists>p'. ingest_call env c x p = Ret p') \<longleftrightarrow> ingest_works env c x"
  proof cases
    case 1
    with req have "''NewIngestWebrtcConfig'' \<in> set seen" by (simp add: wiring)
    with inv obtain config where "NewIngestWebrtcConfig env = Ret config" "gp_config p = Some config" unfolding ingest_inv_def by blast
    with 1 show ?thesis by (cases "NewIngestWebrtcAPI c config") (simp_all add: ingest_call_def ingest_works_def)
  next
    case 2
    from inv obtain rs where "gp_router p = MuxRouter rs" unfolding ingest_inv_def by blast
    with 2 show ?thesis by (simp add: ingest_call_def ingest_works_def StartIngestHttp_def mount_ingest Let_def split: option.split
        del: mount_options.simps)
  next
    case 3
    obtain config where "NewIngestSystemConfig env = Ret config" using NewIngestSystemConfig_Ret by blast
    with 3 show ?thesis by (simp add: ingest_call_def ingest_works_def ingest_NewNatsConnection_def os_Exit_def split: option.split outcome.split)
  qed
next
  fix seen p x p'
  assume inv: "ingest_inv env c seen p" and call: "ingest_call env c x p = Ret p'"
  consider "x = ''NewIngestWebrtcConfig''" | "x = ''NewIngestWebrtcAPI''" | "x = ''StartIngestHttp''"
    | "x \<notin> {''NewIngestWebrtcConfig'', ''NewIngestWebrtcAPI'', ''StartIngestHttp''}" by (simp only: insert_iff empty_iff) argo
  then show "ingest_inv env c (x # seen) p'"
  proof cases
    case 1
    with call obtain config where "NewIngestWebrtcConfig env = Ret config" "p' = p\<lparr>gp_config := Some config\<rparr>"
      by (auto simp: ingest_call_def split: outcome.splits)
    with 1 inv show ?thesis by (simp add: ingest_inv_def)
  next
    case 2
    with call obtain config api where api: "gp_config p = Some config" "NewIngestWebrtcAPI c config = Ret api" "p' = p\<lparr>gp_api := Some api\<rparr>"
      by (auto simp: ingest_call_def split: option.splits outcome.splits)
    with inv have "NewIngestWebrtcConfig env = Ret config" by (simp add: ingest_inv_def)
    with 2 api inv show ?thesis by (simp add: ingest_inv_def)
  next
    case 3
    from inv obtain rs where rs: "gp_router p = MuxRouter rs" unfolding ingest_inv_def by blast
    with 3 call have p': "p' = p\<lparr>gp_router := MuxRouter (rs @ ingest_routes), gp_listening := Some (GetAddr (NewIngestHttpConfig env))\<rparr>"
      by (simp add: ingest_call_def StartIngestHttp_def mount_ingest Let_def split: option.splits del: mount_options.simps)
    have "rs = []" if "distinct (x # seen)" using inv rs that 3 by (simp add: ingest_inv_def)
    with 3 p' inv show ?thesis by (simp add: ingest_inv_def)
  next
    case 4
    from ingest_inv_else [OF inv] ingest_call_else [OF call 4] 4 show ?thesis by blast
  qed
qed

text \<open>The ingest server has a connection to NATS provided, but nothing needs it: it is never made, and so
  the server publishes nothing.\<close>

definition ingest_part :: "string set" where
  "ingest_part = {''NewIngestWebrtcConfig'', ''NewIngestHttpConfig'', ''NewRouter'', ''NewIngestWebrtcAPI'', ''NewIngestSystemConfig'',
     ''NewWebrtcAllocatorFunc'', ''NewStatefulStreamGlobal'', ''NewWhipHandler'', ''NewWhepHandler'', ''NewHLSHandler'',
     ''NewFFmpegHLSMediaProcessor'', ''func() *shutdown.Shutdown''}"

lemma ingest_invokes: "map fn_name (ap_invokes ingest_main) = [''StartIngestHttp'', ''StartIngestWebrtc'']"
  by (simp add: ingest_main_def in_module_def func_def)

lemma ingest_upstreams:
  "set (upstream n ingest_main ''StartIngestHttp'') \<subseteq> ingest_part" "set (upstream n ingest_main ''StartIngestWebrtc'') \<subseteq> ingest_part"
  by (rule upstream_closed; auto simp: ingest_part_def wiring)+

theorem ingest_never_connects:
  assumes "fx_run ingest_main run"
  shows "''NewNatsConnection'' \<notin> set (run_calls run)"
proof
  assume "''NewNatsConnection'' \<in> set (run_calls run)"
  then obtain cs f where f: "(cs, f) \<in> set run" "''NewNatsConnection'' \<in> set (cs @ [f])" by (auto simp: run_calls_def)
  have "f \<in> set (map snd run)" using f(1) by force
  then have "f \<in> set (map fn_name (ap_invokes ingest_main))" using assms by (simp only: fx_run_def)
  then consider "f = ''StartIngestHttp''" | "f = ''StartIngestWebrtc''" by (auto simp: ingest_invokes)
  then have "set (upstream (length (ap_provides ingest_main)) ingest_main f) \<subseteq> ingest_part" and "''NewNatsConnection'' \<noteq> f"
    by (cases; simp only: ingest_upstreams; simp)+
  moreover have "set cs \<subseteq> set (upstream (length (ap_provides ingest_main)) ingest_main f)"
    using assms f(1) by (auto simp: fx_run_def list_all_iff)
  ultimately have "''NewNatsConnection'' \<in> ingest_part" using f(2) by (simp only: set_append) auto
  then show False by (simp add: ingest_part_def)
qed

section \<open>When the ingest server boots\<close>

lemma ingest_run_calls:
  assumes "fx_run ingest_main run"
  shows "{''NewIngestWebrtcConfig'', ''NewIngestWebrtcAPI'', ''StartIngestHttp''} \<subseteq> set (run_calls run)"
proof -
  have "''NewIngestWebrtcConfig'' \<in> set (upstream (Suc (Suc 0)) ingest_main ''StartIngestWebrtc'')"
    "''NewIngestWebrtcAPI'' \<in> set (upstream (Suc (Suc 0)) ingest_main ''StartIngestWebrtc'')" by (simp_all add: wiring)
  with fx_run_calls [OF assms, of "''StartIngestWebrtc''" _ "Suc (Suc 0)"] fx_run_calls [OF assms, of "''StartIngestHttp''" _ 0]
  show ?thesis by (simp add: ingest_invokes)
qed

lemma ingest_works_else:
  assumes "x \<noteq> ''NewNatsConnection''"
  shows "ingest_works env c x \<or> x \<in> {''NewIngestWebrtcConfig'', ''NewIngestWebrtcAPI'', ''StartIngestHttp''}"
  using assms by (simp add: ingest_works_def)

lemma ingest_inv0: "ingest_inv env c [] ingest_process0"
  by (simp add: ingest_inv_def ingest_process0_def)

lemma ingest_boots:
  assumes "fx_run ingest_main run"
  shows "(\<exists>p. boot (ingest_call env c) (run_calls run) ingest_process0 = Ret p) \<longleftrightarrow>
    (\<forall>x\<in>{''NewIngestWebrtcConfig'', ''NewIngestWebrtcAPI'', ''StartIngestHttp''}. ingest_works env c x)"
proof -
  let ?X = "{''NewIngestWebrtcConfig'', ''NewIngestWebrtcAPI'', ''StartIngestHttp''}"
  have "built ingest_main [] (run_calls run)" using assms by (simp add: fx_run_def)
  then have "(\<exists>p. boot (ingest_call env c) (run_calls run) ingest_process0 = Ret p) \<longleftrightarrow> (\<forall>x\<in>set (run_calls run). ingest_works env c x)"
    by (rule ingest_start.boot_Ret [OF _ ingest_inv0])
  also have "\<dots> \<longleftrightarrow> (\<forall>x\<in>?X. ingest_works env c x)"
  proof
    assume "\<forall>x\<in>set (run_calls run). ingest_works env c x"
    then show "\<forall>x\<in>?X. ingest_works env c x" using ingest_run_calls [OF assms] by (meson subsetD)
  next
    assume works: "\<forall>x\<in>?X. ingest_works env c x"
    show "\<forall>x\<in>set (run_calls run). ingest_works env c x"
    proof
      fix x
      assume "x \<in> set (run_calls run)"
      then have "x \<noteq> ''NewNatsConnection''" using ingest_never_connects [OF assms] by auto
      from ingest_works_else [OF this, of env c] show "ingest_works env c x" using works by (elim disjE) (assumption, rule bspec)
    qed
  qed
  finally show ?thesis .
qed

text \<open>C40: the ingest server boots, in whatever order fx calls its constructors and whatever NATS does, exactly
  when its WebRTC configuration can be read, the UDP and TCP port of it and its HTTP address are free, and
  every codec, header extension and interceptor can be registered.  It then serves exactly its four routes,
  listens, and its WebRTC API announces the configured or the host's addresses; but no interceptor, not the
  one that asks broadcasters for key frames either, is ever given to the API.\<close>

theorem ingest_boots_iff:
  assumes "fx_run ingest_main run"
  shows "((\<exists>p. boot (ingest_call env c) (run_calls run) ingest_process0 = Ret p) \<longleftrightarrow>
        (\<exists>config engine. NewIngestWebrtcConfig env = Ret config
          \<and> gc_UDPMux c (UDPPort config) = None \<and> gc_ListenTCP c (TCPPort config) = None
          \<and> populateMediaEngine (gc_engine_lib c) (gc_RegisterDefaultCodecs c (gc_engine c)) = (Ret None, engine)
          \<and> gc_intervalpli c = None \<and> fst (gc_RegisterDefaultInterceptors c engine) = None)
      \<and> gc_Listen c (GetAddr (NewIngestHttpConfig env)) = None)
    \<and> (\<forall>p. boot (ingest_call env c) (run_calls run) ingest_process0 = Ret p \<longrightarrow>
        gp_router p = MuxRouter [(''/api/ingress/whip'', ''whip.Handler''), (''/api/egress/whep'', ''whep.Whep''),
           (''/api/egress/hls'', ''hls.Manifest''), (''/api/egress/hls/{segment}'', ''hls.Segment'')]
      \<and> gp_listening p = Some (GetAddr (NewIngestHttpConfig env))
      \<and> (\<exists>config api. NewIngestWebrtcConfig env = Ret config \<and> gp_api p = Some api
          \<and> wa_nat_ips api = nat_ips (NATPublicIP config) (gc_interfaces c) \<and> wa_interceptors api = None))"
proof (intro conjI allI impI)
  note calls = ingest_run_calls [OF assms]
  show "(\<exists>p. boot (ingest_call env c) (run_calls run) ingest_process0 = Ret p) \<longleftrightarrow>
        (\<exists>config engine. NewIngestWebrtcConfig env = Ret config
          \<and> gc_UDPMux c (UDPPort config) = None \<and> gc_ListenTCP c (TCPPort config) = None
          \<and> populateMediaEngine (gc_engine_lib c) (gc_RegisterDefaultCodecs c (gc_engine c)) = (Ret None, engine)
          \<and> gc_intervalpli c = None \<and> fst (gc_RegisterDefaultInterceptors c engine) = None)
      \<and> gc_Listen c (GetAddr (NewIngestHttpConfig env)) = None"
    unfolding ingest_boots [OF assms] by (cases "NewIngestWebrtcConfig env") (auto simp: ingest_works_def NewIngestWebrtcAPI_Ret)
  fix p :: "'a ingest_process"
  assume p: "boot (ingest_call env c) (run_calls run) ingest_process0 = Ret p"
  from ingest_start.boot_inv [OF p ingest_inv0] have inv: "ingest_inv env c (rev (run_calls run)) p" by simp
  have in_rev: "''NewIngestWebrtcAPI'' \<in> set (rev (run_calls run))" "''StartIngestHttp'' \<in> set (rev (run_calls run))"
    "distinct (rev (run_calls run))" using calls assms by (auto simp: fx_run_def)
  from inv in_rev show "gp_router p = MuxRouter [(''/api/ingress/whip'', ''whip.Handler''), (''/api/egress/whep'', ''whep.Whep''),
           (''/api/egress/hls'', ''hls.Manifest''), (''/api/egress/hls/{segment}'', ''hls.Segment'')]"
    by (simp only: ingest_inv_def ingest_routes_def if_True)
  from inv in_rev(2) show "gp_listening p = Some (GetAddr (NewIngestHttpConfig env))" by (simp only: ingest_inv_def)
  from inv in_rev(1) obtain config api where api: "NewIngestWebrtcConfig env = Ret config" "NewIngestWebrtcAPI c config = Ret api"
    "gp_api p = Some api" unfolding ingest_inv_def by blast
  then show "\<exists>config api. NewIngestWebrtcConfig env = Ret config \<and> gp_api p = Some api
      \<and> wa_nat_ips api = nat_ips (NATPublicIP config) (gc_interfaces c) \<and> wa_interceptors api = None"
    by (auto simp: NewIngestWebrtcAPI_Ret)
qed

definition ingest_boot_run :: "(string list \<times> string) list" where
  "ingest_boot_run = [([''NewIngestHttpConfig'', ''NewRouter'', ''NewIngestWebrtcConfig'', ''NewIngestWebrtcAPI'',
      ''NewIngestSystemConfig'', ''func() *shutdown.Shutdown'', ''NewFFmpegHLSMediaProcessor'',
      ''NewWebrtcAllocatorFunc'', ''NewStatefulStreamGlobal'', ''NewWhipHandler'', ''NewWhepHandler'',
      ''NewHLSHandler''], ''StartIngestHttp''),
     ([], ''StartIngestWebrtc'')]"

lemma ingest_boot_run_ok: "fx_run ingest_main ingest_boot_run"
proof (rule fx_runI [where n = "Suc (Suc (Suc (Suc 0)))"])
  show "map snd ingest_boot_run = map fn_name (ap_invokes ingest_main)" by (simp add: ingest_boot_run_def ingest_invokes)
  show "distinct (run_calls ingest_boot_run)" by code_simp
  show "built ingest_main [] (run_calls ingest_boot_run)" by (simp add: ingest_boot_run_def run_calls_def wiring)
  show "list_all (\<lambda>(cs, f). list_all (\<lambda>c. c \<in> set (upstream (Suc (Suc (Suc (Suc 0)))) ingest_main f)) cs) ingest_boot_run"
    by (simp add: ingest_boot_run_def wiring)
qed (simp add: ingest_main_def ingest_NatsModule_def ingest_ServerModule_def in_module_def)

definition ok_ingest_calls :: "(string list) ingest_calls" where
  "ok_ingest_calls = \<lparr>gc_engine = [], gc_engine_lib = \<lparr>RegisterCodec = \<lambda>r k m. (None, m @ [rc_MimeType r]),
       RegisterHeaderExtension = \<lambda>u k m. (None, m @ [u])\<rparr>, gc_RegisterDefaultCodecs = \<lambda>m. m,
     gc_UDPMux = \<lambda>_. None, gc_ListenTCP = \<lambda>_. None, gc_interfaces = Inl (GoErr ''no interfaces''), gc_intervalpli = None,
     gc_RegisterDefaultInterceptors = \<lambda>m. (None, m), gc_nats_Connect = \<lambda>_. Some (GoErr ''no servers''), gc_Listen = \<lambda>_. None\<rparr>"

text \<open>With the default configuration it boots when nothing is in the way, even without a NATS server.\<close>

theorem ingest_boots_iff_witness:
  "\<exists>p api. boot (ingest_call Map.empty ok_ingest_calls) (run_calls ingest_boot_run) ingest_process0 = Ret p
    \<and> gp_api p = Some api \<and> wa_interceptors api = None \<and> gp_listening p = Some (GetAddr (NewIngestHttpConfig Map.empty))"
proof -
  have config: "\<exists>config. NewIngestWebrtcConfig Map.empty = Ret config"
    by (simp add: NewIngestWebrtcConfig_def ptr_of_def Let_def)
  have engine: "\<exists>engine. populateMediaEngine (gc_engine_lib ok_ingest_calls)
      (gc_RegisterDefaultCodecs ok_ingest_calls (gc_engine ok_ingest_calls)) = (Ret None, engine)"
    by (simp add: ok_ingest_calls_def populateMediaEngine_def audio_codecs_def video_codecs_def header_extensions_def)
  note boots = ingest_boots_iff [OF ingest_boot_run_ok, of Map.empty ok_ingest_calls]
  have "\<exists>p. boot (ingest_call Map.empty ok_ingest_calls) (run_calls ingest_boot_run) ingest_process0 = Ret p"
    unfolding conjunct1 [OF boots] using config engine by (simp add: ok_ingest_calls_def)
  with conjunct2 [OF boots] show ?thesis by blast
qed

end
